(* ===== verification/Prelude.thy ===== *)
theory Prelude
  imports Main "HOL-Library.Char_ord" "HOL-Library.Word" "HOL-Library.Sublist"
begin

text \<open>
  Vocabulary shared by the components of the server: bytes and C strings, the scanning
  loops \<open>for(; i < size \<and> p(data[i]); ++i)\<close> that the parsers are made of, the C library
  calls on strings that the sources use (\<open>strncasecmp\<close>, \<open>atoi\<close>), and list facts the
  component proofs share.

  A C \<open>char\<close> is a value of type \<open>char\<close> (one byte). The sources compare \<open>char\<close>s
  only with ASCII constants and index tables by \<open>unsigned char\<close>, so the order of the
  bytes above 127 (negative as a signed \<open>char\<close>, large here) is never observed: both
  orders put them outside every ASCII range. A C string is the list of its bytes without
  the terminating zero, and a memory area is the list of its bytes.
\<close>

named_theorems scan_simps "rewriting of the scanning loops to takeWhile and dropWhile"

abbreviation NUL :: char where "NUL \<equiv> CHR 0x00"
abbreviation CR :: char where "CR \<equiv> CHR 0x0D"
abbreviation LF :: char where "LF \<equiv> CHR 0x0A"
abbreviation TAB :: char where "TAB \<equiv> CHR 0x09"
abbreviation SP :: char where "SP \<equiv> CHR '' ''"

definition is_break :: "char \<Rightarrow> bool" where
  "is_break c \<longleftrightarrow> c = CR \<or> c = LF"

definition is_upper :: "char \<Rightarrow> bool" where
  "is_upper c \<longleftrightarrow> CHR ''A'' \<le> c \<and> c \<le> CHR ''Z''"

definition is_lower :: "char \<Rightarrow> bool" where
  "is_lower c \<longleftrightarrow> CHR ''a'' \<le> c \<and> c \<le> CHR ''z''"

definition is_digit :: "char \<Rightarrow> bool" where
  "is_digit c \<longleftrightarrow> CHR ''0'' \<le> c \<and> c \<le> CHR ''9''"

lemma is_break_simps [simp]: "is_break CR" "is_break LF" "\<not> is_break SP"
  by (simp_all add: is_break_def)

section \<open>Scanning loops\<close>

text \<open>
  \<open>scan p d i\<close> is the value of \<open>i\<close> after
  \<open>for(; i < size && p(data[i]); ++i);\<close> on the memory area \<open>d\<close> of \<open>size\<close> bytes.
\<close>

function scan :: "(char \<Rightarrow> bool) \<Rightarrow> string \<Rightarrow> nat \<Rightarrow> nat" where
  "scan p d i = (if i < length d \<and> p (d ! i) then scan p d (Suc i) else i)"
  by pat_completeness auto
termination
  by (relation "measure (\<lambda>(p, d, i). length d - i)") auto

declare scan.simps [simp del]

lemma scan_takeWhile [scan_simps]: "scan p d i = i + length (takeWhile p (drop i d))"
proof (induction p d i rule: scan.induct)
  case (1 p d i)
  show ?case
  proof (cases "i < length d")
    case True
    then have "drop i d = d ! i # drop (Suc i) d" by (simp add: Cons_nth_drop_Suc)
    with True 1 show ?thesis by (simp add: scan.simps [of p d i])
  next
    case False
    then show ?thesis by (simp add: scan.simps [of p d i])
  qed
qed

lemma scan_ge: "i \<le> scan p d i"
  by (simp add: scan_takeWhile)

lemma scan_le: "i \<le> length d \<Longrightarrow> scan p d i \<le> length d"
  using length_takeWhile_le [of p "drop i d"] by (simp add: scan_takeWhile)

lemma scan_stop: "scan p d i < length d \<Longrightarrow> \<not> p (d ! scan p d i)"
proof (induction p d i rule: scan.induct)
  case (1 p d i)
  then show ?case
    by (cases "i < length d \<and> p (d ! i)") (simp_all add: scan.simps [of p d i])
qed

lemma scan_pass: "i \<le> k \<Longrightarrow> k < scan p d i \<Longrightarrow> p (d ! k)"
proof (induction p d i rule: scan.induct)
  case (1 p d i)
  show ?case
  proof (cases "i < length d \<and> p (d ! i)")
    case True
    with 1 show ?thesis by (cases "k = i") (auto simp: scan.simps [of p d i])
  next
    case False
    with "1.prems" show ?thesis by (simp add: scan.simps [of p d i])
  qed
qed

text \<open>
  The result of a scan that stopped inside the area does not depend on what follows: this
  is why a parser may be restarted on a longer buffer.
\<close>

lemma scan_append: "scan p d i < length d \<Longrightarrow> scan p (d @ e) i = scan p d i"
proof (induction p d i rule: scan.induct)
  case (1 p d i)
  show ?case
  proof (cases "i < length d \<and> p (d ! i)")
    case True
    with 1 show ?thesis
      by (simp add: scan.simps [of p d i] scan.simps [of p "d @ e" i] nth_append)
  next
    case False
    with "1.prems" show ?thesis
      by (auto simp: scan.simps [of p d i] scan.simps [of p "d @ e" i] nth_append)
  qed
qed

lemma length_takeWhile_append: "length (takeWhile p xs) \<le> length (takeWhile p (xs @ ys))"
  by (induction xs) auto

lemma scan_append_ge: "i \<le> length d \<Longrightarrow> scan p d i \<le> scan p (d @ e) i"
  using length_takeWhile_append [of p "drop i d" e] by (simp add: scan_takeWhile)

lemma scan_eqI:
  assumes "i \<le> j" "j \<le> length d" "\<And>k. i \<le> k \<Longrightarrow> k < j \<Longrightarrow> p (d ! k)"
    and "j < length d \<Longrightarrow> \<not> p (d ! j)"
  shows "scan p d i = j"
proof (rule ccontr)
  assume "scan p d i \<noteq> j"
  then consider "scan p d i < j" | "j < scan p d i" by linarith
  then show False
  proof cases
    case 1
    then have "p (d ! scan p d i)" using assms(3) scan_ge by blast
    moreover have "\<not> p (d ! scan p d i)" using 1 assms(2) by (intro scan_stop) simp
    ultimately show False by simp
  next
    case 2
    then have "p (d ! j)" using assms(1) scan_pass by blast
    moreover have "j < length d"
      using 2 assms(1,2) scan_le [of i d p] by simp
    ultimately show False using assms(4) by blast
  qed
qed

section \<open>Memory areas\<close>

text \<open>Writing a block of bytes at an offset, as \<open>read(fd, buf + off, n)\<close> does, and reading one back.\<close>

definition mem_write :: "nat \<Rightarrow> string \<Rightarrow> string \<Rightarrow> string" where
  "mem_write off bs m = take off m @ bs @ drop (off + length bs) m"

definition mem_read :: "nat \<Rightarrow> nat \<Rightarrow> string \<Rightarrow> string" where
  "mem_read off n m = take n (drop off m)"

lemma length_mem_write [simp]:
  "off + length bs \<le> length m \<Longrightarrow> length (mem_write off bs m) = length m"
  by (simp add: mem_write_def)

lemma length_mem_read [simp]:
  "off + n \<le> length m \<Longrightarrow> length (mem_read off n m) = n"
  by (simp add: mem_read_def)

lemma take_mem_write:
  "off + length bs \<le> length m \<Longrightarrow> take (off + length bs) (mem_write off bs m) = take off m @ bs"
  by (simp add: mem_write_def)

lemma take_mem_write_before:
  "k \<le> off \<Longrightarrow> off \<le> length m \<Longrightarrow> take k (mem_write off bs m) = take k m"
  by (simp add: mem_write_def)

lemma drop_mem_write_after:
  "off + length bs \<le> k \<Longrightarrow> k \<le> length m \<Longrightarrow> drop k (mem_write off bs m) = drop k m"
  by (simp add: mem_write_def)

section \<open>C library functions on strings\<close>

text \<open>The C string in a memory area: its bytes up to the first zero.\<close>

definition cstr :: "string \<Rightarrow> string" where
  "cstr m = takeWhile (\<lambda>c. c \<noteq> NUL) m"

text \<open>Reading \<open>s[i]\<close> of a C string: the terminating zero follows its last byte.\<close>

definition cstr_at :: "string \<Rightarrow> nat \<Rightarrow> char" where
  "cstr_at s i = (if i < length s then s ! i else NUL)"

definition c_tolower :: "char \<Rightarrow> char" where
  "c_tolower c = (if is_upper c then char_of (of_char c + 32 :: nat) else c)"

text \<open>
  \<open>strncasecmp(s, t, n) == 0\<close> in the C locale: at most \<open>n\<close> bytes are compared, up to a common
  terminating zero.
\<close>

fun strncasecmp_eq :: "string \<Rightarrow> string \<Rightarrow> nat \<Rightarrow> bool" where
  "strncasecmp_eq s t 0 = True"
| "strncasecmp_eq s t (Suc n) =
     (let c = cstr_at s 0; d = cstr_at t 0
      in if c_tolower c \<noteq> c_tolower d then False
         else if c = NUL then True
         else strncasecmp_eq (tl s) (tl t) n)"

definition is_space :: "char \<Rightarrow> bool" where
  "is_space c \<longleftrightarrow> c = SP \<or> c = TAB \<or> c = LF \<or> c = CHR 0x0B \<or> c = CHR 0x0C \<or> c = CR"

definition digit_value :: "char \<Rightarrow> int" where
  "digit_value c = of_char c - of_char (CHR ''0'')"

definition decimal :: "string \<Rightarrow> int" where
  "decimal ds = foldl (\<lambda>n c. 10 * n + digit_value c) 0 ds"

text \<open>
  The sign and the digits that \<open>strtol\<close> and its kin read, after leading white space:
  whether there is a number at all, and its value.
\<close>

definition read_integer :: "string \<Rightarrow> bool \<times> int" where
  "read_integer s =
     (let s1 = dropWhile is_space s;
          neg = (s1 \<noteq> [] \<and> hd s1 = CHR ''-'');
          s2 = (if s1 \<noteq> [] \<and> (hd s1 = CHR ''-'' \<or> hd s1 = CHR ''+'') then tl s1 else s1);
          ds = takeWhile is_digit s2
      in (ds \<noteq> [], if neg then - decimal ds else decimal ds))"

text \<open>
  \<open>atoi\<close> as the C library of the target computes it, \<open>(int) strtol(s, NULL, 10)\<close>: the value
  saturates at the bounds of a 64-bit \<open>long\<close> and is then cut to 32 bits.
\<close>

definition atoi :: "string \<Rightarrow> int" where
  "atoi s = signed_take_bit 31 (max (- (2 ^ 63)) (min (2 ^ 63 - 1) (snd (read_integer s))))"

text \<open>Decimal output: \<open>%d\<close>, \<open>%lld\<close>, \<open>%zu\<close> and \<open>std::to_string\<close>.\<close>

definition digit_char :: "nat \<Rightarrow> char" where
  "digit_char n = char_of (48 + n)"

fun show_nat :: "nat \<Rightarrow> string" where
  "show_nat n = (if n < 10 then [digit_char n] else show_nat (n div 10) @ [digit_char (n mod 10)])"

declare show_nat.simps [simp del]

definition show_int :: "int \<Rightarrow> string" where
  "show_int i = (if i < 0 then CHR ''-'' # show_nat (nat (- i)) else show_nat (nat i))"

lemma digit_char:
  assumes "n < 10" shows "is_digit (digit_char n)" "digit_value (digit_char n) = int n"
proof -
  have "\<forall>n \<in> set [0..<10]. is_digit (digit_char n) \<and> digit_value (digit_char n) = int n" by code_simp
  then show "is_digit (digit_char n)" "digit_value (digit_char n) = int n" using assms by simp_all
qed

lemma show_nat_digits: "c \<in> set (show_nat n) \<Longrightarrow> is_digit c"
proof (induction n rule: show_nat.induct)
  case (1 n)
  then show ?case by (cases "n < 10") (auto simp: show_nat.simps [of n] digit_char)
qed

lemma show_nat_ne [simp]: "show_nat n \<noteq> []"
  by (simp add: show_nat.simps [of n])

lemma decimal_append: "decimal (xs @ [c]) = 10 * decimal xs + digit_value c"
  by (simp add: decimal_def)

lemma decimal_show_nat: "decimal (show_nat n) = int n"
proof (induction n rule: show_nat.induct)
  case (1 n)
  show ?case
  proof (cases "n < 10")
    case True
    then show ?thesis by (simp add: show_nat.simps [of n] decimal_def digit_char)
  next
    case False
    have "int n = 10 * int (n div 10) + int (n mod 10)" using mult_div_mod_eq [of 10 n] by linarith
    then show ?thesis
      using 1 False by (simp add: show_nat.simps [of n] decimal_append digit_char)
  qed
qed

lemma digit_class: "is_digit c \<Longrightarrow> \<not> is_space c \<and> c \<noteq> CHR ''-'' \<and> c \<noteq> CHR ''+''"
  by (auto simp: is_digit_def is_space_def)

lemma read_integer_show:
  "x = [] \<or> \<not> is_digit (hd x) \<Longrightarrow> read_integer (show_nat n @ x) = (True, int n)"
proof -
  assume x: "x = [] \<or> \<not> is_digit (hd x)"
  obtain c cs where s: "show_nat n = c # cs" by (meson neq_Nil_conv show_nat_ne)
  have c: "\<not> is_space c" "c \<noteq> CHR ''-''" "c \<noteq> CHR ''+''"
    using digit_class [OF show_nat_digits [of c n]] s by auto
  have "takeWhile is_digit (show_nat n @ x) = show_nat n"
    using x show_nat_digits [of _ n] by (cases x) (auto simp: takeWhile_append)
  then show ?thesis
    using c decimal_show_nat [of n] by (simp add: read_integer_def Let_def s)
qed

end
