(* ===== verification/StateLemmas.thy ===== *)
theory StateLemmas
  imports Prelude "HOL-Library.State_Monad"
begin

text \<open>
  The member functions of the poll loop and of the executors read and change one shared
  state through many calls. They are written in the library's state monad, in the order of the
  source. \<open>wp m Q s\<close> says that running \<open>m\<close> from \<open>s\<close> ends in a result and a state that satisfy
  \<open>Q\<close>; a monadic function is total, so this is all there is to its correctness.
\<close>

named_theorems wp_simps "weakest preconditions of the monad's operations"

definition wp :: "('s, 'a) state \<Rightarrow> ('a \<Rightarrow> 's \<Rightarrow> bool) \<Rightarrow> 's \<Rightarrow> bool" where
  "wp m Q s \<longleftrightarrow> (case run_state m s of (r, s') \<Rightarrow> Q r s')"

text \<open>Reading a part of the state, and changing it.\<close>

definition gets :: "('s \<Rightarrow> 'a) \<Rightarrow> ('s, 'a) state" where
  "gets f = State (\<lambda>s. (f s, s))"

definition modify :: "('s \<Rightarrow> 's) \<Rightarrow> ('s, unit) state" where
  "modify f = State (\<lambda>s. ((), f s))"

lemma run_gets [simp]: "run_state (gets f) s = (f s, s)"
  by (simp add: gets_def)

lemma run_modify [simp]: "run_state (modify f) s = ((), f s)"
  by (simp add: modify_def)

lemma wp_bind [wp_simps]: "wp (State_Monad.bind m f) Q s \<longleftrightarrow> wp m (\<lambda>r s'. wp (f r) Q s') s"
  by (simp add: wp_def split: prod.splits)

lemma wp_return [wp_simps]: "wp (State_Monad.return x) Q s \<longleftrightarrow> Q x s"
  by (simp add: wp_def)

lemma wp_gets [wp_simps]: "wp (gets f) Q s \<longleftrightarrow> Q (f s) s"
  by (simp add: wp_def)

lemma wp_modify [wp_simps]: "wp (modify f) Q s \<longleftrightarrow> Q () (f s)"
  by (simp add: wp_def)

lemma wp_if [wp_simps]: "wp (if b then m else n) Q s \<longleftrightarrow> (b \<longrightarrow> wp m Q s) \<and> (\<not> b \<longrightarrow> wp n Q s)"
  by simp

lemma wp_option [wp_simps]:
  "wp (case x of None \<Rightarrow> m | Some y \<Rightarrow> f y) Q s \<longleftrightarrow>
     (x = None \<longrightarrow> wp m Q s) \<and> (\<forall>y. x = Some y \<longrightarrow> wp (f y) Q s)"
  by (cases x) auto

lemma wp_sum [wp_simps]:
  "wp (case x of Inl y \<Rightarrow> f y | Inr z \<Rightarrow> g z) Q s \<longleftrightarrow>
     (\<forall>y. x = Inl y \<longrightarrow> wp (f y) Q s) \<and> (\<forall>z. x = Inr z \<longrightarrow> wp (g z) Q s)"
  by (cases x) auto

lemma wp_prod [wp_simps]: "wp (case x of (a, b) \<Rightarrow> f a b) Q s \<longleftrightarrow> wp (f (fst x) (snd x)) Q s"
  by (cases x) auto

lemma wp_let [wp_simps]: "wp (let x = t in f x) Q s \<longleftrightarrow> wp (f t) Q s"
  by simp

lemma wp_mono: "wp m P s \<Longrightarrow> (\<And>r s'. P r s' \<Longrightarrow> Q r s') \<Longrightarrow> wp m Q s"
  by (auto simp: wp_def split: prod.splits)

lemma wp_conj: "wp m (\<lambda>r s. P r s \<and> Q r s) s \<longleftrightarrow> wp m P s \<and> wp m Q s"
  by (auto simp: wp_def split: prod.splits)

lemma wp_run: "wp m Q s \<Longrightarrow> run_state m s = (r, s') \<Longrightarrow> Q r s'"
  by (simp add: wp_def)

lemma wp_True [simp]: "wp m (\<lambda>_ _. True) s"
  by (simp add: wp_def split: prod.splits)

text \<open>Running a list of commands one after the other: the body of a \<open>for\<close> loop over a list.\<close>

fun for_each :: "('a \<Rightarrow> ('s, unit) state) \<Rightarrow> 'a list \<Rightarrow> ('s, unit) state" where
  "for_each f [] = State_Monad.return ()"
| "for_each f (x # xs) = do { f x; for_each f xs }"

lemma wp_for_each:
  "I xs s \<Longrightarrow> (\<And>x xs s. I (x # xs) s \<Longrightarrow> wp (f x) (\<lambda>_. I xs) s) \<Longrightarrow> wp (for_each f xs) (\<lambda>_. I []) s"
proof (induction xs arbitrary: s)
  case Nil
  then show ?case by (simp add: wp_simps)
next
  case (Cons x xs)
  have "wp (f x) (\<lambda>_. I xs) s" by (rule Cons.prems(2) [OF Cons.prems(1)])
  then have "wp (f x) (\<lambda>_ s'. wp (for_each f xs) (\<lambda>_. I []) s') s"
    by (rule wp_mono) (rule Cons.IH [OF _ Cons.prems(2)])
  then show ?case by (simp add: wp_simps)
qed

text \<open>
  \<open>stable P m\<close>: \<open>m\<close> keeps \<open>P\<close> true. The rules take a command apart, so that an invariant that only
  a few operations touch is proved by \<open>intro stable_intros\<close>.
\<close>

definition stable :: "('s \<Rightarrow> bool) \<Rightarrow> ('s, 'a) state \<Rightarrow> bool" where
  "stable P m \<longleftrightarrow> (\<forall>s. P s \<longrightarrow> wp m (\<lambda>_. P) s)"

named_theorems stable_intros "commands that keep an invariant"

lemma stableD: "stable P m \<Longrightarrow> P s \<Longrightarrow> wp m (\<lambda>_. P) s"
  by (simp add: stable_def)

lemma stable_run: "stable P m \<Longrightarrow> P s \<Longrightarrow> P (snd (run_state m s))"
  using stableD wp_run by (metis prod.collapse)

lemma stable_bind [stable_intros]:
  "stable P m \<Longrightarrow> (\<And>x. stable P (f x)) \<Longrightarrow> stable P (State_Monad.bind m f)"
  unfolding stable_def wp_bind by (blast intro: wp_mono)

lemma stable_pure [stable_intros]: "stable P (State_Monad.return x)" "stable P (gets g)"
  by (simp_all add: stable_def wp_simps)

lemma stable_if [stable_intros]: "stable P m \<Longrightarrow> stable P n \<Longrightarrow> stable P (if b then m else n)"
  by simp

lemma stable_case [stable_intros]:
  "stable P m \<Longrightarrow> (\<And>y. stable P (f y)) \<Longrightarrow> stable P (case x of None \<Rightarrow> m | Some y \<Rightarrow> f y)"
  "(\<And>a b. stable P (g a b)) \<Longrightarrow> stable P (case p of (a, b) \<Rightarrow> g a b)"
  "(\<And>y. stable P (f1 y)) \<Longrightarrow> (\<And>z. stable P (f2 z)) \<Longrightarrow> stable P (case v of Inl y \<Rightarrow> f1 y | Inr z \<Rightarrow> f2 z)"
  by (auto split: option.split prod.split sum.split)

lemma stable_for_each [stable_intros]: "(\<And>x. stable P (f x)) \<Longrightarrow> stable P (for_each f xs)"
  by (induction xs) (auto intro: stable_intros)

text \<open>The same with what is known in each branch.\<close>

lemma stable_if_eq: "(b \<Longrightarrow> stable P m) \<Longrightarrow> (\<not> b \<Longrightarrow> stable P n) \<Longrightarrow> stable P (if b then m else n)"
  by simp

lemma stable_option_eq:
  "(x = None \<Longrightarrow> stable P m) \<Longrightarrow> (\<And>y. x = Some y \<Longrightarrow> stable P (f y)) \<Longrightarrow>
     stable P (case x of None \<Rightarrow> m | Some y \<Rightarrow> f y)"
  by (simp split: option.split)

lemma stable_prod_eq:
  "(\<And>a b. p = (a, b) \<Longrightarrow> stable P (g a b)) \<Longrightarrow> stable P (case p of (a, b) \<Rightarrow> g a b)"
  by (simp split: prod.split)

end
