(* ===== verification/OsInterface.thy ===== *)
theory OsInterface
  imports StateLemmas
begin

unbundle bit_operations_syntax

text \<open>
  What the server calls and does not contain: the kernel, OpenSSL, the lock-free queue of
  boost, the clock and the date functions of the C library. They act on a world \<open>'w\<close> that the
  model never looks into, and are the fields of a record that every operation using them takes
  as an argument. The results are those of the C interfaces: \<open>-1\<close> for failure with the reason
  in \<open>errno\<close>, byte counts otherwise.

  \<open>io_ok\<close> and \<open>epoll_del_ok\<close> state documented behaviour that some theorems rely on;
  they are hypotheses of those theorems and of no definition.
\<close>

section \<open>Constants\<close>

definition EPOLLIN :: "32 word" where "EPOLLIN = 0x001"
definition EPOLLOUT :: "32 word" where "EPOLLOUT = 0x004"
definition EPOLLERR :: "32 word" where "EPOLLERR = 0x008"
definition EPOLLRDHUP :: "32 word" where "EPOLLRDHUP = 0x2000"

definition has :: "32 word \<Rightarrow> 32 word \<Rightarrow> bool" where
  "has events flag \<longleftrightarrow> events AND flag \<noteq> 0"

definition ENOENT :: int where "ENOENT = 2"
definition EINTR :: int where "EINTR = 4"
definition EAGAIN :: int where "EAGAIN = 11"
definition EWOULDBLOCK :: int where "EWOULDBLOCK = EAGAIN"
definition EINVAL :: int where "EINVAL = 22"
definition EINPROGRESS :: int where "EINPROGRESS = 115"

definition SSL_ERROR_WANT_READ :: int where "SSL_ERROR_WANT_READ = 2"
definition SSL_ERROR_WANT_WRITE :: int where "SSL_ERROR_WANT_WRITE = 3"

datatype executor_type = ET_server | ET_request | ET_file | ET_proxy
  | ET_serverSsl | ET_requestSsl | ET_sslFile | ET_sslProxy

datatype socket_domain = AF_INET | AF_UNIX

section \<open>The calls\<close>

text \<open>
  \<open>os_read fd n\<close> returns the result and the bytes delivered; \<open>os_sendfile\<close> returns the result
  and the new file offset; \<open>os_fstat\<close> the result, size and modification time; \<open>os_pipe2\<close> the result
  and the two ends; \<open>os_getsockopt_error\<close> the result and the pending socket error;
  \<open>os_epoll_wait ep max timeout\<close> the result and the events, each a mask and the registered
  pointer. An SSL object is named by a number; the calls that the source makes on a connection's
  \<open>ssl\<close> member, which may be null, take it as an option.
\<close>

record 'w os =
  os_errno :: "'w \<Rightarrow> int"
  os_read :: "int \<Rightarrow> nat \<Rightarrow> 'w \<Rightarrow> (int \<times> string) \<times> 'w"
  os_write :: "int \<Rightarrow> string \<Rightarrow> 'w \<Rightarrow> int \<times> 'w"
  os_close :: "int \<Rightarrow> 'w \<Rightarrow> int \<times> 'w"
  os_open :: "string \<Rightarrow> 'w \<Rightarrow> int \<times> 'w"
  os_fstat :: "int \<Rightarrow> 'w \<Rightarrow> (int \<times> int \<times> int) \<times> 'w"
  os_sendfile :: "int \<Rightarrow> int \<Rightarrow> int \<Rightarrow> int \<Rightarrow> 'w \<Rightarrow> (int \<times> int) \<times> 'w"
  os_splice :: "int \<Rightarrow> int \<Rightarrow> int \<Rightarrow> 'w \<Rightarrow> int \<times> 'w"
  os_pipe2 :: "'w \<Rightarrow> (int \<times> int \<times> int) \<times> 'w"
  os_socket :: "socket_domain \<Rightarrow> bool \<Rightarrow> 'w \<Rightarrow> int \<times> 'w"
  os_connect_inet :: "int \<Rightarrow> string \<Rightarrow> int \<Rightarrow> 'w \<Rightarrow> int \<times> 'w"
  os_connect_unix :: "int \<Rightarrow> string \<Rightarrow> 'w \<Rightarrow> int \<times> 'w"
  os_getsockopt_error :: "int \<Rightarrow> 'w \<Rightarrow> (int \<times> int) \<times> 'w"
  os_setsockopt_reuseaddr :: "int \<Rightarrow> 'w \<Rightarrow> int \<times> 'w"
  os_bind :: "int \<Rightarrow> int \<Rightarrow> 'w \<Rightarrow> int \<times> 'w"
  os_listen :: "int \<Rightarrow> int \<Rightarrow> 'w \<Rightarrow> int \<times> 'w"
  os_accept4 :: "int \<Rightarrow> 'w \<Rightarrow> int \<times> 'w"
  os_epoll_create1 :: "'w \<Rightarrow> int \<times> 'w"
  os_epoll_add :: "int \<Rightarrow> int \<Rightarrow> 32 word \<Rightarrow> nat \<Rightarrow> 'w \<Rightarrow> int \<times> 'w"
  os_epoll_mod :: "int \<Rightarrow> int \<Rightarrow> 32 word \<Rightarrow> nat \<Rightarrow> 'w \<Rightarrow> int \<times> 'w"
  os_epoll_del :: "int \<Rightarrow> int \<Rightarrow> 'w \<Rightarrow> int \<times> 'w"
  os_epoll_wait :: "int \<Rightarrow> nat \<Rightarrow> int \<Rightarrow> 'w \<Rightarrow> (int \<times> (32 word \<times> nat) list) \<times> 'w"
  os_eventfd :: "'w \<Rightarrow> int \<times> 'w"
  os_eventfd_read :: "int \<Rightarrow> 'w \<Rightarrow> int \<times> 'w"
  os_eventfd_write :: "int \<Rightarrow> 'w \<Rightarrow> int \<times> 'w"
  os_getMilliseconds :: "'w \<Rightarrow> int \<times> 'w"
  os_queue_push :: "int \<times> executor_type \<Rightarrow> 'w \<Rightarrow> bool \<times> 'w"
  os_queue_pop :: "'w \<Rightarrow> (int \<times> executor_type) option \<times> 'w"
  os_runFlag_load :: "'w \<Rightarrow> bool \<times> 'w"
  os_runFlag_store :: "bool \<Rightarrow> 'w \<Rightarrow> unit \<times> 'w"
  os_srv_createRequestExecutor :: "int \<Rightarrow> executor_type \<Rightarrow> 'w \<Rightarrow> int \<times> 'w"
  os_SSL_new :: "'w \<Rightarrow> nat option \<times> 'w"
  os_SSL_set_fd :: "nat \<Rightarrow> int \<Rightarrow> 'w \<Rightarrow> int \<times> 'w"
  os_SSL_set_accept_state :: "nat \<Rightarrow> 'w \<Rightarrow> unit \<times> 'w"
  os_SSL_do_handshake :: "nat option \<Rightarrow> 'w \<Rightarrow> int \<times> 'w"
  os_SSL_get_error :: "nat option \<Rightarrow> int \<Rightarrow> 'w \<Rightarrow> int \<times> 'w"
  os_SSL_read :: "nat option \<Rightarrow> nat \<Rightarrow> 'w \<Rightarrow> (int \<times> string) \<times> 'w"
  os_SSL_write :: "nat option \<Rightarrow> string \<Rightarrow> 'w \<Rightarrow> int \<times> 'w"
  os_SSL_shutdown :: "nat \<Rightarrow> 'w \<Rightarrow> int \<times> 'w"
  os_SSL_free :: "nat \<Rightarrow> 'w \<Rightarrow> unit \<times> 'w"
  os_http_date :: "int \<Rightarrow> string"
  os_http_time :: "string \<Rightarrow> int option"

section \<open>Documented behaviour\<close>

text \<open>A read or write transfers at most what it was asked to, and a read delivers what it returns.\<close>

definition io_ok :: "'w os \<Rightarrow> bool" where
  "io_ok os \<longleftrightarrow>
     (\<forall>fd n w r bs w'. os_read os fd n w = ((r, bs), w') \<longrightarrow> r \<le> int n \<and> (0 < r \<longrightarrow> int (length bs) = r))
   \<and> (\<forall>fd bs w r w'. os_write os fd bs w = (r, w') \<longrightarrow> r \<le> int (length bs))
   \<and> (\<forall>ssl n w r bs w'. os_SSL_read os ssl n w = ((r, bs), w') \<longrightarrow> r \<le> int n \<and> (0 < r \<longrightarrow> int (length bs) = r))
   \<and> (\<forall>ssl bs w r w'. os_SSL_write os ssl bs w = (r, w') \<longrightarrow> r \<le> int (length bs))"

text \<open>Taking a descriptor out of the interest list succeeds.\<close>

definition epoll_del_ok :: "'w os \<Rightarrow> bool" where
  "epoll_del_ok os \<longleftrightarrow> (\<forall>ep fd w. fst (os_epoll_del os ep fd w) = 0)"

text \<open>\<open>sendfile\<close> advances the offset it was given by what it sent.\<close>

definition sendfile_ok :: "'w os \<Rightarrow> bool" where
  "sendfile_ok os \<longleftrightarrow> (\<forall>o_fd i_fd off n w r off' w'. os_sendfile os o_fd i_fd off n w = ((r, off'), w') \<longrightarrow>
     r \<le> n \<and> off' = off + max 0 r)"

definition os_ok :: "'w os \<Rightarrow> bool" where
  "os_ok os \<longleftrightarrow> io_ok os \<and> epoll_del_ok os"

end
