(* ===== verification/ServerParameters.thy ===== *)
theory ServerParameters
  imports Prelude
begin

text \<open>
  \<open>src/ServerParameters.h\<close> and \<open>src/ProxyParameters.h\<close>: the parameters of the server.
\<close>

datatype socket_type = ST_none | ST_tcp | ST_unix

definition CT_none :: "32 word" where "CT_none = 0"
definition CT_clear :: "32 word" where "CT_clear = 1"
definition CT_ssl :: "32 word" where "CT_ssl = 2"

record proxy_parameters =
  px_prefix :: string
  px_address :: string
  px_port :: int
  px_connectionType :: "32 word"
  px_socketType :: socket_type

datatype log_level = LL_debug | LL_info | LL_warning | LL_error

datatype log_type = LT_stdout | LT_mmap

record server_parameters =
  sp_rootFolder :: string
  sp_logFolder :: string
  sp_threadCount :: int
  sp_executorTimeoutMillis :: int
  sp_logLevel :: log_level
  sp_logType :: log_type
  sp_logFileSize :: int
  sp_logArchiveCount :: int
  sp_logStats :: bool
  sp_httpPorts :: "int list"
  sp_httpsPorts :: "int list"
  sp_proxies :: "proxy_parameters list"

definition sp_defaults :: server_parameters where
  "sp_defaults = \<lparr>sp_rootFolder = ''./data'', sp_logFolder = ''./log'', sp_threadCount = 1,
     sp_executorTimeoutMillis = 10000, sp_logLevel = LL_info, sp_logType = LT_stdout,
     sp_logFileSize = 1024 * 1024, sp_logArchiveCount = 10, sp_logStats = True,
     sp_httpPorts = [], sp_httpsPorts = [], sp_proxies = []\<rparr>"

end
