(* ===== verification/HttpRequest.thy ===== *)
theory HttpRequest
  imports Prelude
begin

unbundle bit_operations_syntax

text \<open>
  \<open>src/HttpRequest.h\<close> and \<open>src/HttpRequest.cpp\<close>: the incremental request parser. It scans
  the connection's receive buffer, which grows between calls of \<open>parse\<close>, and records method,
  URL, headers and content as offsets into it; the URL is then decoded into a buffer of its
  own and checked.

  \<open>data\<close> and \<open>size\<close> are the list \<open>rq_data\<close> of the \<open>size\<close> bytes at \<open>data\<close>. Offsets and
  lengths are \<open>nat\<close>: the receive buffer has 10000 bytes, so no \<open>int\<close> comes near its bounds.
  \<open>contentLength\<close> comes from the peer and keeps its sign.
\<close>

section \<open>Data\<close>

datatype parse_result = PR_finishOk | PR_finishInvalid | PR_needMoreData

datatype parse_state = S_method | S_spaceAfterMethod | S_url | S_urlParameters | S_spaceAfterUrl
  | S_headerKey | S_headerSpace | S_headerValue | S_headerLineBreak | S_finishOk | S_content | S_invalid

datatype read_result = RR_invalid | RR_needMoreData | RR_ok | RR_question | RR_endOfHeaders

record field =
  fld_start :: nat
  fld_length :: nat

record header =
  hdr_key :: field
  hdr_value :: field

record http_request =
  rq_cur :: nat
  rq_data :: string
  rq_state :: parse_state
  rq_methodStart :: nat
  rq_methodLength :: nat
  rq_urlStart :: nat
  rq_urlLength :: nat
  rq_urlParametersStart :: nat
  rq_urlParametersLength :: nat
  rq_contentStart :: nat
  rq_contentLength :: int
  rq_curKey :: field
  rq_headers :: "header list"
  rq_urlBuffer :: "string option"
  rq_urlBufferSize :: nat

abbreviation rq_size :: "http_request \<Rightarrow> nat" where
  "rq_size r \<equiv> length (rq_data r)"

text \<open>The members' default initialisers, and \<open>reset\<close>, which keeps the URL buffer.\<close>

definition rq_init :: http_request where
  "rq_init = \<lparr>rq_cur = 0, rq_data = [], rq_state = S_method, rq_methodStart = 0, rq_methodLength = 0,
     rq_urlStart = 0, rq_urlLength = 0, rq_urlParametersStart = 0, rq_urlParametersLength = 0,
     rq_contentStart = 0, rq_contentLength = 0, rq_curKey = \<lparr>fld_start = 0, fld_length = 0\<rparr>,
     rq_headers = [], rq_urlBuffer = None, rq_urlBufferSize = 0\<rparr>"

definition rq_reset :: "http_request \<Rightarrow> http_request" where
  "rq_reset r = r\<lparr>rq_cur := 0, rq_data := [], rq_state := S_method, rq_methodStart := 0,
     rq_methodLength := 0, rq_urlStart := 0, rq_urlLength := 0, rq_urlParametersStart := 0,
     rq_urlParametersLength := 0, rq_contentStart := 0, rq_contentLength := 0,
     rq_curKey := \<lparr>fld_start = 0, fld_length = 0\<rparr>, rq_headers := []\<rparr>"

section \<open>Symbol tables\<close>

definition checkUrlSymbols :: "char \<Rightarrow> bool" where
  "checkUrlSymbols c \<longleftrightarrow> is_lower c \<or> is_upper c \<or> is_digit c
     \<or> c = CHR ''/'' \<or> c = CHR ''.'' \<or> c = CHR ''_'' \<or> c = CHR ''-'' \<or> c = SP"

definition readUrlSymbols :: "char \<Rightarrow> bool" where
  "readUrlSymbols c \<longleftrightarrow> is_lower c \<or> is_upper c \<or> is_digit c
     \<or> c = CHR ''/'' \<or> c = CHR ''.'' \<or> c = CHR ''_'' \<or> c = CHR ''='' \<or> c = CHR ''-'' \<or> c = CHR ''%''"

definition readHeaderKeySymbols :: "char \<Rightarrow> bool" where
  "readHeaderKeySymbols c \<longleftrightarrow> is_upper c \<or> is_lower c \<or> c = CHR ''-''"

section \<open>Readers\<close>

text \<open>
  Each reader looks at the bytes from \<open>cur\<close> on and changes nothing; the second component is
  its out parameter \<open>length\<close>. Where the source leaves \<open>length\<close> unset the model gives 0,
  which the caller does not use in those branches. A loop that advances over one class of
  bytes and decides on the first other one is a \<open>scan\<close> followed by the decision.
\<close>

definition readMethod :: "http_request \<Rightarrow> read_result \<times> nat" where
  "readMethod r =
     (let i = scan is_upper (rq_data r) (rq_cur r)
      in if i < rq_size r
         then if rq_data r ! i = SP then (RR_ok, i - rq_cur r) else (RR_invalid, 0)
         else (RR_needMoreData, 0))"

definition readSpaces :: "http_request \<Rightarrow> read_result \<times> nat" where
  "readSpaces r =
     (let i = scan (\<lambda>c. c = SP) (rq_data r) (rq_cur r)
      in if i = rq_size r then (RR_needMoreData, 0)
         else if rq_data r ! i = CR \<or> rq_data r ! i = LF then (RR_invalid, 0)
         else (RR_ok, i - rq_cur r))"

definition readUrl :: "http_request \<Rightarrow> read_result \<times> nat" where
  "readUrl r =
     (let i = scan readUrlSymbols (rq_data r) (rq_cur r)
      in if i < rq_size r
         then if rq_data r ! i = SP then (RR_ok, i - rq_cur r)
              else if rq_data r ! i = CHR ''?'' then (RR_question, i - rq_cur r)
              else (RR_invalid, 0)
         else (RR_needMoreData, 0))"

definition readUrlParameters :: "http_request \<Rightarrow> read_result \<times> nat" where
  "readUrlParameters r =
     (let i = scan (\<lambda>c. c \<noteq> SP) (rq_data r) (rq_cur r)
      in if i = rq_size r then (RR_needMoreData, 0)
         else if rq_data r ! i = CR \<or> rq_data r ! i = LF then (RR_invalid, 0)
         else (RR_ok, i - rq_cur r))"

text \<open>The two line break loops also count the line feeds they pass.\<close>

definition lineBreakCounter :: "string \<Rightarrow> nat \<Rightarrow> nat \<Rightarrow> nat" where
  "lineBreakCounter d i j = length (filter (\<lambda>c. c = LF) (mem_read i (j - i) d))"

definition readToNextLine :: "http_request \<Rightarrow> read_result \<times> nat" where
  "readToNextLine r =
     (let i = scan (\<lambda>c. \<not> is_break c) (rq_data r) (rq_cur r)
      in if i = rq_size r then (RR_needMoreData, 0)
         else
           let j = scan is_break (rq_data r) i
           in if lineBreakCounter (rq_data r) i j > 1 then (RR_endOfHeaders, 0)
              else if j = rq_size r then (RR_needMoreData, 0)
              else (RR_ok, j - rq_cur r))"

definition readHeaderKey :: "http_request \<Rightarrow> read_result \<times> nat" where
  "readHeaderKey r =
     (let i = scan readHeaderKeySymbols (rq_data r) (rq_cur r)
      in if i < rq_size r
         then if rq_data r ! i = CHR '':'' then (RR_ok, i - rq_cur r) else (RR_invalid, 0)
         else (RR_needMoreData, 0))"

definition readHeaderSpace :: "http_request \<Rightarrow> read_result \<times> nat" where
  "readHeaderSpace r =
     (let i = scan (\<lambda>c. c = CHR '':'' \<or> c = SP) (rq_data r) (rq_cur r)
      in if i < rq_size r
         then if rq_data r ! i = CR \<or> rq_data r ! i = LF then (RR_invalid, 0)
              else (RR_ok, i - rq_cur r)
         else (RR_needMoreData, 0))"

definition readHeaderValue :: "http_request \<Rightarrow> read_result \<times> nat" where
  "readHeaderValue r =
     (let i = scan (\<lambda>c. \<not> is_break c) (rq_data r) (rq_cur r)
      in if i < rq_size r then (RR_ok, i - rq_cur r) else (RR_needMoreData, 0))"

definition readHeaderLineBreak :: "http_request \<Rightarrow> read_result \<times> nat" where
  "readHeaderLineBreak r =
     (let i = scan is_break (rq_data r) (rq_cur r)
      in if lineBreakCounter (rq_data r) (rq_cur r) i > 1 then (RR_endOfHeaders, i - rq_cur r)
         else if i = rq_size r then (RR_needMoreData, 0)
         else (RR_ok, i - rq_cur r))"

section \<open>The parser's loop\<close>

text \<open>The value that a finished \<open>Content-Length\<close> header contributes, through a 31 byte buffer.\<close>

definition BUF_CHARS :: nat where "BUF_CHARS = 30"

definition content_length_of :: "string \<Rightarrow> field \<Rightarrow> int" where
  "content_length_of d v = atoi (cstr (mem_read (fld_start v) (fld_length v) d))"

text \<open>
  The last states of the loop below, as functions of their own. A header is recorded, a \<open>Content-Length\<close>
  is read from it; the line break after it ends the headers if it is a double one; the content is complete when its
  bytes have been received.
\<close>

definition headerValue_step :: "http_request \<Rightarrow> http_request + parse_result \<times> http_request" where
  "headerValue_step r =
     (case readHeaderValue r of (result, len) \<Rightarrow>
        if result = RR_ok
        then
          let h = \<lparr>hdr_key = rq_curKey r, hdr_value = \<lparr>fld_start = rq_cur r, fld_length = len\<rparr>\<rparr>;
              r1 = r\<lparr>rq_headers := rq_headers r @ [h]\<rparr>;
              isLength = strncasecmp_eq ''Content-Length''
                (drop (fld_start (hdr_key h)) (rq_data r1)) (fld_length (hdr_key h))
          in if isLength \<and> fld_length (hdr_value h) > BUF_CHARS then Inr (PR_finishInvalid, r1)
             else
               let r2 = (if isLength
                         then r1\<lparr>rq_contentLength := content_length_of (rq_data r1) (hdr_value h)\<rparr>
                         else r1)
               in Inl (r2\<lparr>rq_cur := rq_cur r2 + len, rq_state := S_headerLineBreak\<rparr>)
        else if result = RR_needMoreData then Inr (PR_needMoreData, r)
        else Inr (PR_finishInvalid, r))"

definition headerLineBreak_step :: "http_request \<Rightarrow> http_request + parse_result \<times> http_request" where
  "headerLineBreak_step r =
     (case readHeaderLineBreak r of (result, len) \<Rightarrow>
        if result = RR_ok then Inl (r\<lparr>rq_cur := rq_cur r + len, rq_state := S_headerKey\<rparr>)
        else if result = RR_endOfHeaders
        then if rq_contentLength r = 0
             then Inr (PR_finishOk, r\<lparr>rq_state := S_finishOk\<rparr>)
             else Inl (r\<lparr>rq_cur := rq_cur r + len, rq_state := S_content\<rparr>)
        else if result = RR_needMoreData then Inr (PR_needMoreData, r)
        else Inr (PR_finishInvalid, r))"

definition content_step :: "http_request \<Rightarrow> http_request + parse_result \<times> http_request" where
  "content_step r =
     (if int (rq_size r) - int (rq_cur r) \<ge> rq_contentLength r
      then Inr (PR_finishOk, r\<lparr>rq_contentStart := rq_cur r, rq_state := S_finishOk\<rparr>)
      else Inr (PR_needMoreData, r))"

text \<open>
  One iteration of \<open>while(true) { switch(state) ... }\<close> in \<open>parseInternal\<close>: \<open>Inl\<close> goes round
  the loop, \<open>Inr\<close> is a \<open>return\<close>. Note \<open>S_urlParameters\<close>: unlike every other state it has no
  branch for a reader that asks for more data, and goes round unchanged.
\<close>

definition parse_step :: "http_request \<Rightarrow> http_request + parse_result \<times> http_request" where
  "parse_step r =
     (case rq_state r of
        S_method \<Rightarrow>
          (case readMethod r of (result, len) \<Rightarrow>
             if result = RR_ok
             then Inl (r\<lparr>rq_methodStart := rq_cur r, rq_methodLength := len,
                         rq_cur := rq_cur r + len, rq_state := S_spaceAfterMethod\<rparr>)
             else if result = RR_needMoreData then Inr (PR_needMoreData, r)
             else Inr (PR_finishInvalid, r))
      | S_spaceAfterMethod \<Rightarrow>
          (case readSpaces r of (result, len) \<Rightarrow>
             if result = RR_ok then Inl (r\<lparr>rq_cur := rq_cur r + len, rq_state := S_url\<rparr>)
             else if result = RR_needMoreData then Inr (PR_needMoreData, r)
             else Inr (PR_finishInvalid, r))
      | S_url \<Rightarrow>
          (case readUrl r of (result, len) \<Rightarrow>
             if result = RR_ok \<or> result = RR_question
             then Inl (r\<lparr>rq_urlStart := rq_cur r, rq_urlLength := len, rq_cur := rq_cur r + len,
                         rq_state := (if result = RR_ok then S_spaceAfterUrl else S_urlParameters)\<rparr>)
             else if result = RR_needMoreData then Inr (PR_needMoreData, r)
             else Inr (PR_finishInvalid, r))
      | S_urlParameters \<Rightarrow>
          (case readUrlParameters r of (result, len) \<Rightarrow>
             if result = RR_ok
             then Inl (r\<lparr>rq_urlParametersStart := rq_cur r, rq_urlParametersLength := len,
                         rq_cur := rq_cur r + len, rq_state := S_spaceAfterUrl\<rparr>)
             else Inl r)
      | S_spaceAfterUrl \<Rightarrow>
          (case readToNextLine r of (result, len) \<Rightarrow>
             if result = RR_ok then Inl (r\<lparr>rq_cur := rq_cur r + len, rq_state := S_headerKey\<rparr>)
             else if result = RR_needMoreData then Inr (PR_needMoreData, r)
             else Inr (PR_finishInvalid, r))
      | S_headerKey \<Rightarrow>
          (case readHeaderKey r of (result, len) \<Rightarrow>
             if result = RR_ok
             then Inl (r\<lparr>rq_curKey := \<lparr>fld_start = rq_cur r, fld_length = len\<rparr>,
                         rq_cur := rq_cur r + len, rq_state := S_headerSpace\<rparr>)
             else if result = RR_needMoreData then Inr (PR_needMoreData, r)
             else Inr (PR_finishInvalid, r))
      | S_headerSpace \<Rightarrow>
          (case readHeaderSpace r of (result, len) \<Rightarrow>
             if result = RR_ok then Inl (r\<lparr>rq_cur := rq_cur r + len, rq_state := S_headerValue\<rparr>)
             else if result = RR_needMoreData then Inr (PR_needMoreData, r)
             else Inr (PR_finishInvalid, r))
      | S_headerValue \<Rightarrow> headerValue_step r
      | S_headerLineBreak \<Rightarrow> headerLineBreak_step r
      | S_content \<Rightarrow> content_step r
      | S_finishOk \<Rightarrow> Inr (PR_finishOk, r)
      | S_invalid \<Rightarrow> Inr (PR_finishInvalid, r))"

lemmas parse_step_defs = parse_step_def headerValue_step_def headerLineBreak_step_def content_step_def

text \<open>\<open>None\<close> is a call that does not return.\<close>

partial_function (option) parseInternal :: "http_request \<Rightarrow> (parse_result \<times> http_request) option" where
  "parseInternal r =
     (case parse_step r of Inl r' \<Rightarrow> parseInternal r' | Inr res \<Rightarrow> Some res)"

declare parseInternal.simps [code]

section \<open>The URL\<close>

definition hex2int :: "char \<Rightarrow> int" where
  "hex2int c =
     (if CHR ''0'' \<le> c \<and> c \<le> CHR ''9'' then of_char c - of_char (CHR ''0'')
      else
        let c' = (char_of (((of_char c) :: nat) OR 0x20) :: char)
        in if CHR ''a'' \<le> c' \<and> c' \<le> CHR ''f'' then of_char c' - of_char (CHR ''a'') + 0xA
           else -1)"

text \<open>
  \<open>src\<close> and \<open>dst\<close> are memory areas, \<open>si\<close> and \<open>di\<close> the two running indices. The result is the
  returned code with the destination as the loop leaves it.
\<close>

function percentDecode_loop :: "string \<Rightarrow> nat \<Rightarrow> nat \<Rightarrow> nat \<Rightarrow> string \<Rightarrow> int \<times> string" where
  "percentDecode_loop src srcLength si di dst =
     (if si < srcLength \<and> src ! si \<noteq> NUL
      then if src ! si = CHR ''%'' \<and> si + 2 < srcLength
           then let v1 = hex2int (src ! (si + 1))
                in if v1 < 0 then (-1, dst)
                   else let v2 = hex2int (src ! (si + 2))
                        in if v2 < 0 then (-1, dst)
                           else percentDecode_loop src srcLength (si + 3) (di + 1)
                                  (dst[di := char_of (push_bit 4 (nat v1) OR nat v2)])
           else percentDecode_loop src srcLength (si + 1) (di + 1) (dst[di := src ! si])
      else (0, dst[di := NUL]))"
  by pat_completeness auto
termination
  by (relation "measure (\<lambda>(src, n, si, di, dst). n - si)") auto

declare percentDecode_loop.simps [simp del]

definition percentDecode :: "string \<Rightarrow> string \<Rightarrow> nat \<Rightarrow> int \<times> string" where
  "percentDecode src dst srcLength = percentDecode_loop src srcLength 0 0 dst"

text \<open>The memory at \<open>urlBuffer\<close>.\<close>

definition urlBuffer_mem :: "http_request \<Rightarrow> string" where
  "urlBuffer_mem r = (case rq_urlBuffer r of None \<Rightarrow> [] | Some b \<Rightarrow> b)"

text \<open>
  \<open>new char[urlLength + 1]\<close> has indeterminate bytes, zero here: \<open>percentDecode\<close> terminates
  what it wrote and the URL is read as a C string.
\<close>

definition decodeUrl :: "http_request \<Rightarrow> int \<times> http_request" where
  "decodeUrl r =
     (if rq_state r \<noteq> S_finishOk then (-1, r)
      else if rq_urlLength r > 0
      then
        let r1 = (if rq_urlBufferSize r < rq_urlLength r + 1
                  then r\<lparr>rq_urlBuffer := Some (replicate (rq_urlLength r + 1) NUL),
                         rq_urlBufferSize := rq_urlLength r + 1\<rparr>
                  else r);
            (code, dst) = percentDecode (drop (rq_urlStart r1) (rq_data r1))
                            (urlBuffer_mem r1) (rq_urlLength r1);
            r2 = r1\<lparr>rq_urlBuffer := map_option (\<lambda>_. dst) (rq_urlBuffer r1)\<rparr>
        in if code \<noteq> 0 then (-1, r2) else (0, r2)
      else (-1, r))"

text \<open>The loop of \<open>checkUrl\<close> runs over the buffer as a C string.\<close>

fun checkUrl_loop :: "char \<Rightarrow> string \<Rightarrow> int" where
  "checkUrl_loop prevChar [] = 0"
| "checkUrl_loop prevChar (c # cs) =
     (if c = NUL then 0
      else if \<not> checkUrlSymbols c then -1
      else if c = CHR ''.'' \<and> c = prevChar then -1
      else checkUrl_loop c cs)"

definition checkUrl :: "http_request \<Rightarrow> int" where
  "checkUrl r = checkUrl_loop NUL (urlBuffer_mem r)"

definition postParse :: "http_request \<Rightarrow> parse_result \<times> http_request" where
  "postParse r =
     (case decodeUrl r of (code, r1) \<Rightarrow>
        if code \<noteq> 0 then (PR_finishInvalid, r1\<lparr>rq_state := S_invalid\<rparr>)
        else if checkUrl r1 \<noteq> 0 then (PR_finishInvalid, r1\<lparr>rq_state := S_invalid\<rparr>)
        else (PR_finishOk, r1))"

definition parse :: "string \<Rightarrow> http_request \<Rightarrow> (parse_result \<times> http_request) option" where
  "parse data r =
     Option.bind (parseInternal (r\<lparr>rq_data := data\<rparr>)) (\<lambda>(result, r1).
       if result \<noteq> PR_finishOk then Some (result, r1) else Some (postParse r1))"

definition getUrl :: "http_request \<Rightarrow> string option" where
  "getUrl r = (if rq_state r \<noteq> S_finishOk then None else map_option cstr (rq_urlBuffer r))"

section \<open>Queries on a parsed request\<close>

text \<open>The header search returns the position and size of the value, \<open>None\<close> for \<open>-1\<close>.\<close>

fun find_header :: "string \<Rightarrow> string \<Rightarrow> header list \<Rightarrow> field option" where
  "find_header d key [] = None"
| "find_header d key (h # hs) =
     (if strncasecmp_eq key (drop (fld_start (hdr_key h)) d) (fld_length (hdr_key h))
      then Some (hdr_value h) else find_header d key hs)"

definition getHeaderValue :: "http_request \<Rightarrow> string \<Rightarrow> field option" where
  "getHeaderValue r key =
     (if rq_state r \<noteq> S_finishOk then None else find_header (rq_data r) key (rq_headers r))"

text \<open>
  \<open>strptime\<close> followed by \<open>timegm\<close> is the parameter \<open>http_time\<close>: the time of a date in the
  format \<open>RFC1123FMT\<close>, \<open>None\<close> where \<open>strptime\<close> fails.
\<close>

definition getIfModifiedSince :: "(string \<Rightarrow> int option) \<Rightarrow> http_request \<Rightarrow> int" where
  "getIfModifiedSince http_time r =
     (case getHeaderValue r ''If-Modified-Since'' of
        None \<Rightarrow> 0
      | Some v \<Rightarrow>
          if fld_length v > 100 then 0
          else (case http_time (cstr (mem_read (fld_start v) (fld_length v) (rq_data r))) of
                  None \<Rightarrow> 0 | Some t \<Rightarrow> t))"

function prefix_loop :: "string \<Rightarrow> string \<Rightarrow> nat \<Rightarrow> nat \<Rightarrow> nat \<times> nat" where
  "prefix_loop u p ui pi =
     (if cstr_at u ui \<noteq> NUL \<and> cstr_at p pi \<noteq> NUL \<and> cstr_at u ui = cstr_at p pi
      then prefix_loop u p (ui + 1) (pi + 1) else (ui, pi))"
  by pat_completeness auto
termination
  by (relation "measure (\<lambda>(u, p, ui, pi). length u - ui)") (auto simp: cstr_at_def split: if_splits)

declare prefix_loop.simps [simp del]

text \<open>\<open>isUrlPrefix\<close> on the two C strings, then on the request.\<close>

definition url_has_prefix :: "string \<Rightarrow> string \<Rightarrow> bool" where
  "url_has_prefix u p =
     (let (ui, pi) = prefix_loop u p (scan (\<lambda>c. c = CHR ''/'') u 0) (scan (\<lambda>c. c = CHR ''/'') p 0)
      in if cstr_at p pi = NUL
         then if cstr_at u ui = CHR ''/'' \<or> cstr_at u ui = NUL then True
              else pi > 0 \<and> ui > 0 \<and> cstr_at p (pi - 1) = CHR ''/'' \<and> cstr_at u (ui - 1) = CHR ''/''
         else if cstr_at p pi = CHR ''/'' then cstr_at u ui = NUL
         else False)"

definition isUrlPrefix :: "http_request \<Rightarrow> string \<Rightarrow> bool" where
  "isUrlPrefix r pre =
     (if rq_state r \<noteq> S_finishOk then False
      else url_has_prefix (cstr (urlBuffer_mem r)) pre)"

end
