(* ===== verification/TransferArea.thy ===== *)
theory TransferArea
  imports Prelude
begin

text \<open>
  The protocol that \<open>TransferRingBuffer\<close> and \<open>TransferBuffer\<close> share: a writer asks for a
  free contiguous region (\<open>startWrite\<close>), fills part of it through the pointer and commits
  the bytes (\<open>endWrite\<close>); a reader asks for a readable region (\<open>startRead\<close>) and releases
  the bytes it consumed (\<open>endRead\<close>). The executors drive their sockets with it, the log
  writer its mapped file.

  An out parameter \<open>data\<close> is the offset of the pointer in the buffer's memory. A call that
  returns before it assigns its out parameters leaves them unset; the model gives 0, which
  no caller reads, since each tests the returned flag first.
\<close>

type_synonym region = "bool \<times> nat \<times> nat"  \<comment> \<open>returned flag, \<open>data\<close>, \<open>size\<close>\<close>

section \<open>One write cycle and one read cycle of a client\<close>

text \<open>
  \<open>area_put\<close> is a client that has the bytes \<open>bs\<close> to give (a socket with pending input):
  it opens a region, stores as much as fits and commits it. \<open>area_get\<close> is a client whose
  sink takes at most \<open>n\<close> bytes.
\<close>

definition area_put ::
    "('q \<Rightarrow> region \<times> 'q) \<Rightarrow> (nat \<Rightarrow> string \<Rightarrow> 'q \<Rightarrow> 'q) \<Rightarrow> (nat \<Rightarrow> 'q \<Rightarrow> 'q) \<Rightarrow> string \<Rightarrow> 'q \<Rightarrow> nat \<times> 'q" where
  "area_put startWrite store endWrite bs q =
     (case startWrite q of ((ok, p, n), q') \<Rightarrow>
        if ok then (length (take n bs), endWrite (length (take n bs)) (store p (take n bs) q'))
        else (0, q'))"

definition area_get ::
    "('q \<Rightarrow> region) \<Rightarrow> ('q \<Rightarrow> string) \<Rightarrow> (nat \<Rightarrow> 'q \<Rightarrow> 'q) \<Rightarrow> nat \<Rightarrow> 'q \<Rightarrow> string \<times> 'q" where
  "area_get startRead mem endRead k q =
     (case startRead q of (ok, p, n) \<Rightarrow>
        if ok then (mem_read p (min k n) (mem q), endRead (min k n) q) else ([], q))"

datatype area_op = Put string | Get nat

text \<open>A run of cycles, with all bytes that were taken from the sources and all that were given out.\<close>

fun area_run :: "(string \<Rightarrow> 'q \<Rightarrow> nat \<times> 'q) \<Rightarrow> (nat \<Rightarrow> 'q \<Rightarrow> string \<times> 'q) \<Rightarrow> area_op list \<Rightarrow> 'q \<Rightarrow> string \<times> string \<times> 'q" where
  "area_run put get [] q = ([], [], q)"
| "area_run put get (Put bs # ops) q =
     (case put bs q of (k, q1) \<Rightarrow>
      case area_run put get ops q1 of (taken, given, q2) \<Rightarrow> (take k bs @ taken, given, q2))"
| "area_run put get (Get n # ops) q =
     (case get n q of (out, q1) \<Rightarrow>
      case area_run put get ops q1 of (taken, given, q2) \<Rightarrow> (taken, out @ given, q2))"

section \<open>The interface\<close>

locale transfer_area =
  fixes startWrite :: "'q \<Rightarrow> region \<times> 'q"
    and endWrite :: "nat \<Rightarrow> 'q \<Rightarrow> 'q"
    and startRead :: "'q \<Rightarrow> region"
    and endRead :: "nat \<Rightarrow> 'q \<Rightarrow> 'q"
    and store :: "nat \<Rightarrow> string \<Rightarrow> 'q \<Rightarrow> 'q"
    and mem :: "'q \<Rightarrow> string"
    and content :: "'q \<Rightarrow> string"
    and inv :: "'q \<Rightarrow> bool"
  assumes startWrite_inv: "inv q \<Longrightarrow> startWrite q = (reg, q') \<Longrightarrow> inv q' \<and> content q' = content q"
    and startWrite_region: "inv q \<Longrightarrow> startWrite q = ((True, p, n), q') \<Longrightarrow> 0 < n \<and> p + n \<le> length (mem q')"
    and write_bytes: "inv q \<Longrightarrow> startWrite q = ((True, p, n), q') \<Longrightarrow> length bs \<le> n \<Longrightarrow>
        inv (endWrite (length bs) (store p bs q'))
        \<and> content (endWrite (length bs) (store p bs q')) = content q @ bs"
    and startRead_ok: "inv q \<Longrightarrow> startRead q = (ok, p, n) \<Longrightarrow> ok = (content q \<noteq> []) \<and> ok = (0 < n)"
    and startRead_region: "inv q \<Longrightarrow> startRead q = (True, p, n) \<Longrightarrow>
        p + n \<le> length (mem q) \<and> n \<le> length (content q) \<and> mem_read p n (mem q) = take n (content q)"
    and read_bytes: "inv q \<Longrightarrow> startRead q = (True, p, n) \<Longrightarrow> k \<le> n \<Longrightarrow>
        inv (endRead k q) \<and> content (endRead k q) = drop k (content q)"
begin

lemma put_law:
  assumes "inv q" "area_put startWrite store endWrite bs q = (k, q')"
  shows "inv q'" "content q' = content q @ take k bs" "k \<le> length bs"
proof -
  obtain ok p n q1 where sw: "startWrite q = ((ok, p, n), q1)" by (metis prod.exhaust)
  show "inv q'" "content q' = content q @ take k bs" "k \<le> length bs"
  proof (atomize (full), cases ok)
    case True
    with sw assms(2) have k: "k = length (take n bs)"
      and q': "q' = endWrite (length (take n bs)) (store p (take n bs) q1)"
      by (auto simp: area_put_def)
    moreover have "length (take n bs) \<le> n" by simp
    moreover have "take k bs = take n bs" using k by (simp add: min_def)
    ultimately show "inv q' \<and> content q' = content q @ take k bs \<and> k \<le> length bs"
      using write_bytes [of q p n q1 "take n bs"] assms(1) sw True by simp
  next
    case False
    with sw assms show "inv q' \<and> content q' = content q @ take k bs \<and> k \<le> length bs"
      using startWrite_inv by (auto simp: area_put_def)
  qed
qed

lemma get_law:
  assumes "inv q" "area_get startRead mem endRead n q = (out, q')"
  shows "inv q'" "content q = out @ content q'" "length out \<le> n"
proof -
  obtain ok p m where sr: "startRead q = (ok, p, m)" by (metis prod.exhaust)
  show "inv q'" "content q = out @ content q'" "length out \<le> n"
  proof (atomize (full), cases ok)
    case True
    with sr assms(2) have out: "out = mem_read p (min n m) (mem q)"
      and q': "q' = endRead (min n m) q" by (auto simp: area_get_def)
    have "mem_read p m (mem q) = take m (content q)"
      using startRead_region [OF assms(1), of p m] sr True by simp
    then have "take (min n m) (mem_read p m (mem q)) = take (min n m) (take m (content q))"
      by simp
    then have "out = take (min n m) (content q)" by (simp add: out mem_read_def)
    then show "inv q' \<and> content q = out @ content q' \<and> length out \<le> n"
      using read_bytes [OF assms(1), of p m "min n m"] sr True q' by simp
  next
    case False
    with sr assms show "inv q' \<and> content q = out @ content q' \<and> length out \<le> n"
      by (auto simp: area_get_def)
  qed
qed

text \<open>Nothing is lost, duplicated or reordered over any run of cycles.\<close>

lemma run_fifo:
  "inv q \<Longrightarrow> area_run (area_put startWrite store endWrite) (area_get startRead mem endRead) ops q
     = (taken, given, q') \<Longrightarrow> inv q' \<and> content q @ taken = given @ content q'"
proof (induction ops arbitrary: q taken given q')
  case Nil
  then show ?case by simp
next
  case (Cons a ops)
  show ?case
  proof (cases a)
    case (Put bs)
    obtain k q1 where p: "area_put startWrite store endWrite bs q = (k, q1)" by fastforce
    obtain t g q2 where r: "area_run (area_put startWrite store endWrite)
        (area_get startRead mem endRead) ops q1 = (t, g, q2)" by (metis prod.exhaust)
    have "inv q2 \<and> content q1 @ t = g @ content q2"
      using Cons.IH [OF put_law(1) [OF Cons.prems(1) p] r] by (simp add: r)
    with Cons.prems Put p r show ?thesis
      using put_law [OF Cons.prems(1) p] by auto

  next
    case (Get n)
    obtain o1 q1 where g: "area_get startRead mem endRead n q = (o1, q1)" by fastforce
    obtain t o2 q2 where r: "area_run (area_put startWrite store endWrite)
        (area_get startRead mem endRead) ops q1 = (t, o2, q2)" by (metis prod.exhaust)
    have "inv q2 \<and> content q1 @ t = o2 @ content q2"
      using Cons.IH [OF get_law(1) [OF Cons.prems(1) g] r] by (simp add: r)
    with Cons.prems Get g r show ?thesis
      using get_law [OF Cons.prems(1) g] by auto
  qed
qed

end

end
