(* ===== verification/TransferRingBuffer.thy ===== *)
theory TransferRingBuffer
  imports TransferArea
begin

text \<open>
  \<open>src/utils/TransferRingBuffer.h\<close>: the ring buffer each connection keeps for its request,
  its response headers and the bytes it forwards. The heads are offsets below
  \<open>REQUEST_BUFFER_SIZE\<close>, far from the bounds of \<open>int\<close>, and are \<open>nat\<close> here.
\<close>

record ring =
  rb_buf :: string
  rb_readHead :: nat
  rb_writeHead :: nat
  rb_bufSize :: nat

text \<open>The default constructor: no memory (\<open>buf = nullptr\<close>), all heads zero.\<close>

definition rb_empty :: ring where
  "rb_empty = \<lparr>rb_buf = [], rb_readHead = 0, rb_writeHead = 0, rb_bufSize = 0\<rparr>"

text \<open>
  \<open>new char[newSize]\<close> has indeterminate bytes; they are zero here and never readable before
  a write (\<open>rb_content\<close> of a fresh buffer is empty).
\<close>

definition rb_init :: "nat \<Rightarrow> ring \<Rightarrow> ring" where
  "rb_init newSize r =
     (let r1 = (if newSize \<noteq> rb_bufSize r
                then r\<lparr>rb_bufSize := newSize, rb_buf := replicate newSize NUL\<rparr> else r)
      in r1\<lparr>rb_writeHead := 0, rb_readHead := 0\<rparr>)"

definition rb_clear :: "ring \<Rightarrow> ring" where
  "rb_clear r = r\<lparr>rb_writeHead := 0, rb_readHead := 0\<rparr>"

definition rb_startWrite :: "ring \<Rightarrow> region \<times> ring" where
  "rb_startWrite r =
     (if rb_writeHead r = rb_bufSize r \<and> rb_readHead r = 0 then ((False, 0, 0), r)
      else
        let r1 = (if rb_writeHead r = rb_bufSize r then r\<lparr>rb_writeHead := 0\<rparr> else r);
            size = (if rb_writeHead r1 \<ge> rb_readHead r1 then rb_bufSize r1 - rb_writeHead r1
                    else rb_readHead r1 - rb_writeHead r1 - 1)
        in ((size > 0, rb_writeHead r1, size), r1))"

definition rb_endWrite :: "nat \<Rightarrow> ring \<Rightarrow> ring" where
  "rb_endWrite n r = r\<lparr>rb_writeHead := rb_writeHead r + n\<rparr>"

definition rb_startRead :: "ring \<Rightarrow> region" where
  "rb_startRead r =
     (let size = (if rb_readHead r < rb_writeHead r then rb_writeHead r - rb_readHead r
                  else if rb_readHead r > rb_writeHead r then rb_bufSize r - rb_readHead r
                  else 0)
      in (size > 0, rb_readHead r, size))"

definition rb_endRead :: "nat \<Rightarrow> ring \<Rightarrow> ring" where
  "rb_endRead n r =
     (let r1 = r\<lparr>rb_readHead := rb_readHead r + n\<rparr>
      in if rb_readHead r1 = rb_bufSize r1
         then (let r2 = r1\<lparr>rb_readHead := 0\<rparr>
               in if rb_writeHead r2 = rb_bufSize r2 then r2\<lparr>rb_writeHead := 0\<rparr> else r2)
         else r1)"

definition rb_readAvailable :: "ring \<Rightarrow> bool" where
  "rb_readAvailable r = fst (rb_startRead r)"

text \<open>Bytes stored through the pointer that \<open>startWrite\<close> handed out.\<close>

definition rb_store :: "nat \<Rightarrow> string \<Rightarrow> ring \<Rightarrow> ring" where
  "rb_store p bs r = r\<lparr>rb_buf := mem_write p bs (rb_buf r)\<rparr>"

lemmas rb_defs = rb_startWrite_def rb_endWrite_def rb_startRead_def rb_endRead_def rb_store_def

section \<open>The queue of bytes a ring stands for\<close>

definition rb_content :: "ring \<Rightarrow> string" where
  "rb_content r =
     (if rb_readHead r \<le> rb_writeHead r
      then mem_read (rb_readHead r) (rb_writeHead r - rb_readHead r) (rb_buf r)
      else drop (rb_readHead r) (rb_buf r) @ take (rb_writeHead r) (rb_buf r))"

definition rb_inv :: "ring \<Rightarrow> bool" where
  "rb_inv r \<longleftrightarrow> length (rb_buf r) = rb_bufSize r \<and> rb_writeHead r \<le> rb_bufSize r
     \<and> (rb_readHead r = 0 \<or> rb_readHead r < rb_bufSize r)"

lemma rb_inv_empty: "rb_inv rb_empty"
  by (simp add: rb_inv_def rb_empty_def)

lemma rb_init_inv: "rb_inv r \<Longrightarrow> rb_inv (rb_init n r)"
  by (simp add: rb_inv_def rb_init_def Let_def)

lemma rb_clear_inv: "rb_inv r \<Longrightarrow> rb_inv (rb_clear r)"
  by (simp add: rb_inv_def rb_clear_def)

lemma rb_init_content [simp]: "rb_content (rb_init n r) = []"
  by (simp add: rb_content_def rb_init_def Let_def mem_read_def)

lemma rb_init_bufSize [simp]: "rb_bufSize (rb_init n r) = n"
  by (simp add: rb_init_def Let_def)

lemma rb_clear_content [simp]: "rb_content (rb_clear r) = []"
  by (simp add: rb_content_def rb_clear_def mem_read_def)

lemma rb_content_length: "rb_inv r \<Longrightarrow> length (rb_content r) \<le> rb_bufSize r"
  by (auto simp: rb_content_def rb_inv_def)

lemma rb_startWrite_inv:
  "rb_inv r \<Longrightarrow> rb_startWrite r = (reg, r') \<Longrightarrow> rb_inv r' \<and> rb_content r' = rb_content r"
  by (auto simp: rb_startWrite_def rb_inv_def rb_content_def Let_def mem_read_def split: if_splits)

lemma rb_startWrite_region:
  "rb_inv r \<Longrightarrow> rb_startWrite r = ((True, p, n), r') \<Longrightarrow> 0 < n \<and> p + n \<le> length (rb_buf r')"
  by (auto simp: rb_startWrite_def rb_inv_def Let_def split: if_splits)

lemma rb_write:
  assumes "rb_inv r" "rb_startWrite r = ((True, p, n), r1)" "length bs \<le> n"
  shows "rb_inv (rb_endWrite (length bs) (rb_store p bs r1))
    \<and> rb_content (rb_endWrite (length bs) (rb_store p bs r1)) = rb_content r @ bs"
proof -
  have r1: "rb_inv r1" "rb_content r1 = rb_content r"
    using rb_startWrite_inv [OF assms(1,2)] by simp_all
  have p: "p = rb_writeHead r1" and n: "p + n \<le> length (rb_buf r1)"
    and below: "rb_writeHead r1 < rb_readHead r1 \<Longrightarrow> p + n < rb_readHead r1"
    using assms(2) rb_startWrite_region [OF assms(1,2)]
    by (auto simp: rb_startWrite_def Let_def split: if_splits)
  show ?thesis
    using r1 p n below assms(3) unfolding r1(2) [symmetric]
    by (auto simp: rb_inv_def rb_content_def rb_endWrite_def rb_store_def mem_read_def
        mem_write_def drop_take)
qed

lemma rb_startRead_ok:
  "rb_inv r \<Longrightarrow> rb_startRead r = (ok, p, n) \<Longrightarrow> ok = (rb_content r \<noteq> []) \<and> ok = (0 < n)"
  by (auto simp: rb_startRead_def rb_inv_def rb_content_def mem_read_def split: if_splits)

lemma rb_startRead_region:
  "rb_inv r \<Longrightarrow> rb_startRead r = (True, p, n) \<Longrightarrow>
     p + n \<le> length (rb_buf r) \<and> n \<le> length (rb_content r)
     \<and> mem_read p n (rb_buf r) = take n (rb_content r)"
  by (auto simp: rb_startRead_def rb_inv_def rb_content_def mem_read_def split: if_splits)

lemma rb_read:
  "rb_inv r \<Longrightarrow> rb_startRead r = (True, p, n) \<Longrightarrow> k \<le> n \<Longrightarrow>
     rb_inv (rb_endRead k r) \<and> rb_content (rb_endRead k r) = drop k (rb_content r)"
  by (auto simp: rb_startRead_def rb_endRead_def Let_def rb_inv_def rb_content_def mem_read_def
      drop_take add.commute split: if_splits)

interpretation rb: transfer_area rb_startWrite rb_endWrite rb_startRead rb_endRead rb_store rb_buf
    rb_content rb_inv
  by (unfold_locales;
      (erule (1) rb_startWrite_inv rb_startWrite_region rb_startRead_ok rb_startRead_region
       | erule (2) rb_write rb_read))

section \<open>Properties\<close>

lemma rb_refused:
  "rb_inv r \<Longrightarrow> rb_startWrite r = ((False, p, n), r') \<Longrightarrow> rb_bufSize r \<le> length (rb_content r) + 1"
  by (auto simp: rb_startWrite_def rb_inv_def rb_content_def Let_def split: if_splits)

text \<open>
  C16: The ring buffer is a queue of bytes: over any sequence of write and read cycles, what was
  in it followed by the bytes it took equals the bytes it gave out followed by what is left.
\<close>

theorem ring_fifo:
  assumes "rb_inv q" "area_run (area_put rb_startWrite rb_store rb_endWrite)
      (area_get rb_startRead rb_buf rb_endRead) ops q = (taken, given, q')"
  shows "rb_inv q' \<and> rb_content q @ taken = given @ rb_content q'"
  using assms by (rule rb.run_fifo)

text \<open>A run of a ring of four bytes that wraps around.\<close>

lemma ring_fifo_witness:
  "rb_inv (rb_init 4 rb_empty) \<and>
   (case area_run (area_put rb_startWrite rb_store rb_endWrite) (area_get rb_startRead rb_buf rb_endRead)
      [Put ''abc'', Get 2, Put ''defg'', Put ''hi'', Get 9, Get 9] (rb_init 4 rb_empty) of
    (taken, given, q') \<Rightarrow> taken = ''abcdh'' \<and> given = ''abcdh'' \<and> taken = given @ rb_content q')"
proof -
  have i: "rb_inv (rb_init 4 rb_empty)" by (simp add: rb_init_inv rb_inv_empty)
  have "area_run (area_put rb_startWrite rb_store rb_endWrite) (area_get rb_startRead rb_buf rb_endRead)
      [Put ''abc'', Get 2, Put ''defg'', Put ''hi'', Get 9, Get 9] (rb_init 4 rb_empty)
    = (''abcdh'', ''abcdh'', \<lparr>rb_buf = ''hbcd'', rb_readHead = 1, rb_writeHead = 1, rb_bufSize = 4\<rparr>)"
    by code_simp
  with ring_fifo [OF i this] i show ?thesis by simp
qed

text \<open>
  A ring that refuses a write is full up to at most one byte, and one that accepts offers a
  region of its memory.
\<close>

theorem ring_region:
  assumes "rb_inv r" "rb_startWrite r = ((ok, p, n), r')"
  shows "rb_inv r' \<and> rb_content r' = rb_content r
    \<and> (if ok then 0 < n \<and> p + n \<le> rb_bufSize r else rb_bufSize r \<le> length (rb_content r) + 1)"
  using assms rb_startWrite_inv [OF assms] rb_startWrite_region [of r p n r'] rb_refused [of r p n r']
  by (cases ok) (auto simp: rb_startWrite_def rb_inv_def Let_def split: if_splits)

lemma ring_region_witness:
  "rb_startWrite (rb_endWrite 4 (rb_init 4 rb_empty)) = ((False, 0, 0), rb_endWrite 4 (rb_init 4 rb_empty))
   \<and> 4 \<le> length (rb_content (rb_endWrite 4 (rb_init 4 rb_empty))) + 1"
proof -
  have i: "rb_inv (rb_endWrite 4 (rb_init 4 rb_empty))" by code_simp
  have "rb_startWrite (rb_endWrite 4 (rb_init 4 rb_empty)) = ((False, 0, 0), rb_endWrite 4 (rb_init 4 rb_empty))"
    by code_simp
  with ring_region [OF i this] show ?thesis by (simp add: rb_endWrite_def)
qed

end
