(* ===== verification/BlockStorage.thy ===== *)
theory BlockStorage
  imports Prelude
begin

text \<open>
  \<open>src/utils/BlockStorage.h\<close>: the pool that owns all \<open>ExecutorData\<close> and \<open>PollData\<close> objects
  of a poll loop. Items are allocated in blocks of \<open>blockSize\<close>, linked through the intrusive
  \<open>blockStorageData\<close> pointers: a doubly linked list of used items and a free list that uses
  \<open>next\<close> only.

  An item is an address (\<open>nat\<close>), \<open>None\<close> is \<open>nullptr\<close>, and the two pointers of every item are
  the maps \<open>bs_next\<close> and \<open>bs_prev\<close>. A new block lies at \<open>bs_frontier\<close>, above every earlier
  block, which is what \<open>new\<close> guarantees (memory disjoint from all live objects).
\<close>

record block_storage =
  bs_next :: "nat \<Rightarrow> nat option"
  bs_prev :: "nat \<Rightarrow> nat option"
  bs_blocks :: "nat list"
  bs_freeListHead :: "nat option"
  bs_usedListHead :: "nat option"
  bs_frontier :: nat

definition bs_empty :: block_storage where
  "bs_empty = \<lparr>bs_next = (\<lambda>_. None), bs_prev = (\<lambda>_. None), bs_blocks = [],
     bs_freeListHead = None, bs_usedListHead = None, bs_frontier = 0\<rparr>"

text \<open>\<open>destroy\<close> deletes the blocks, newest first, and forgets both lists.\<close>

definition bs_destroy :: "block_storage \<Rightarrow> block_storage" where
  "bs_destroy s = s\<lparr>bs_blocks := [], bs_freeListHead := None, bs_usedListHead := None\<rparr>"

definition bs_allocateBlock :: "nat \<Rightarrow> block_storage \<Rightarrow> block_storage" where
  "bs_allocateBlock blockSize s =
     (let base = bs_frontier s;
          fresh = (\<lambda>m a. if base \<le> a \<and> a < base + blockSize then None else m a);
          nx0 = (fresh (bs_next s)) (base + (blockSize - 1) := None);
          nx1 = (if blockSize > 1
                 then fold (\<lambda>i nx. nx(base + i := Some (base + (i + 1)))) [0..<blockSize - 1] nx0
                 else nx0)
      in s\<lparr>bs_next := nx1, bs_prev := fresh (bs_prev s), bs_blocks := base # bs_blocks s,
           bs_freeListHead := Some base, bs_frontier := base + blockSize\<rparr>)"

definition bs_addToUsedList :: "nat \<Rightarrow> block_storage \<Rightarrow> block_storage" where
  "bs_addToUsedList newItem s =
     (let s1 = (case bs_usedListHead s of
                  None \<Rightarrow> s
                | Some h \<Rightarrow> s\<lparr>bs_prev := (bs_prev s)(h := Some newItem)\<rparr>)
      in s1\<lparr>bs_prev := (bs_prev s1)(newItem := None),
            bs_next := (bs_next s1)(newItem := bs_usedListHead s1),
            bs_usedListHead := Some newItem\<rparr>)"

definition bs_removeFromUsedList :: "nat \<Rightarrow> block_storage \<Rightarrow> block_storage" where
  "bs_removeFromUsedList item s =
     (let s1 = (if Some item = bs_usedListHead s
                then s\<lparr>bs_usedListHead := bs_next s item\<rparr> else s);
          s2 = (case bs_prev s1 item of
                  None \<Rightarrow> s1
                | Some p \<Rightarrow> s1\<lparr>bs_next := (bs_next s1)(p := bs_next s1 item)\<rparr>)
      in case bs_next s2 item of
           None \<Rightarrow> s2
         | Some n \<Rightarrow> s2\<lparr>bs_prev := (bs_prev s2)(n := bs_prev s2 item)\<rparr>)"

text \<open>
  \<open>allocate\<close> dereferences \<open>freeListHead\<close> after it made sure there is one; the branch
  \<open>None\<close> would be that null dereference, and \<open>bs_allocate_spec\<close> shows it is not taken.
\<close>

definition bs_allocate :: "nat \<Rightarrow> block_storage \<Rightarrow> nat option \<times> block_storage" where
  "bs_allocate blockSize s =
     (let s1 = (if bs_freeListHead s = None then bs_allocateBlock blockSize s else s)
      in case bs_freeListHead s1 of
           None \<Rightarrow> (None, s1)
         | Some result \<Rightarrow>
             (Some result,
              bs_addToUsedList result (s1\<lparr>bs_freeListHead := bs_next s1 result\<rparr>)))"

definition bs_free :: "nat \<Rightarrow> block_storage \<Rightarrow> block_storage" where
  "bs_free p s =
     (let s1 = bs_removeFromUsedList p s
      in s1\<lparr>bs_next := (bs_next s1)(p := bs_freeListHead s1), bs_freeListHead := Some p\<rparr>)"

definition bs_head :: "block_storage \<Rightarrow> nat option" where
  "bs_head s = bs_usedListHead s"

definition bs_next_item :: "block_storage \<Rightarrow> nat \<Rightarrow> nat option" where
  "bs_next_item s item = bs_next s item"

text \<open>The counting loop of \<open>getStorageInfo\<close>; \<open>None\<close> is a loop that does not end.\<close>

partial_function (option) bs_count :: "(nat \<Rightarrow> nat option) \<Rightarrow> nat option \<Rightarrow> nat \<Rightarrow> nat option" where
  "bs_count nx cur counter =
     (case cur of None \<Rightarrow> Some counter | Some a \<Rightarrow> bs_count nx (nx a) (counter + 1))"

definition bs_getStorageInfo :: "block_storage \<Rightarrow> nat option" where
  "bs_getStorageInfo s = bs_count (bs_next s) (bs_usedListHead s) 0"

declare bs_count.simps [code]

section \<open>Lists in the heap\<close>

fun linked :: "(nat \<Rightarrow> nat option) \<Rightarrow> nat option \<Rightarrow> nat list \<Rightarrow> bool" where
  "linked nx p [] \<longleftrightarrow> p = None"
| "linked nx p (a # as) \<longleftrightarrow> p = Some a \<and> linked nx (nx a) as"

text \<open>
  \<open>dseg nx pv q p as q' r\<close>: from \<open>p\<close>, whose predecessor is \<open>q\<close>, the \<open>next\<close> pointers run
  through \<open>as\<close> to \<open>r\<close>, whose predecessor is \<open>q'\<close>, and the \<open>prev\<close> pointers run back.
\<close>

fun dseg :: "(nat \<Rightarrow> nat option) \<Rightarrow> (nat \<Rightarrow> nat option) \<Rightarrow> nat option \<Rightarrow> nat option \<Rightarrow> nat list
    \<Rightarrow> nat option \<Rightarrow> nat option \<Rightarrow> bool" where
  "dseg nx pv q p [] q' r \<longleftrightarrow> p = r \<and> q = q'"
| "dseg nx pv q p (a # as) q' r \<longleftrightarrow> p = Some a \<and> pv a = q \<and> dseg nx pv (Some a) (nx a) as q' r"

lemma linked_upd [simp]: "a \<notin> set as \<Longrightarrow> linked (nx(a := v)) p as = linked nx p as"
  by (induction as arbitrary: p) auto

lemma dseg_upd [simp]:
  "a \<notin> set as \<Longrightarrow> dseg (nx(a := v)) pv q p as q' r = dseg nx pv q p as q' r"
  "a \<notin> set as \<Longrightarrow> dseg nx (pv(a := v)) q p as q' r = dseg nx pv q p as q' r"
  by (induction as arbitrary: p q) auto

lemma dseg_append:
  "dseg nx pv q p (xs @ ys) q' r
     \<longleftrightarrow> (\<exists>m mp. dseg nx pv q p xs mp m \<and> dseg nx pv mp m ys q' r)"
  by (induction xs arbitrary: p q) auto

lemma dseg_last: "dseg nx pv q p xs mp m \<Longrightarrow> mp = (if xs = [] then q else Some (last xs))"
  by (induction xs arbitrary: p q) auto

lemma dseg_unique: "dseg nx pv q p as q' None \<Longrightarrow> dseg nx pv q p bs q'' None \<Longrightarrow> as = bs"
proof (induction as arbitrary: p q bs)
  case Nil
  then show ?case by (cases bs) auto
next
  case (Cons a as)
  then show ?case by (cases bs) auto
qed

lemma dseg_cong:
  "(\<And>a. a \<in> set as \<Longrightarrow> nx a = nx' a) \<Longrightarrow> (\<And>a. a \<in> set as \<Longrightarrow> pv a = pv' a) \<Longrightarrow>
     dseg nx pv q p as q' r = dseg nx' pv' q p as q' r"
  by (induction as arbitrary: p q) auto

lemma dseg_Some_head: "dseg nx pv q (Some a) as q' None \<Longrightarrow> \<exists>as'. as = a # as'"
  by (cases as) auto

lemma dseg_None_head: "dseg nx pv q None as q' r \<Longrightarrow> as = []"
  by (cases as) auto

section \<open>Representation\<close>

definition bs_items :: "nat \<Rightarrow> block_storage \<Rightarrow> nat set" where
  "bs_items blockSize s = (\<Union>b \<in> set (bs_blocks s). {b..<b + blockSize})"

definition bs_rep :: "nat \<Rightarrow> block_storage \<Rightarrow> nat list \<Rightarrow> nat list \<Rightarrow> bool" where
  "bs_rep blockSize s used unused \<longleftrightarrow> 0 < blockSize
     \<and> (\<exists>l. dseg (bs_next s) (bs_prev s) None (bs_usedListHead s) used l None)
     \<and> linked (bs_next s) (bs_freeListHead s) unused
     \<and> distinct (used @ unused) \<and> set (used @ unused) = bs_items blockSize s
     \<and> (\<forall>b \<in> set (bs_blocks s). b + blockSize \<le> bs_frontier s)"

section \<open>Allocation\<close>

lemma fold_links:
  "fold (\<lambda>i nx. nx(base + i := Some (Suc (base + i)))) [0..<n] nx0 a
     = (if base \<le> a \<and> a < base + n then Some (Suc a) else nx0 a)"
  by (induction n) auto

lemma bs_allocateBlock_next:
  assumes "0 < bsz"
  shows "bs_next (bs_allocateBlock bsz s) a =
    (if bs_frontier s \<le> a \<and> a < bs_frontier s + (bsz - 1) then Some (a + 1)
     else if a = bs_frontier s + (bsz - 1) then None else bs_next s a)"
  using assms unfolding bs_allocateBlock_def Let_def
  by (auto simp: fold_links)

lemma bs_allocateBlock_prev:
  "a < bs_frontier s \<Longrightarrow> bs_prev (bs_allocateBlock bsz s) a = bs_prev s a"
  by (simp add: bs_allocateBlock_def Let_def)

lemma bs_allocateBlock_sel [simp]:
  "bs_freeListHead (bs_allocateBlock bsz s) = Some (bs_frontier s)"
  "bs_usedListHead (bs_allocateBlock bsz s) = bs_usedListHead s"
  "bs_blocks (bs_allocateBlock bsz s) = bs_frontier s # bs_blocks s"
  "bs_frontier (bs_allocateBlock bsz s) = bs_frontier s + bsz"
  by (simp_all add: bs_allocateBlock_def Let_def)

lemma linked_upto:
  assumes "\<And>a. b \<le> a \<Longrightarrow> a < b + n \<Longrightarrow> nx a = Some (a + 1)" "nx (b + n) = None"
  shows "linked nx (Some b) [b..<b + Suc n]"
  using assms
proof (induction n arbitrary: b)
  case 0
  then show ?case by simp
next
  case (Suc n)
  have "linked nx (Some (Suc b)) [Suc b..<Suc b + Suc n]"
    by (rule Suc.IH) (use Suc.prems in auto)
  moreover have "[b..<b + Suc (Suc n)] = b # [Suc b..<Suc b + Suc n]"
    by (simp only: upt_conv_Cons) simp
  ultimately show ?case using Suc.prems(1) [of b] by simp
qed

lemma bs_allocateBlock_rep:
  assumes "bs_rep bsz s us []"
  shows "bs_rep bsz (bs_allocateBlock bsz s) us [bs_frontier s..<bs_frontier s + bsz]"
proof -
  obtain l where l: "dseg (bs_next s) (bs_prev s) None (bs_usedListHead s) us l None"
    using assms by (auto simp: bs_rep_def)
  have bsz: "0 < bsz" and below: "\<And>a. a \<in> set us \<Longrightarrow> a < bs_frontier s"
    using assms by (fastforce simp: bs_rep_def bs_items_def)+
  have "dseg (bs_next (bs_allocateBlock bsz s)) (bs_prev (bs_allocateBlock bsz s)) None
      (bs_usedListHead s) us l None
    = dseg (bs_next s) (bs_prev s) None (bs_usedListHead s) us l None"
    using below by (intro dseg_cong) (force simp: bs_allocateBlock_next bsz bs_allocateBlock_prev)+
  moreover have "linked (bs_next (bs_allocateBlock bsz s)) (Some (bs_frontier s))
      [bs_frontier s..<bs_frontier s + bsz]"
    using linked_upto [of "bs_frontier s" "bsz - 1"] bsz by (simp add: bs_allocateBlock_next)
  ultimately show ?thesis
    using assms l below by (fastforce simp: bs_rep_def bs_items_def)
qed

lemma bs_addToUsedList_sel [simp]:
  "bs_freeListHead (bs_addToUsedList a s) = bs_freeListHead s"
  "bs_blocks (bs_addToUsedList a s) = bs_blocks s"
  "bs_frontier (bs_addToUsedList a s) = bs_frontier s"
  "bs_usedListHead (bs_addToUsedList a s) = Some a"
  "bs_next (bs_addToUsedList a s) = (bs_next s)(a := bs_usedListHead s)"
  by (simp_all add: bs_addToUsedList_def Let_def split: option.splits)

lemma bs_addToUsedList_dseg:
  assumes "dseg (bs_next s) (bs_prev s) None (bs_usedListHead s) us l None"
    and "a \<notin> set us" and "distinct us"
  shows "\<exists>l. dseg (bs_next (bs_addToUsedList a s)) (bs_prev (bs_addToUsedList a s)) None (Some a) (a # us) l None"
proof (cases us)
  case Nil
  with assms show ?thesis by (auto simp: bs_addToUsedList_def Let_def)
next
  case (Cons u us')
  with assms show ?thesis by (auto simp: bs_addToUsedList_def Let_def)
qed

lemma bs_allocate_rep:
  assumes "bs_rep bsz s us (a # fs)"
  shows "\<exists>s'. bs_allocate bsz s = (Some a, s') \<and> bs_rep bsz s' (a # us) fs"
proof -
  have h: "bs_freeListHead s = Some a" and fs: "linked (bs_next s) (bs_next s a) fs"
    using assms by (auto simp: bs_rep_def)
  let ?s1 = "s\<lparr>bs_freeListHead := bs_next s a\<rparr>"
  obtain l where l: "dseg (bs_next ?s1) (bs_prev ?s1) None (bs_usedListHead ?s1) us l None"
    using assms by (auto simp: bs_rep_def)
  have "bs_allocate bsz s = (Some a, bs_addToUsedList a ?s1)"
    by (simp add: bs_allocate_def h)
  moreover have "bs_rep bsz (bs_addToUsedList a ?s1) (a # us) fs"
    using assms fs bs_addToUsedList_dseg [OF l, of a]
    by (auto simp: bs_rep_def bs_items_def)
  ultimately show ?thesis by blast
qed

lemma bs_allocate_spec:
  assumes "bs_rep bsz s us fs"
  shows "\<exists>a s' fs'. bs_allocate bsz s = (Some a, s') \<and> a \<notin> set us \<and> bs_rep bsz s' (a # us) fs'
    \<and> (fs \<noteq> [] \<longrightarrow> fs = a # fs')"
proof (cases fs)
  case Nil
  have "0 < bsz" using assms by (simp add: bs_rep_def)
  then have "[bs_frontier s..<bs_frontier s + bsz] = bs_frontier s # [Suc (bs_frontier s)..<bs_frontier s + bsz]"
    by (simp add: upt_conv_Cons)
  then have r: "bs_rep bsz (bs_allocateBlock bsz s) us
      (bs_frontier s # [Suc (bs_frontier s)..<bs_frontier s + bsz])"
    using bs_allocateBlock_rep [of bsz s us] assms Nil by simp
  have "bs_allocate bsz s = bs_allocate bsz (bs_allocateBlock bsz s)"
    using assms Nil by (auto simp: bs_allocate_def bs_rep_def)
  moreover have "bs_frontier s \<notin> set us" using r by (simp add: bs_rep_def)
  ultimately show ?thesis
    using bs_allocate_rep [OF r] Nil by auto
next
  case (Cons a fs')
  then show ?thesis
    using bs_allocate_rep [of bsz s us a fs'] assms by (auto simp: bs_rep_def)
qed

section \<open>Release\<close>

lemma bs_removeFromUsedList_dseg:
  assumes d: "dseg (bs_next s) (bs_prev s) None (bs_usedListHead s) (xs @ a # ys) l None"
    and dist: "distinct (xs @ a # ys)"
  shows "\<exists>l'. dseg (bs_next (bs_removeFromUsedList a s)) (bs_prev (bs_removeFromUsedList a s)) None
           (bs_usedListHead (bs_removeFromUsedList a s)) (xs @ ys) l' None"
proof (cases xs rule: rev_cases)
  case Nil
  with d dist show ?thesis
    by (cases ys) (auto simp: bs_removeFromUsedList_def Let_def)
next
  case (snoc zs z)
  obtain mp where zs: "dseg (bs_next s) (bs_prev s) None (bs_usedListHead s) zs mp (Some z)"
    and z: "bs_prev s z = mp" "bs_next s z = Some a" "bs_prev s a = Some z"
    and ys: "dseg (bs_next s) (bs_prev s) (Some a) (bs_next s a) ys l None"
    using d by (auto simp: snoc dseg_append)
  have hd: "bs_usedListHead s \<noteq> Some a"
    using zs dist by (cases zs) (auto simp: snoc)
  show ?thesis
  proof (cases ys)
    case Nil
    with zs z ys hd dist show ?thesis
      by (auto simp: bs_removeFromUsedList_def snoc dseg_append)
  next
    case (Cons y ys')
    with ys have y: "bs_next s a = Some y" "bs_prev s y = Some a"
      "dseg (bs_next s) (bs_prev s) (Some y) (bs_next s y) ys' l None" by auto
    with zs z hd dist Cons show ?thesis
      by (auto simp: bs_removeFromUsedList_def snoc dseg_append)
  qed
qed

lemma dseg_prev:
  "dseg nx pv q p (xs @ a # ys) q' r \<Longrightarrow> pv a = (if xs = [] then q else Some (last xs))"
  by (auto simp: dseg_append dest: dseg_last)

lemma bs_removeFromUsedList_next:
  assumes "b \<notin> set us" "a \<in> set us"
    and d: "dseg (bs_next s) (bs_prev s) None (bs_usedListHead s) us l None"
  shows "bs_next (bs_removeFromUsedList a s) b = bs_next s b"
proof -
  obtain xs ys where us: "us = xs @ a # ys" using assms(2) by (auto simp: in_set_conv_decomp)
  have "bs_prev s a \<noteq> Some b"
    using dseg_prev [OF d [unfolded us]] assms(1) us by auto
  then show ?thesis
    by (auto simp: bs_removeFromUsedList_def Let_def split: option.splits)
qed

lemma bs_removeFromUsedList_sel [simp]:
  "bs_freeListHead (bs_removeFromUsedList a s) = bs_freeListHead s"
  "bs_blocks (bs_removeFromUsedList a s) = bs_blocks s"
  "bs_frontier (bs_removeFromUsedList a s) = bs_frontier s"
  by (simp_all add: bs_removeFromUsedList_def Let_def split: option.splits)


lemma linked_cong: "(\<And>a. a \<in> set as \<Longrightarrow> nx a = nx' a) \<Longrightarrow> linked nx p as = linked nx' p as"
  by (induction as arbitrary: p) auto

lemma bs_free_spec:
  assumes rep: "bs_rep bsz s us fs" and a: "a \<in> set us"
  shows "bs_rep bsz (bs_free a s) (remove1 a us) (a # fs)"
proof -
  obtain xs ys where us: "us = xs @ a # ys" "a \<notin> set xs"
    using split_list_first [OF a] by blast
  obtain l where l: "dseg (bs_next s) (bs_prev s) None (bs_usedListHead s) (xs @ a # ys) l None"
    using rep us by (auto simp: bs_rep_def)
  have dist: "distinct (xs @ a # ys)" using rep us by (auto simp: bs_rep_def)
  let ?t = "bs_removeFromUsedList a s"
  obtain l' where l': "dseg (bs_next ?t) (bs_prev ?t) None (bs_usedListHead ?t) (xs @ ys) l' None"
    using bs_removeFromUsedList_dseg [OF l dist] by blast
  have fs: "linked (bs_next ?t) (bs_freeListHead s) fs"
  proof -
    have "linked (bs_next ?t) (bs_freeListHead s) fs = linked (bs_next s) (bs_freeListHead s) fs"
      using rep us l by (intro linked_cong bs_removeFromUsedList_next [of _ us]) (auto simp: bs_rep_def)
    then show ?thesis using rep by (simp add: bs_rep_def)
  qed
  have dseg': "dseg (bs_next (bs_free a s)) (bs_prev (bs_free a s)) None (bs_usedListHead (bs_free a s)) (xs @ ys) l' None"
    using l' dist by (simp add: bs_free_def Let_def)
  have linked': "linked (bs_next (bs_free a s)) (bs_freeListHead (bs_free a s)) (a # fs)"
    using fs rep us by (simp add: bs_free_def Let_def bs_rep_def)
  have "remove1 a us = xs @ ys" using us by (simp add: remove1_append)
  moreover have "bs_items bsz (bs_free a s) = bs_items bsz s" "bs_blocks (bs_free a s) = bs_blocks s"
    "bs_frontier (bs_free a s) = bs_frontier s"
    by (simp_all add: bs_items_def bs_free_def Let_def)
  ultimately show ?thesis
    using rep us dseg' linked' by (auto simp: bs_rep_def)
qed

section \<open>Traversal\<close>

lemma bs_count_list:
  "dseg nx pv q p as q' None \<Longrightarrow> bs_count nx p n = Some (n + length as)"
proof (induction as arbitrary: p q n)
  case Nil
  then show ?case by (simp add: bs_count.simps)
next
  case (Cons a as)
  from Cons.prems have p: "p = Some a" and d: "dseg nx pv (Some a) (nx a) as q' None" by auto
  show ?case using Cons.IH [OF d, of "n + 1"] by (simp add: p bs_count.simps [of nx "Some a"])
qed

lemma bs_getStorageInfo_spec:
  assumes "bs_rep bsz s us fs"
  shows "bs_getStorageInfo s = Some (length us)"
proof -
  obtain l where "dseg (bs_next s) (bs_prev s) None (bs_usedListHead s) us l None"
    using assms by (auto simp: bs_rep_def)
  then show ?thesis
    using bs_count_list [of _ _ _ _ us _ 0] by (simp add: bs_getStorageInfo_def)
qed

lemma bs_rep_unique: "bs_rep bsz s us fs \<Longrightarrow> bs_rep bsz s us' fs' \<Longrightarrow> us = us'"
  by (auto simp: bs_rep_def dest: dseg_unique)

lemma bs_head_rep: "bs_rep bsz s us fs \<Longrightarrow> bs_head s = (case us of [] \<Rightarrow> None | a # _ \<Rightarrow> Some a)"
  by (cases us) (auto simp: bs_rep_def bs_head_def)

lemma bs_next_rep:
  "bs_rep bsz s (xs @ a # ys) fs \<Longrightarrow> bs_next_item s a = (case ys of [] \<Rightarrow> None | b # _ \<Rightarrow> Some b)"
  by (cases ys) (auto simp: bs_rep_def bs_next_item_def dseg_append)

lemma bs_empty_rep: "0 < bsz \<Longrightarrow> bs_rep bsz bs_empty [] []"
  by (simp add: bs_rep_def bs_empty_def bs_items_def)

lemma bs_destroy_rep: "0 < bsz \<Longrightarrow> bs_rep bsz (bs_destroy s) [] []"
  by (simp add: bs_rep_def bs_destroy_def bs_items_def)

section \<open>The interface of a pool of items\<close>

text \<open>
  What the poll loop relies on: an allocated item is not in use, the used items form a list
  with the newest first, a freed item leaves it and the others stay, and a traversal from
  \<open>head\<close> along \<open>next\<close> ends and visits each used item once.
  \<open>pool_walk\<close> is the loop \<open>for(p = head(); p != nullptr; p = next(p))\<close>.
\<close>

partial_function (option) pool_walk :: "('s \<Rightarrow> nat \<Rightarrow> nat option) \<Rightarrow> 's \<Rightarrow> nat option \<Rightarrow> nat list option" where
  "pool_walk next s cur =
     (case cur of None \<Rightarrow> Some []
      | Some a \<Rightarrow> Option.bind (pool_walk next s (next s a)) (\<lambda>as. Some (a # as)))"

locale item_pool =
  fixes allocate :: "'s \<Rightarrow> nat option \<times> 's"
    and free :: "nat \<Rightarrow> 's \<Rightarrow> 's"
    and head :: "'s \<Rightarrow> nat option"
    and next_item :: "'s \<Rightarrow> nat \<Rightarrow> nat option"
    and used :: "'s \<Rightarrow> nat list \<Rightarrow> bool"
  assumes allocate_used: "used s us \<Longrightarrow>
        \<exists>a s'. allocate s = (Some a, s') \<and> a \<notin> set us \<and> used s' (a # us)"
    and free_used: "used s us \<Longrightarrow> a \<in> set us \<Longrightarrow> used (free a s) (remove1 a us)"
    and used_distinct: "used s us \<Longrightarrow> distinct us"
    and used_unique: "used s us \<Longrightarrow> used s us' \<Longrightarrow> us = us'"
    and head_used: "used s us \<Longrightarrow> head s = (case us of [] \<Rightarrow> None | a # _ \<Rightarrow> Some a)"
    and next_used: "used s (xs @ a # ys) \<Longrightarrow> next_item s a = (case ys of [] \<Rightarrow> None | b # _ \<Rightarrow> Some b)"
begin

lemma walk_from:
  "used s (xs @ ys) \<Longrightarrow> pool_walk next_item s (case ys of [] \<Rightarrow> None | a # _ \<Rightarrow> Some a) = Some ys"
proof (induction ys arbitrary: xs)
  case Nil
  then show ?case by (simp add: pool_walk.simps)
next
  case (Cons a ys)
  then show ?case
    using Cons.IH [of "xs @ [a]"] next_used [of s xs a ys]
    by (simp add: pool_walk.simps [of _ _ "Some a"])
qed

lemma walk_used: "used s us \<Longrightarrow> pool_walk next_item s (head s) = Some us"
  using walk_from [of s "[]" us] by (simp add: head_used)

text \<open>Freeing distinct used items, in any order, leaves the others in their order.\<close>

lemma free_all:
  "used s us \<Longrightarrow> distinct as \<Longrightarrow> set as \<subseteq> set us \<Longrightarrow>
     used (fold free as s) (filter (\<lambda>a. a \<notin> set as) us)"
proof (induction as arbitrary: s us)
  case Nil
  then show ?case by simp
next
  case (Cons a as)
  have "used (free a s) (remove1 a us)" using Cons.prems by (intro free_used) auto
  moreover have "set as \<subseteq> set (remove1 a us)"
    using Cons.prems used_distinct [OF Cons.prems(1)] by auto
  ultimately have "used (fold free as (free a s)) (filter (\<lambda>b. b \<notin> set as) (remove1 a us))"
    using Cons.prems by (intro Cons.IH) auto
  moreover have "filter (\<lambda>b. b \<notin> set as) (remove1 a us) = filter (\<lambda>b. b \<notin> set (a # as)) us"
    using used_distinct [OF Cons.prems(1)]
    by (auto simp: distinct_remove1_removeAll removeAll_filter_not_eq intro!: filter_cong)
  ultimately show ?case by simp
qed

end

definition bs_used :: "nat \<Rightarrow> block_storage \<Rightarrow> nat list \<Rightarrow> bool" where
  "bs_used blockSize s us \<longleftrightarrow> (\<exists>fs. bs_rep blockSize s us fs)"

interpretation bs: item_pool "bs_allocate blockSize" bs_free bs_head bs_next_item "bs_used blockSize"
  for blockSize
proof (unfold_locales, goal_cases)
  case (1 s us)
  then show ?case unfolding bs_used_def using bs_allocate_spec by blast
next
  case (2 s us a)
  then show ?case unfolding bs_used_def using bs_free_spec by blast
next
  case (3 s us)
  then show ?case by (auto simp: bs_used_def bs_rep_def)
next
  case (4 s us us')
  then show ?case unfolding bs_used_def using bs_rep_unique by blast
next
  case (5 s us)
  then show ?case unfolding bs_used_def using bs_head_rep by blast
next
  case (6 s xs a ys)
  then show ?case unfolding bs_used_def using bs_next_rep by blast
qed

section \<open>Properties\<close>

text \<open>
  C14: \<open>allocate\<close> refines adding a new item to the front of the abstract list of items in use: it
  returns an item that is not in use, taken from the free list when there is one and from a new
  block otherwise, and leaves the other items in their order.
\<close>

theorem allocate_refines:
  assumes "bs_rep blockSize s used unused"
  shows "\<exists>a s' unused'. bs_allocate blockSize s = (Some a, s') \<and> a \<notin> set used
    \<and> bs_rep blockSize s' (a # used) unused' \<and> (unused \<noteq> [] \<longrightarrow> unused = a # unused')
    \<and> bs_getStorageInfo s' = Some (length used + 1)"
proof -
  from bs_allocate_spec [OF assms] obtain a s' unused' where
    a: "bs_allocate blockSize s = (Some a, s')" "a \<notin> set used" "bs_rep blockSize s' (a # used) unused'"
      "unused \<noteq> [] \<longrightarrow> unused = a # unused'" by blast
  moreover have "bs_getStorageInfo s' = Some (length used + 1)"
    using bs_getStorageInfo_spec [OF a(3)] by simp
  ultimately show ?thesis by blast
qed

lemma allocate_refines_witness:
  "\<exists>a s' unused'. bs_allocate 3 bs_empty = (Some a, s') \<and> bs_rep 3 s' [a] unused'
    \<and> bs_getStorageInfo s' = Some 1"
  using allocate_refines [OF bs_empty_rep [of 3]] by fastforce

text \<open>
  C15: \<open>free\<close> refines removing the item from the list in use, wherever it stands, and puts it first
  on the free list, so that the next \<open>allocate\<close> returns it.
\<close>

theorem free_refines:
  assumes "bs_rep blockSize s used unused" "a \<in> set used"
  shows "bs_rep blockSize (bs_free a s) (remove1 a used) (a # unused)
    \<and> fst (bs_allocate blockSize (bs_free a s)) = Some a"
proof -
  have r: "bs_rep blockSize (bs_free a s) (remove1 a used) (a # unused)" by (rule bs_free_spec [OF assms])
  then show ?thesis using bs_allocate_spec [OF r] by auto
qed

lemma free_refines_witness:
  "\<exists>s unused. bs_rep 3 s [] (0 # unused) \<and> fst (bs_allocate 3 s) = Some 0"
proof -
  have a: "fst (bs_allocate 3 bs_empty) = Some 0" by code_simp
  obtain s' un where s: "bs_rep 3 s' [0] un"
    using bs_allocate_spec [OF bs_empty_rep [of 3]] a by auto
  show ?thesis using free_refines [OF s, of 0] by auto
qed

text \<open>
  The loop \<open>for(p = head(); p != nullptr; p = next(p))\<close>, which the poll loop's time-out check runs,
  ends and visits every item in use exactly once.
\<close>

theorem pool_walk_complete:
  assumes "bs_rep blockSize s used unused"
  shows "pool_walk bs_next_item s (bs_head s) = Some used \<and> distinct used"
proof -
  have u: "bs_used blockSize s used" using assms by (auto simp: bs_used_def)
  show ?thesis using bs.walk_used [OF u] bs.used_distinct [OF u] by simp
qed

lemma pool_walk_complete_witness: "pool_walk bs_next_item bs_empty (bs_head bs_empty) = Some []"
  using pool_walk_complete [OF bs_empty_rep [of 1]] by simp

end
