(* ===== verification/ExecutorData.thy ===== *)
theory ExecutorData
  imports OsInterface ServerParameters HttpRequest TransferRingBuffer BlockStorage
begin

text \<open>
  \<open>src/ExecutorData.h\<close>, \<open>src/ExecutorData.cpp\<close> and \<open>src/PollData.h\<close>: the state of one
  connection (or listening socket) and the object epoll hands back with each event. The build
  with \<open>USE_SSL\<close> is modelled; the one without it has the same code without the SSL branches.

  \<open>pExecutor\<close> points to one of the poll loop's executor objects and is their name here;
  pointers to pool items are their addresses; \<open>proxy\<close> points into the vector of proxy
  parameters and is an index.
\<close>

definition REQUEST_BUFFER_SIZE :: nat where "REQUEST_BUFFER_SIZE = 10000"
definition MAX_TIME_TO_LIVE_MILLIS :: int where "MAX_TIME_TO_LIVE_MILLIS = 1000 * 60 * 30"
definition MAX_RETRY_COUNTER :: int where "MAX_RETRY_COUNTER = 1000"

datatype executor = X_newFd | X_server | X_request | X_file | X_proxy
  | X_sslServer | X_sslRequest | X_sslFile | X_sslProxy

datatype exec_state = ES_invalid | ES_readRequest | ES_sendHeaders | ES_sendFile | ES_forwardRequest
  | ES_forwardResponse | ES_forwardResponseOnlyWrite | ES_waitConnect | ES_sendOnlyHeaders | ES_ok
  | ES_sslHandshake

datatype process_result = PRES_ok | PRES_removeExecutorOk | PRES_removeExecutorError | PRES_shutdown

record poll_data =
  pd_fd :: int
  pd_execData :: "nat option"

record executor_data =
  ed_pExecutor :: "executor option"
  ed_state :: exec_state
  ed_fd0 :: int
  ed_fd1 :: int
  ed_pollData0 :: "nat option"
  ed_pollData1 :: "nat option"
  ed_pipeReadFd :: int
  ed_pipeWriteFd :: int
  ed_bytesInPipe :: int
  ed_bytesToSend :: int
  ed_filePosition :: int
  ed_buffer :: ring
  ed_port :: int
  ed_ssl :: "nat option"
  ed_createTime :: int
  ed_lastProcessTime :: int
  ed_removeOnTimeout :: bool
  ed_connectionType :: "32 word"
  ed_retryCounter :: int
  ed_request :: http_request
  ed_proxy :: "nat option"

text \<open>The members' initial values.\<close>

definition pd_default :: poll_data where
  "pd_default = \<lparr>pd_fd = -1, pd_execData = None\<rparr>"

definition pd_down :: "poll_data \<Rightarrow> poll_data" where
  "pd_down p = p\<lparr>pd_fd := -1, pd_execData := None\<rparr>"

definition ed_default :: executor_data where
  "ed_default = \<lparr>ed_pExecutor = None, ed_state = ES_invalid, ed_fd0 = -1, ed_fd1 = -1,
     ed_pollData0 = None, ed_pollData1 = None, ed_pipeReadFd = -1, ed_pipeWriteFd = -1,
     ed_bytesInPipe = 0, ed_bytesToSend = 0, ed_filePosition = 0, ed_buffer = rb_empty, ed_port = 0,
     ed_ssl = None, ed_createTime = 0, ed_lastProcessTime = 0, ed_removeOnTimeout = True,
     ed_connectionType = CT_none, ed_retryCounter = 0, ed_request = rq_init, ed_proxy = None\<rparr>"

text \<open>\<open>if(fd > 0) { close(fd); fd = -1; }\<close>: the new value of the member, and the world after it.\<close>

definition close_positive :: "'w os \<Rightarrow> int \<Rightarrow> 'w \<Rightarrow> int \<times> 'w" where
  "close_positive os fd w = (if fd > 0 then (-1, snd (os_close os fd w)) else (fd, w))"

definition ed_down :: "'w os \<Rightarrow> executor_data \<Rightarrow> 'w \<Rightarrow> executor_data \<times> 'w" where
  "ed_down os d w0 =
     (let (ssl, w1) = (case ed_ssl d of
                         None \<Rightarrow> (None, w0)
                       | Some ssl \<Rightarrow> (None, snd (os_SSL_free os ssl (snd (os_SSL_shutdown os ssl w0)))));
          (fd0, w2) = close_positive os (ed_fd0 d) w1;
          (fd1, w3) = close_positive os (ed_fd1 d) w2;
          (pipeRead, w4) = close_positive os (ed_pipeReadFd d) w3;
          (pipeWrite, w5) = close_positive os (ed_pipeWriteFd d) w4
      in (d\<lparr>ed_ssl := ssl, ed_fd0 := fd0, ed_fd1 := fd1, ed_pollData0 := None, ed_pollData1 := None,
            ed_pipeReadFd := pipeRead, ed_pipeWriteFd := pipeWrite, ed_bytesInPipe := 0,
            ed_state := ES_invalid, ed_pExecutor := None, ed_bytesToSend := 0, ed_filePosition := 0,
            ed_buffer := rb_clear (ed_buffer d), ed_createTime := 0, ed_lastProcessTime := 0,
            ed_removeOnTimeout := True, ed_connectionType := CT_none, ed_retryCounter := 0,
            ed_proxy := None\<rparr>, w5))"

text \<open>
  What \<open>down\<close> leaves: no descriptor that could still be open (a descriptor \<open>0\<close> is left as it
  is, see the test \<open>> 0\<close>), no SSL object, no link into the poll loop.
\<close>

definition ed_dead :: "executor_data \<Rightarrow> bool" where
  "ed_dead d \<longleftrightarrow> ed_pExecutor d = None \<and> ed_state d = ES_invalid \<and> ed_fd0 d \<le> 0 \<and> ed_fd1 d \<le> 0
     \<and> ed_pollData0 d = None \<and> ed_pollData1 d = None \<and> ed_pipeReadFd d \<le> 0 \<and> ed_pipeWriteFd d \<le> 0
     \<and> ed_ssl d = None \<and> ed_retryCounter d = 0 \<and> ed_proxy d = None \<and> rb_inv (ed_buffer d)"

lemma ed_dead_default: "ed_dead ed_default"
  by (simp add: ed_dead_def ed_default_def rb_inv_empty)

lemma ed_down_dead: "rb_inv (ed_buffer d) \<Longrightarrow> ed_dead (fst (ed_down os d w))"
  by (auto simp: ed_dead_def ed_down_def close_positive_def Let_def rb_clear_inv
      split: option.splits prod.splits)

end
