(* ===== verification/PollLoopBase.thy ===== *)
theory PollLoopBase
  imports ExecutorData
begin

text \<open>
  The part of \<open>src/PollLoop.cpp\<close> that the executors call through \<open>src/PollLoopBase.h\<close>:
  descriptors in and out of the interest list, and executors in and out of their pool. Calls of
  the log only write text and are left out.
\<close>

section \<open>State\<close>

text \<open>
  The objects of the two pools lie in the maps \<open>pl_execs\<close> and \<open>pl_polls\<close> at the addresses that
  \<open>BlockStorage\<close> manages. \<open>fileNameBuffer\<close> is the C string in it. The queue of new
  descriptors and the flag that other threads write live in the world.
\<close>

record 'w poll_loop =
  pl_world :: 'w
  pl_execs :: "nat \<Rightarrow> executor_data"
  pl_polls :: "nat \<Rightarrow> poll_data"
  pl_execDatas :: block_storage
  pl_pollDatas :: block_storage
  pl_numOfPollFds :: int
  pl_epollFd :: int
  pl_eventFd :: int
  pl_lastCheckTimeoutMillis :: int
  pl_fileNameBuffer :: string
  pl_rootFolderLength :: nat
  pl_parameters :: server_parameters

definition BLOCK_SIZE :: nat where "BLOCK_SIZE = 0x400"
definition MAX_FILE_NAME :: nat where "MAX_FILE_NAME = 300"

definition pl_empty :: "server_parameters \<Rightarrow> 'w \<Rightarrow> 'w poll_loop" where
  "pl_empty params w = \<lparr>pl_world = w, pl_execs = (\<lambda>_. ed_default), pl_polls = (\<lambda>_. pd_default),
     pl_execDatas = bs_empty, pl_pollDatas = bs_empty, pl_numOfPollFds = 0, pl_epollFd = -1,
     pl_eventFd = -1, pl_lastCheckTimeoutMillis = 0, pl_fileNameBuffer = [], pl_rootFolderLength = 0,
     pl_parameters = params\<rparr>"

text \<open>A call into the world, \<open>errno\<close>, and access to the objects of the pools.\<close>

definition sys :: "('w \<Rightarrow> 'a \<times> 'w) \<Rightarrow> ('w poll_loop, 'a) state" where
  "sys f = State (\<lambda>s. case f (pl_world s) of (r, w) \<Rightarrow> (r, s\<lparr>pl_world := w\<rparr>))"

definition errno :: "'w os \<Rightarrow> ('w poll_loop, int) state" where
  "errno os = gets (\<lambda>s. os_errno os (pl_world s))"

definition exec :: "nat \<Rightarrow> ('w poll_loop, executor_data) state" where
  "exec a = gets (\<lambda>s. pl_execs s a)"

definition upd :: "nat \<Rightarrow> (executor_data \<Rightarrow> executor_data) \<Rightarrow> ('w poll_loop, unit) state" where
  "upd a f = modify (\<lambda>s. s\<lparr>pl_execs := (pl_execs s)(a := f (pl_execs s a))\<rparr>)"

definition upd_poll :: "nat \<Rightarrow> (poll_data \<Rightarrow> poll_data) \<Rightarrow> ('w poll_loop, unit) state" where
  "upd_poll p f = modify (\<lambda>s. s\<lparr>pl_polls := (pl_polls s)(p := f (pl_polls s p))\<rparr>)"

definition allocate_poll :: "('w poll_loop, nat option) state" where
  "allocate_poll = State (\<lambda>s. case bs_allocate BLOCK_SIZE (pl_pollDatas s) of
     (p, b) \<Rightarrow> (p, s\<lparr>pl_pollDatas := b\<rparr>))"

definition free_poll :: "nat \<Rightarrow> ('w poll_loop, unit) state" where
  "free_poll p = modify (\<lambda>s. s\<lparr>pl_pollDatas := bs_free p (pl_pollDatas s)\<rparr>)"

definition allocate_exec :: "('w poll_loop, nat option) state" where
  "allocate_exec = State (\<lambda>s. case bs_allocate BLOCK_SIZE (pl_execDatas s) of
     (a, b) \<Rightarrow> (a, s\<lparr>pl_execDatas := b\<rparr>))"

definition free_exec :: "nat \<Rightarrow> ('w poll_loop, unit) state" where
  "free_exec a = modify (\<lambda>s. s\<lparr>pl_execDatas := bs_free a (pl_execDatas s)\<rparr>)"

definition count_poll :: "int \<Rightarrow> ('w poll_loop, unit) state" where
  "count_poll n = modify (\<lambda>s. s\<lparr>pl_numOfPollFds := pl_numOfPollFds s + n\<rparr>)"

section \<open>Operations\<close>

text \<open>The executor object of a type; every type has one in the build with \<open>USE_SSL\<close>.\<close>

fun getExecutor :: "executor_type \<Rightarrow> executor" where
  "getExecutor ET_request = X_request"
| "getExecutor ET_file = X_file"
| "getExecutor ET_proxy = X_proxy"
| "getExecutor ET_server = X_server"
| "getExecutor ET_sslFile = X_sslFile"
| "getExecutor ET_serverSsl = X_sslServer"
| "getExecutor ET_requestSsl = X_sslRequest"
| "getExecutor ET_sslProxy = X_sslProxy"

text \<open>\<open>data\<close> is the address of the executor's data.\<close>

definition addPollFd :: "'w os \<Rightarrow> nat \<Rightarrow> int \<Rightarrow> 32 word \<Rightarrow> ('w poll_loop, int) state" where
  "addPollFd os data fd events = do {
     d \<leftarrow> exec data;
     if fd \<noteq> ed_fd0 d \<and> fd \<noteq> ed_fd1 d then State_Monad.return (-1)
     else if fd = ed_fd0 d \<and> ed_pollData0 d \<noteq> None then State_Monad.return (-1)
     else if fd = ed_fd1 d \<and> ed_pollData1 d \<noteq> None then State_Monad.return (-1)
     else do {
       pollData \<leftarrow> allocate_poll;
       case pollData of
         None \<Rightarrow> State_Monad.return (-1)
       | Some p \<Rightarrow> do {
           count_poll 1;
           ep \<leftarrow> gets pl_epollFd;
           rc \<leftarrow> sys (os_epoll_add os ep fd (events OR EPOLLRDHUP OR EPOLLERR) p);
           if rc = -1 then do { free_poll p; count_poll (-1); State_Monad.return (-1) }
           else do {
             upd_poll p (\<lambda>pd. pd\<lparr>pd_fd := fd, pd_execData := Some data\<rparr>);
             (if fd = ed_fd0 d then upd data (\<lambda>d. d\<lparr>ed_pollData0 := Some p\<rparr>)
              else if fd = ed_fd1 d then upd data (\<lambda>d. d\<lparr>ed_pollData1 := Some p\<rparr>)
              else State_Monad.return ());
             State_Monad.return 0
           }
         }
     }
   }"

text \<open>The poll data that \<open>editPollFd\<close> and \<open>removePollFd\<close> select for a descriptor.\<close>

definition pollData_of :: "executor_data \<Rightarrow> int \<Rightarrow> nat option" where
  "pollData_of d fd = (if fd = ed_fd0 d then ed_pollData0 d
                       else if fd = ed_fd1 d then ed_pollData1 d else None)"

definition editPollFd :: "'w os \<Rightarrow> nat \<Rightarrow> int \<Rightarrow> 32 word \<Rightarrow> ('w poll_loop, int) state" where
  "editPollFd os data fd events = do {
     d \<leftarrow> exec data;
     case pollData_of d fd of
       None \<Rightarrow> State_Monad.return (-1)
     | Some p \<Rightarrow> do {
         ep \<leftarrow> gets pl_epollFd;
         rc \<leftarrow> sys (os_epoll_mod os ep fd (events OR EPOLLRDHUP OR EPOLLERR) p);
         if rc = -1 then State_Monad.return (-1) else State_Monad.return 0
       }
   }"

definition removePollFd :: "'w os \<Rightarrow> nat \<Rightarrow> int \<Rightarrow> ('w poll_loop, int) state" where
  "removePollFd os data fd = do {
     d \<leftarrow> exec data;
     case pollData_of d fd of
       None \<Rightarrow> State_Monad.return (-1)
     | Some p \<Rightarrow> do {
         ep \<leftarrow> gets pl_epollFd;
         rc \<leftarrow> sys (os_epoll_del os ep fd);
         if rc \<noteq> 0 then State_Monad.return (-1)
         else do {
           upd_poll p pd_down;
           free_poll p;
           count_poll (-1);
           (if Some p = ed_pollData0 d then upd data (\<lambda>d. d\<lparr>ed_pollData0 := None\<rparr>)
            else if Some p = ed_pollData1 d then upd data (\<lambda>d. d\<lparr>ed_pollData1 := None\<rparr>)
            else State_Monad.return ());
           State_Monad.return 0
         }
       }
   }"

definition closeFd :: "'w os \<Rightarrow> nat \<Rightarrow> int \<Rightarrow> ('w poll_loop, int) state" where
  "closeFd os data fd = do {
     d \<leftarrow> exec data;
     if fd = ed_fd0 d then do {
       (if ed_pollData0 d \<noteq> None
        then do { removePollFd os data (ed_fd0 d); State_Monad.return () } else State_Monad.return ());
       sys (os_close os (ed_fd0 d));
       upd data (\<lambda>d. d\<lparr>ed_fd0 := -1\<rparr>);
       State_Monad.return 0
     }
     else if fd = ed_fd1 d then do {
       (if ed_pollData1 d \<noteq> None
        then do { removePollFd os data (ed_fd1 d); State_Monad.return () } else State_Monad.return ());
       sys (os_close os (ed_fd1 d));
       upd data (\<lambda>d. d\<lparr>ed_fd1 := -1\<rparr>);
       State_Monad.return 0
     }
     else State_Monad.return (-1)
   }"

definition createExecutorData :: "'w os \<Rightarrow> ('w poll_loop, nat option) state" where
  "createExecutorData os = do {
     execData \<leftarrow> allocate_exec;
     case execData of
       None \<Rightarrow> State_Monad.return None
     | Some a \<Rightarrow> do {
         curMillis \<leftarrow> sys (os_getMilliseconds os);
         upd a (\<lambda>d. d\<lparr>ed_createTime := curMillis, ed_lastProcessTime := curMillis\<rparr>);
         State_Monad.return (Some a)
       }
   }"

definition removeExecutorData :: "'w os \<Rightarrow> nat \<Rightarrow> ('w poll_loop, unit) state" where
  "removeExecutorData os a = do {
     d \<leftarrow> exec a;
     (if ed_pollData0 d \<noteq> None
      then do { removePollFd os a (ed_fd0 d); State_Monad.return () } else State_Monad.return ());
     d \<leftarrow> exec a;
     (if ed_pollData1 d \<noteq> None
      then do { removePollFd os a (ed_fd1 d); State_Monad.return () } else State_Monad.return ());
     d \<leftarrow> exec a;
     d' \<leftarrow> sys (ed_down os d);
     upd a (\<lambda>_. d');
     free_exec a
   }"

end
