(* ===== verification/PollLoopInv.thy ===== *)
theory PollLoopInv
  imports PollLoopBase
begin

text \<open>
  The invariant of the poll loop's data and the proof that the operations of
  \<open>PollLoopBase\<close> keep it: the poll data in use and the executors in use point at each other,
  unused poll data have no executor, unused executors have no open descriptor, and
  \<open>numOfPollFds\<close> counts the registrations. Each operation gets one rule for \<open>wp\<close>
  (collection \<open>loop_rules\<close>), from which the proofs about the executors are built.
\<close>

section \<open>The invariant\<close>

definition owns :: "executor_data \<Rightarrow> nat \<Rightarrow> bool" where
  "owns d p \<longleftrightarrow> ed_pollData0 d = Some p \<or> ed_pollData1 d = Some p"

definition is_proxy :: "executor_data \<Rightarrow> bool" where
  "is_proxy d \<longleftrightarrow> ed_pExecutor d = Some X_proxy \<or> ed_pExecutor d = Some X_sslProxy"

text \<open>What holds of one executor's data on its own: what handlers may change freely.\<close>

definition exec_fields_ok :: "executor_data \<Rightarrow> bool" where
  "exec_fields_ok d \<longleftrightarrow> rb_inv (ed_buffer d) \<and> (ed_state d \<noteq> ES_invalid \<longrightarrow> ed_pExecutor d \<noteq> None)
     \<and> (ed_pollData1 d \<noteq> None \<longrightarrow> is_proxy d)"

text \<open>Its links: the poll data it points to are in use and point back.\<close>

definition exec_links_ok :: "(nat \<Rightarrow> poll_data) \<Rightarrow> nat set \<Rightarrow> nat \<Rightarrow> executor_data \<Rightarrow> bool" where
  "exec_links_ok polls ps a d \<longleftrightarrow>
     (\<forall>p. ed_pollData0 d = Some p \<longrightarrow> p \<in> ps \<and> polls p = \<lparr>pd_fd = ed_fd0 d, pd_execData = Some a\<rparr>)
   \<and> (\<forall>p. ed_pollData1 d = Some p \<longrightarrow> p \<in> ps \<and> polls p = \<lparr>pd_fd = ed_fd1 d, pd_execData = Some a\<rparr>
        \<and> ed_fd1 d \<noteq> ed_fd0 d)"

definition loop_links :: "nat list \<Rightarrow> nat list \<Rightarrow> (nat \<Rightarrow> executor_data) \<Rightarrow> (nat \<Rightarrow> poll_data) \<Rightarrow> bool" where
  "loop_links us ps execs polls \<longleftrightarrow>
     (\<forall>p. p \<notin> set ps \<longrightarrow> pd_execData (polls p) = None)
   \<and> (\<forall>p \<in> set ps. \<exists>a \<in> set us. pd_execData (polls p) = Some a \<and> owns (execs a) p)
   \<and> (\<forall>a \<in> set us. exec_links_ok polls (set ps) a (execs a) \<and> exec_fields_ok (execs a))
   \<and> (\<forall>a. a \<notin> set us \<longrightarrow> ed_dead (execs a))"

definition loop_rep :: "nat list \<Rightarrow> 'w poll_loop \<Rightarrow> bool" where
  "loop_rep us s \<longleftrightarrow> bs_used BLOCK_SIZE (pl_execDatas s) us
     \<and> (\<exists>ps. bs_used BLOCK_SIZE (pl_pollDatas s) ps \<and> pl_numOfPollFds s = int (length ps)
          \<and> loop_links us ps (pl_execs s) (pl_polls s))"

text \<open>The same seen from one executor in use, whose data is \<open>d\<close>.\<close>

definition at :: "nat list \<Rightarrow> nat \<Rightarrow> executor_data \<Rightarrow> 'w poll_loop \<Rightarrow> bool" where
  "at us a d s \<longleftrightarrow> loop_rep us s \<and> a \<in> set us \<and> pl_execs s a = d"

lemma atD: "at us a d s \<Longrightarrow> loop_rep us s" "at us a d s \<Longrightarrow> pl_execs s a = d" "at us a d s \<Longrightarrow> a \<in> set us"
  by (simp_all add: at_def)

lemma at_fields: "at us a d s \<Longrightarrow> exec_fields_ok d"
  by (auto simp: at_def loop_rep_def loop_links_def)

text \<open>A change that keeps the links and what \<open>exec_fields_ok\<close> asks for.\<close>

definition keeps_links :: "executor_data \<Rightarrow> executor_data \<Rightarrow> bool" where
  "keeps_links d d' \<longleftrightarrow> ed_pollData0 d' = ed_pollData0 d \<and> ed_pollData1 d' = ed_pollData1 d
     \<and> (ed_pollData0 d \<noteq> None \<or> ed_pollData1 d \<noteq> None \<longrightarrow> ed_fd0 d' = ed_fd0 d)
     \<and> (ed_pollData1 d \<noteq> None \<longrightarrow> ed_fd1 d' = ed_fd1 d)"

lemma loop_links_exec:
  assumes "loop_links us ps execs polls" "a \<in> set us" "keeps_links (execs a) d'" "exec_fields_ok d'"
  shows "loop_links us ps (execs(a := d')) polls"
proof -
  have "exec_links_ok polls (set ps) a d'"
    using assms(1-3) by (auto simp: loop_links_def exec_links_ok_def keeps_links_def)
  moreover have "owns (execs a) p \<Longrightarrow> owns d' p" for p
    using assms(3) by (simp add: owns_def keeps_links_def)
  moreover have "\<exists>c \<in> set us. pd_execData (polls p) = Some c \<and> owns ((execs(a := d')) c) p"
    if p: "p \<in> set ps" for p
  proof -
    obtain c where "c \<in> set us" "pd_execData (polls p) = Some c" "owns (execs c) p"
      using assms(1) p by (auto simp: loop_links_def)
    then show ?thesis using calculation(2) by (intro bexI [of _ c]) auto
  qed
  ultimately show ?thesis using assms unfolding loop_links_def by simp
qed

section \<open>Rules\<close>

named_theorems loop_rules "preconditions of the poll loop's operations"

lemma wp_exec [loop_rules]: "at us a d s \<Longrightarrow> Q d s \<Longrightarrow> wp (exec a) Q s"
  by (simp add: exec_def wp_simps at_def)

lemma wp_errno [loop_rules]: "at us a d s \<Longrightarrow> (\<And>e. Q e s) \<Longrightarrow> wp (errno os) Q s"
  by (simp add: errno_def wp_simps)

lemma wp_sys: "(\<And>r w. f (pl_world s) = (r, w) \<Longrightarrow> Q r (s\<lparr>pl_world := w\<rparr>)) \<Longrightarrow> wp (sys f) Q s"
  by (simp add: wp_def sys_def split: prod.splits)

lemma loop_rep_world [simp]: "loop_rep us (s\<lparr>pl_world := w\<rparr>) = loop_rep us s"
  by (simp add: loop_rep_def)

lemma at_world [simp]: "at us a d (s\<lparr>pl_world := w\<rparr>) = at us a d s"
  by (simp add: at_def)

lemma wp_sys_at [loop_rules]:
  assumes "at us a d s" and "\<And>r w s'. f (pl_world s) = (r, w) \<Longrightarrow> at us a d s' \<Longrightarrow> Q r s'"
  shows "wp (sys f) Q s"
  by (rule wp_sys) (rule assms(2), assumption, simp add: assms(1))

lemma wp_upd:
  assumes "at us a d s" "keeps_links d (f d)" "exec_fields_ok (f d)"
    and "\<And>s'. at us a (f d) s' \<Longrightarrow> Q () s'"
  shows "wp (upd a f) Q s"
proof -
  have "at us a (f d) (s\<lparr>pl_execs := (pl_execs s)(a := f (pl_execs s a))\<rparr>)"
    using assms(1-3) loop_links_exec by (fastforce simp: at_def loop_rep_def)
  then show ?thesis using assms(4) by (simp add: upd_def wp_simps)
qed

section \<open>The operations keep the invariant\<close>

lemma allocate_poll_at:
  assumes "at us a d s"
    and "\<And>p s'. bs_allocate BLOCK_SIZE (pl_pollDatas s) = (Some p, pl_pollDatas s') \<Longrightarrow>
      s' = s\<lparr>pl_pollDatas := pl_pollDatas s'\<rparr> \<Longrightarrow> Q (Some p) s'"
  shows "wp allocate_poll Q s"
proof -
  obtain ps where "bs_used BLOCK_SIZE (pl_pollDatas s) ps" using assms(1) by (auto simp: at_def loop_rep_def)
  from bs.allocate_used [OF this] obtain p b where b: "bs_allocate BLOCK_SIZE (pl_pollDatas s) = (Some p, b)"
    by blast
  then show ?thesis using assms(2) [of p "s\<lparr>pl_pollDatas := b\<rparr>"]
    by (simp add: wp_def allocate_poll_def)
qed

text \<open>
  \<open>addPollFd\<close> either changes nothing but the world and spare items of the pool, or it puts a
  new poll data on one of the two descriptors.
\<close>

definition linked_poll :: "int \<Rightarrow> nat \<Rightarrow> executor_data \<Rightarrow> executor_data" where
  "linked_poll fd p d = (if fd = ed_fd0 d then d\<lparr>ed_pollData0 := Some p\<rparr> else d\<lparr>ed_pollData1 := Some p\<rparr>)"

lemma loop_links_add:
  assumes l: "loop_links us ps execs polls" and a: "a \<in> set us" and p: "p \<notin> set ps"
    and fd: "fd = ed_fd0 (execs a) \<and> ed_pollData0 (execs a) = None
      \<or> fd \<noteq> ed_fd0 (execs a) \<and> fd = ed_fd1 (execs a) \<and> ed_pollData1 (execs a) = None \<and> is_proxy (execs a)"
  shows "loop_links us (p # ps) (execs(a := linked_poll fd p (execs a)))
    (polls(p := \<lparr>pd_fd = fd, pd_execData = Some a\<rparr>))"
    (is "loop_links us _ ?execs ?polls")
proof -
  have ok: "exec_links_ok polls (set ps) c (execs c)" "exec_fields_ok (execs c)" if "c \<in> set us" for c
    using l that by (auto simp: loop_links_def)
  have ne: "\<not> owns (execs c) p" if "c \<in> set us" for c
    using ok(1) [OF that] p by (auto simp: exec_links_ok_def owns_def)
  have other: "exec_links_ok ?polls (set (p # ps)) c (execs c)" if "c \<in> set us" for c
    using ok(1) [OF that] ne [OF that] by (auto simp: exec_links_ok_def owns_def)
  have self: "exec_links_ok ?polls (set (p # ps)) a (linked_poll fd p (execs a))"
    using other [OF a] fd by (auto simp: exec_links_ok_def linked_poll_def)
  have fields: "exec_fields_ok (linked_poll fd p (execs a))"
    using ok(2) [OF a] fd by (auto simp: exec_fields_ok_def linked_poll_def is_proxy_def)
  have mono: "owns (execs a) q \<Longrightarrow> owns (linked_poll fd p (execs a)) q" for q
    using fd by (auto simp: owns_def linked_poll_def)
  have new: "owns (linked_poll fd p (execs a)) p"
    by (simp add: owns_def linked_poll_def)
  have "\<exists>c \<in> set us. pd_execData (?polls q) = Some c \<and> owns (?execs c) q" if q: "q \<in> set (p # ps)" for q
  proof (cases "q = p")
    case True
    then show ?thesis using a new by (intro bexI [of _ a]) auto
  next
    case False
    then obtain c where "c \<in> set us" "pd_execData (polls q) = Some c" "owns (execs c) q"
      using l q by (auto simp: loop_links_def)
    then show ?thesis using False mono by (intro bexI [of _ c]) auto
  qed
  moreover have "\<forall>q. q \<notin> set (p # ps) \<longrightarrow> pd_execData (?polls q) = None"
    using l by (simp add: loop_links_def)
  ultimately show ?thesis
    using other self fields ok(2) l a unfolding loop_links_def by simp
qed

lemma pd_eta [simp]: "(pd :: poll_data)\<lparr>pd_fd := x, pd_execData := y\<rparr> = \<lparr>pd_fd = x, pd_execData = y\<rparr>"
  by (cases pd) simp

lemma wp_allocate_poll:
  "wp allocate_poll Q s \<longleftrightarrow> (\<forall>p b. bs_allocate BLOCK_SIZE (pl_pollDatas s) = (p, b) \<longrightarrow>
     Q p (s\<lparr>pl_pollDatas := b\<rparr>))"
  by (auto simp: wp_def allocate_poll_def split: prod.splits)

lemma wp_allocate_exec:
  "wp allocate_exec Q s \<longleftrightarrow> (\<forall>a b. bs_allocate BLOCK_SIZE (pl_execDatas s) = (a, b) \<longrightarrow>
     Q a (s\<lparr>pl_execDatas := b\<rparr>))"
  by (auto simp: wp_def allocate_exec_def split: prod.splits)

lemma wp_sys_iff: "wp (sys f) Q s \<longleftrightarrow> (\<forall>r w. f (pl_world s) = (r, w) \<longrightarrow> Q r (s\<lparr>pl_world := w\<rparr>))"
  by (auto simp: wp_def sys_def split: prod.splits)

lemmas wp_poll_ops = wp_simps wp_allocate_poll wp_allocate_exec wp_sys_iff exec_def upd_def upd_poll_def free_poll_def free_exec_def
  count_poll_def

lemma wp_addPollFd [loop_rules]:
  assumes s: "at us a d s" and px: "fd \<noteq> ed_fd0 d \<Longrightarrow> is_proxy d"
    and fail: "\<And>s'. at us a d s' \<Longrightarrow> Q (-1) s'"
    and ok: "\<And>p s'. pollData_of d fd = None \<Longrightarrow> at us a (linked_poll fd p d) s' \<Longrightarrow> Q 0 s'"
  shows "wp (addPollFd os a fd ev) Q s"
proof -
  from s have d: "pl_execs s a = d" and a: "a \<in> set us"
    and ue: "bs_used BLOCK_SIZE (pl_execDatas s) us" by (auto simp: at_def loop_rep_def)
  from s obtain ps where ps: "bs_used BLOCK_SIZE (pl_pollDatas s) ps" "pl_numOfPollFds s = int (length ps)"
    "loop_links us ps (pl_execs s) (pl_polls s)" by (auto simp: at_def loop_rep_def)
  from bs.allocate_used [OF ps(1)] obtain p b where
    b: "bs_allocate BLOCK_SIZE (pl_pollDatas s) = (Some p, b)" "p \<notin> set ps" "bs_used BLOCK_SIZE b (p # ps)"
    by blast
  have free: "bs_used BLOCK_SIZE (bs_free p b) ps"
    using bs.free_used [OF b(3), of p] by simp
  have 1: "Q (-1) s'" if "pl_execs s' = pl_execs s" "pl_polls s' = pl_polls s"
    "pl_execDatas s' = pl_execDatas s" "pl_pollDatas s' = bs_free p b" "pl_numOfPollFds s' = pl_numOfPollFds s" for s'
    by (rule fail) (use s ps free that in \<open>auto simp: at_def loop_rep_def\<close>)
  have 2: "Q 0 s'" if fd: "fd = ed_fd0 d \<and> ed_pollData0 d = None
      \<or> fd \<noteq> ed_fd0 d \<and> fd = ed_fd1 d \<and> ed_pollData1 d = None"
    and s': "pl_execs s' = (pl_execs s)(a := linked_poll fd p d)"
      "pl_polls s' = (pl_polls s)(p := \<lparr>pd_fd = fd, pd_execData = Some a\<rparr>)"
      "pl_execDatas s' = pl_execDatas s" "pl_pollDatas s' = b" "pl_numOfPollFds s' = pl_numOfPollFds s + 1" for s'
  proof (rule ok)
    show "pollData_of d fd = None" using fd by (auto simp: pollData_of_def)
    have "loop_links us (p # ps) (pl_execs s') (pl_polls s')"
      unfolding s' using loop_links_add [OF ps(3) a b(2), of fd] fd px by (auto simp: d)
    then show "at us a (linked_poll fd p d) s'"
      using ue b(3) ps(2) a by (auto simp: at_def loop_rep_def s')
  qed
  show ?thesis
    unfolding addPollFd_def wp_poll_ops
    by (intro conjI impI allI; (rule fail, rule s)?; simp add: b(1) d; (elim conjE)?; clarsimp?)
      (rule 1 2; simp add: linked_poll_def d)+
qed

lemma wp_editPollFd [loop_rules]:
  assumes "at us a d s" and "\<And>r s'. at us a d s' \<Longrightarrow> Q r s'"
  shows "wp (editPollFd os a fd ev) Q s"
  unfolding editPollFd_def wp_poll_ops
  by (intro conjI impI allI) (simp_all add: assms atD(2) [OF assms(1)])

text \<open>\<open>removePollFd\<close> takes the poll data of the descriptor away, or fails and changes nothing.\<close>

definition unlinked_poll :: "int \<Rightarrow> executor_data \<Rightarrow> executor_data" where
  "unlinked_poll fd d = (if fd = ed_fd0 d then d\<lparr>ed_pollData0 := None\<rparr> else d\<lparr>ed_pollData1 := None\<rparr>)"

lemma loop_links_remove:
  assumes l: "loop_links us ps execs polls" and a: "a \<in> set us" and dist: "distinct ps"
    and p: "pollData_of (execs a) fd = Some p"
  shows "loop_links us (remove1 p ps) (execs(a := unlinked_poll fd (execs a))) (polls(p := pd_down (polls p)))"
    (is "loop_links us _ ?execs ?polls")
proof -
  have ok: "exec_links_ok polls (set ps) c (execs c)" "exec_fields_ok (execs c)" if "c \<in> set us" for c
    using l that by (auto simp: loop_links_def)
  have own: "owns (execs a) p" using p by (auto simp: owns_def pollData_of_def split: if_splits)
  have ne: "c = a" if "c \<in> set us" "owns (execs c) p" for c
    using ok(1) [OF that(1)] that(2) ok(1) [OF a] own by (auto simp: exec_links_ok_def owns_def)
  have other: "exec_links_ok ?polls (set (remove1 p ps)) c (execs c)" if "c \<in> set us" "c \<noteq> a" for c
    using ok(1) [OF that(1)] ne [OF that(1)] that(2) dist by (auto simp: exec_links_ok_def owns_def)
  have self: "exec_links_ok ?polls (set (remove1 p ps)) a (unlinked_poll fd (execs a))"
    using ok(1) [OF a] p dist by (auto simp: exec_links_ok_def unlinked_poll_def pollData_of_def split: if_splits)
  have fields: "exec_fields_ok (unlinked_poll fd (execs a))"
    using ok(2) [OF a] by (auto simp: exec_fields_ok_def unlinked_poll_def is_proxy_def)
  have mono: "owns (execs a) q \<Longrightarrow> q \<noteq> p \<Longrightarrow> owns (unlinked_poll fd (execs a)) q" for q
    using p by (auto simp: owns_def unlinked_poll_def pollData_of_def split: if_splits)
  have "\<exists>c \<in> set us. pd_execData (?polls q) = Some c \<and> owns (?execs c) q" if q: "q \<in> set (remove1 p ps)" for q
  proof -
    have q': "q \<in> set ps" "q \<noteq> p" using q dist by auto
    then obtain c where "c \<in> set us" "pd_execData (polls q) = Some c" "owns (execs c) q"
      using l by (auto simp: loop_links_def)
    then show ?thesis using q'(2) mono by (intro bexI [of _ c]) auto
  qed
  moreover have "\<forall>q. q \<notin> set (remove1 p ps) \<longrightarrow> pd_execData (?polls q) = None"
    using l dist by (simp add: loop_links_def pd_down_def)
  ultimately show ?thesis
    using other self fields ok(2) l a unfolding loop_links_def by simp
qed

lemma wp_removePollFd_gen:
  assumes s: "at us a d s"
    and fail: "\<And>s'. epoll_del_ok os \<longrightarrow> pollData_of d fd = None \<Longrightarrow> at us a d s' \<Longrightarrow> Q (-1) s'"
    and ok: "\<And>s'. pollData_of d fd \<noteq> None \<Longrightarrow> at us a (unlinked_poll fd d) s' \<Longrightarrow> Q 0 s'"
  shows "wp (removePollFd os a fd) Q s"
proof -
  from s have d: "pl_execs s a = d" and a: "a \<in> set us"
    and ue: "bs_used BLOCK_SIZE (pl_execDatas s) us" by (auto simp: at_def loop_rep_def)
  from s obtain ps where ps: "bs_used BLOCK_SIZE (pl_pollDatas s) ps" "pl_numOfPollFds s = int (length ps)"
    "loop_links us ps (pl_execs s) (pl_polls s)" by (auto simp: at_def loop_rep_def)
  have dist: "distinct ps" by (rule bs.used_distinct [OF ps(1)])
  have 2: "Q 0 s'" if p: "pollData_of d fd = Some p"
    and s': "pl_execs s' = (pl_execs s)(a := unlinked_poll fd d)"
      "pl_polls s' = (pl_polls s)(p := pd_down (pl_polls s p))"
      "pl_execDatas s' = pl_execDatas s" "pl_pollDatas s' = bs_free p (pl_pollDatas s)"
      "pl_numOfPollFds s' = pl_numOfPollFds s - 1" for p s'
  proof (rule ok)
    show "pollData_of d fd \<noteq> None" using p by simp
    have m: "p \<in> set ps"
      using ps(3) a p d by (auto simp: loop_links_def exec_links_ok_def pollData_of_def split: if_splits)
    have "loop_links us (remove1 p ps) (pl_execs s') (pl_polls s')"
      unfolding s' using loop_links_remove [OF ps(3) a dist, of fd p] p by (simp add: d)
    moreover have "Suc (length (remove1 p ps)) = length ps"
      using m length_pos_if_in_set [OF m] by (simp add: length_remove1)
    then have "int (length (remove1 p ps)) = int (length ps) - 1" by linarith
    ultimately show "at us a (unlinked_poll fd d) s'"
      using ue bs.free_used [OF ps(1) m] ps(2) a unfolding at_def loop_rep_def s' by auto
  qed
  have 3: "Some p = ed_pollData0 d \<Longrightarrow> pollData_of d fd = Some p \<Longrightarrow> fd = ed_fd0 d"
    "Some p = ed_pollData1 d \<Longrightarrow> pollData_of d fd = Some p \<Longrightarrow> fd \<noteq> ed_fd0 d"
    "pollData_of d fd = Some p \<Longrightarrow> Some p = ed_pollData0 d \<or> Some p = ed_pollData1 d" for p
    using ps(3) a d by (auto simp: loop_links_def exec_links_ok_def pollData_of_def split: if_splits)
  have del: "epoll_del_ok os \<Longrightarrow> os_epoll_del os e f w = (r, w') \<Longrightarrow> r = 0" for e f w r w'
    unfolding epoll_del_ok_def by (metis fst_conv)
  show ?thesis
    unfolding removePollFd_def wp_poll_ops
    apply (intro conjI impI allI)
    subgoal by (rule fail) (use s d in auto)
    subgoal by (rule fail) (use s d del in auto)
    subgoal for p r w by (rule 2 [of p]) (use 3 [of p] d in \<open>auto simp: unlinked_poll_def\<close>)
    subgoal for p r w by (rule 2 [of p]) (use 3 [of p] d in \<open>auto simp: unlinked_poll_def\<close>)
    subgoal for p r w using 3 [of p] d by auto
    done
qed

lemma unlinked_poll_sel [simp]:
  "ed_fd0 (unlinked_poll fd d) = ed_fd0 d" "ed_fd1 (unlinked_poll fd d) = ed_fd1 d"
  "ed_pollData0 (unlinked_poll fd d) = (if fd = ed_fd0 d then None else ed_pollData0 d)"
  "ed_pollData1 (unlinked_poll fd d) = (if fd = ed_fd0 d then ed_pollData1 d else None)"
  by (simp_all add: unlinked_poll_def)

lemma wp_removePollFd [loop_rules]:
  assumes "at us a d s" "\<And>s'. at us a d s' \<Longrightarrow> Q (-1) s'"
    and "\<And>s'. pollData_of d fd \<noteq> None \<Longrightarrow> at us a (unlinked_poll fd d) s' \<Longrightarrow> Q 0 s'"
  shows "wp (removePollFd os a fd) Q s"
  using assms by (intro wp_removePollFd_gen) auto

text \<open>Where the source ignores the result it relies on it being 0.\<close>

lemma wp_removePollFd_ok:
  assumes "at us a d s" "epoll_del_ok os" "pollData_of d fd \<noteq> None"
    and "\<And>s'. at us a (unlinked_poll fd d) s' \<Longrightarrow> Q 0 s'"
  shows "wp (removePollFd os a fd) Q s"
  using assms by (intro wp_removePollFd_gen) auto

definition closed_fd :: "int \<Rightarrow> executor_data \<Rightarrow> executor_data" where
  "closed_fd fd d = (if fd = ed_fd0 d then d\<lparr>ed_pollData0 := None, ed_fd0 := -1\<rparr>
                     else d\<lparr>ed_pollData1 := None, ed_fd1 := -1\<rparr>)"

lemma at_poll1: "at us a d s \<Longrightarrow> ed_pollData1 d \<noteq> None \<Longrightarrow> ed_fd1 d \<noteq> ed_fd0 d"
  by (auto simp: at_def loop_rep_def loop_links_def exec_links_ok_def)

lemma wp_closeFd [loop_rules]:
  assumes s: "at us a d s" and del: "epoll_del_ok os" and fd: "fd = ed_fd1 d"
    and Q: "\<And>s'. at us a (closed_fd fd d) s' \<Longrightarrow> Q 0 s'"
  shows "wp (closeFd os a fd) Q s"
proof -
  have fields: "exec_fields_ok d" by (rule at_fields [OF s])
  have 1: "wp (upd a (\<lambda>d. d\<lparr>ed_fd0 := -1\<rparr>)) (\<lambda>_ s'. Q 0 s') s'"
    if "fd = ed_fd0 d" "at us a (d\<lparr>ed_pollData0 := None\<rparr>) s'" for s'
  proof (rule wp_upd [OF that(2)])
    have "ed_pollData1 d = None" using at_poll1 [OF s] fd that(1) by (cases "ed_pollData1 d") auto
    then show "keeps_links (d\<lparr>ed_pollData0 := None\<rparr>) (d\<lparr>ed_pollData0 := None\<rparr>\<lparr>ed_fd0 := -1\<rparr>)"
      by (simp add: keeps_links_def)
  qed (use fields Q that(1) in \<open>auto simp: exec_fields_ok_def is_proxy_def closed_fd_def\<close>)
  have 2: "wp (upd a (\<lambda>d. d\<lparr>ed_fd1 := -1\<rparr>)) (\<lambda>_ s'. Q 0 s') s'"
    if "fd \<noteq> ed_fd0 d" "at us a (d\<lparr>ed_pollData1 := None\<rparr>) s'" for s'
    by (rule wp_upd [OF that(2)])
      (use fields Q that(1) in \<open>auto simp: exec_fields_ok_def is_proxy_def closed_fd_def keeps_links_def\<close>)
  have e: "ed_pollData0 d = None \<Longrightarrow> d\<lparr>ed_pollData0 := None\<rparr> = d"
    "ed_pollData1 d = None \<Longrightarrow> d\<lparr>ed_pollData1 := None\<rparr> = d" by (cases d; simp)+
  show ?thesis
    unfolding closeFd_def wp_simps
    apply (rule wp_exec [OF s])
    apply (intro conjI impI)
    subgoal by (rule wp_removePollFd_ok [OF s del]) 
        (auto simp: pollData_of_def unlinked_poll_def intro!: wp_sys_at 1)
    subgoal by (rule wp_sys_at [OF s]) (rule 1, auto simp: e)
    subgoal by (rule wp_removePollFd_ok [OF s del]) 
        (auto simp: pollData_of_def unlinked_poll_def intro!: wp_sys_at 2)
    subgoal by (rule wp_sys_at [OF s]) (rule 2, auto simp: e)
    subgoal using fd by simp
    done
qed

lemma wp_createExecutorData:
  assumes s: "loop_rep us s"
    and Q: "\<And>b c t s'. b \<notin> set us \<Longrightarrow> ed_dead c \<Longrightarrow>
      at (b # us) b (c\<lparr>ed_createTime := t, ed_lastProcessTime := t\<rparr>) s' \<Longrightarrow>
      (\<And>a. a \<noteq> b \<Longrightarrow> pl_execs s' a = pl_execs s a) \<Longrightarrow> Q (Some b) s'"
  shows "wp (createExecutorData os) Q s"
proof -
  from s have ue: "bs_used BLOCK_SIZE (pl_execDatas s) us" by (simp add: loop_rep_def)
  from bs.allocate_used [OF this] obtain b st where
    b: "bs_allocate BLOCK_SIZE (pl_execDatas s) = (Some b, st)" "b \<notin> set us" "bs_used BLOCK_SIZE st (b # us)"
    by blast
  from s obtain ps where ps: "bs_used BLOCK_SIZE (pl_pollDatas s) ps" "pl_numOfPollFds s = int (length ps)"
    "loop_links us ps (pl_execs s) (pl_polls s)" by (auto simp: loop_rep_def)
  have dead: "ed_dead (pl_execs s b)" using ps(3) b(2) by (simp add: loop_links_def)
  have "loop_links (b # us) ps ((pl_execs s)(b := (pl_execs s b)\<lparr>ed_createTime := t, ed_lastProcessTime := t\<rparr>)) (pl_polls s)" for t
    unfolding loop_links_def
  proof (intro conjI ballI allI impI)
    fix p assume "p \<in> set ps"
    then obtain a where "a \<in> set us" "pd_execData (pl_polls s p) = Some a" "owns (pl_execs s a) p"
      using ps(3) by (auto simp: loop_links_def)
    then show "\<exists>a \<in> set (b # us). pd_execData (pl_polls s p) = Some a
      \<and> owns (((pl_execs s)(b := (pl_execs s b)\<lparr>ed_createTime := t, ed_lastProcessTime := t\<rparr>)) a) p"
      using b(2) by (intro bexI [of _ a]) auto
  qed (use ps(3) b(2) dead in \<open>auto simp: loop_links_def exec_links_ok_def exec_fields_ok_def ed_dead_def\<close>)
  then have A: "at (b # us) b ((pl_execs s b)\<lparr>ed_createTime := t, ed_lastProcessTime := t\<rparr>) s'"
    if "pl_execs s' = (pl_execs s)(b := (pl_execs s b)\<lparr>ed_createTime := t, ed_lastProcessTime := t\<rparr>)"
      "pl_polls s' = pl_polls s" "pl_execDatas s' = st" "pl_pollDatas s' = pl_pollDatas s"
      "pl_numOfPollFds s' = pl_numOfPollFds s" for t s'
    using b(3) ps(1,2) that by (auto simp: at_def loop_rep_def)
  then show ?thesis
    unfolding createExecutorData_def wp_poll_ops
    by (simp add: b(1)) (intro allI impI Q [OF b(2) dead A]; simp)
qed

lemma loop_links_die:
  assumes links: "loop_links us ps E P" and us: "distinct us"
    and a: "ed_pollData0 (E a) = None" "ed_pollData1 (E a) = None" and dead: "ed_dead d'"
  shows "loop_links (remove1 a us) ps (E(a := d')) P"
  unfolding loop_links_def
proof (intro conjI ballI allI impI)
  have rm: "set (remove1 a us) = set us - {a}" using us by simp
  fix p assume "p \<in> set ps"
  then obtain b where b: "b \<in> set us" "pd_execData (P p) = Some b" "owns (E b) p"
    using links by (auto simp: loop_links_def)
  then have "b \<noteq> a" using a by (auto simp: owns_def)
  with b show "\<exists>b \<in> set (remove1 a us). pd_execData (P p) = Some b \<and> owns ((E(a := d')) b) p"
    unfolding rm by (intro bexI [of _ b]) auto
qed (use links dead us in \<open>auto simp: loop_links_def\<close>)

text \<open>The end of \<open>removeExecutorData\<close>, when no poll data are left.\<close>

lemma wp_release:
  assumes s: "at us a d s" and d: "ed_pollData0 d = None" "ed_pollData1 d = None"
    and Q: "\<And>s'. loop_rep (remove1 a us) s' \<Longrightarrow> Q () s'"
  shows "wp (do { d' \<leftarrow> sys (ed_down os d); upd a (\<lambda>_. d'); free_exec a }) Q s"
proof -
  from s obtain ps where ps: "bs_used BLOCK_SIZE (pl_pollDatas s) ps" "pl_numOfPollFds s = int (length ps)"
    "loop_links us ps (pl_execs s) (pl_polls s)" and us: "bs_used BLOCK_SIZE (pl_execDatas s) us"
    and a: "a \<in> set us" "pl_execs s a = d" by (auto simp: at_def loop_rep_def)
  have "Q () s'" if "ed_down os d (pl_world s) = (d', w)" "pl_execs s' = (pl_execs s)(a := d')"
      "pl_polls s' = pl_polls s" "pl_pollDatas s' = pl_pollDatas s" "pl_numOfPollFds s' = pl_numOfPollFds s"
      "pl_execDatas s' = bs_free a (pl_execDatas s)" for d' w s'
  proof -
    have "ed_dead d'"
      using that(1) ed_down_dead [of d os "pl_world s"] at_fields [OF s] by (simp add: exec_fields_ok_def)
    from loop_links_die [OF ps(3) bs.used_distinct [OF us] _ _ this, of a] d a(2)
    have "loop_links (remove1 a us) ps (pl_execs s') (pl_polls s')" by (simp add: that)
    then show ?thesis
      by (intro Q) (use ps(1,2) bs.free_used [OF us a(1)] in \<open>auto simp: loop_rep_def that\<close>)
  qed
  then show ?thesis unfolding wp_poll_ops by (intro allI impI) (assumption | simp)+
qed

lemma wp_removeExecutorData:
  assumes s: "at us a d s" and del: "epoll_del_ok os"
    and Q: "\<And>s'. loop_rep (remove1 a us) s' \<Longrightarrow> Q () s'"
  shows "wp (removeExecutorData os a) Q s"
proof -
  note fin = wp_release [where a = a and us = us and Q = Q, OF _ _ _ Q]
  have 2: "wp (do { d \<leftarrow> exec a;
      (if ed_pollData1 d \<noteq> None
       then do { removePollFd os a (ed_fd1 d); State_Monad.return () } else State_Monad.return ());
      d \<leftarrow> exec a; d' \<leftarrow> sys (ed_down os d); upd a (\<lambda>_. d'); free_exec a }) Q t"
    if c: "at us a c t" "ed_pollData0 c = None" for c t
    unfolding wp_simps
    apply (rule wp_exec [OF c(1)])
    apply (intro conjI impI)
    subgoal
      apply (rule wp_removePollFd_ok [OF c(1) del])
      subgoal using at_poll1 [OF c(1)] by (auto simp: pollData_of_def)
      subgoal for t'
        by (rule wp_exec, assumption, rule fin [unfolded wp_simps], assumption)
           (use c(2) at_poll1 [OF c(1)] in auto)
      done
    subgoal by (rule wp_exec [OF c(1)], rule fin [unfolded wp_simps, OF c]) auto
    done
  show ?thesis
    unfolding removeExecutorData_def wp_simps
    apply (rule wp_exec [OF s])
    apply (intro conjI impI)
    subgoal
      by (rule wp_removePollFd_ok [OF s del], simp add: pollData_of_def,
          rule 2 [unfolded wp_simps], assumption, simp)
    subgoal by (rule 2 [unfolded wp_simps, OF s]) auto
    done
qed

end
