(* ===== verification/Executor.thy ===== *)
theory Executor
  imports PollLoopInv
begin

text \<open>
  \<open>src/executors/Executor.h\<close> and \<open>src/executors/Executor.cpp\<close>: the transfers between
  descriptor 0 and memory that an executor may override, the executor's use of its ring buffer,
  and the contract of an executor as a locale. The poll loop dispatches on \<open>pExecutor\<close>, so
  each executor is an interpretation of it.
\<close>

section \<open>The connection's buffer\<close>

definition buf_startWrite :: "nat \<Rightarrow> ('w poll_loop, region) state" where
  "buf_startWrite a = do {
     d \<leftarrow> exec a;
     upd a (\<lambda>d. d\<lparr>ed_buffer := snd (rb_startWrite (ed_buffer d))\<rparr>);
     State_Monad.return (fst (rb_startWrite (ed_buffer d)))
   }"

definition buf_startRead :: "nat \<Rightarrow> ('w poll_loop, region) state" where
  "buf_startRead a = do { d \<leftarrow> exec a; State_Monad.return (rb_startRead (ed_buffer d)) }"

definition buf_store :: "nat \<Rightarrow> nat \<Rightarrow> string \<Rightarrow> ('w poll_loop, unit) state" where
  "buf_store a p bs = upd a (\<lambda>d. d\<lparr>ed_buffer := rb_store p bs (ed_buffer d)\<rparr>)"

definition buf_endWrite :: "nat \<Rightarrow> nat \<Rightarrow> ('w poll_loop, unit) state" where
  "buf_endWrite a n = upd a (\<lambda>d. d\<lparr>ed_buffer := rb_endWrite n (ed_buffer d)\<rparr>)"

definition buf_endRead :: "nat \<Rightarrow> nat \<Rightarrow> ('w poll_loop, unit) state" where
  "buf_endRead a n = upd a (\<lambda>d. d\<lparr>ed_buffer := rb_endRead n (ed_buffer d)\<rparr>)"

definition buf_init :: "nat \<Rightarrow> nat \<Rightarrow> ('w poll_loop, unit) state" where
  "buf_init a n = upd a (\<lambda>d. d\<lparr>ed_buffer := rb_init n (ed_buffer d)\<rparr>)"

definition buf_clear :: "nat \<Rightarrow> ('w poll_loop, unit) state" where
  "buf_clear a = upd a (\<lambda>d. d\<lparr>ed_buffer := rb_clear (ed_buffer d)\<rparr>)"

text \<open>The bytes at \<open>p\<close>.\<close>

definition buf_mem :: "nat \<Rightarrow> nat \<Rightarrow> nat \<Rightarrow> ('w poll_loop, string) state" where
  "buf_mem a p n = do { d \<leftarrow> exec a; State_Monad.return (mem_read p n (rb_buf (ed_buffer d))) }"

definition ssize :: "string \<Rightarrow> int" where "ssize bs = int (length bs)"

section \<open>Transfers on descriptor 0\<close>

text \<open>
  \<open>readFd0(data, buf, count, errorCode)\<close> with \<open>buf\<close> in the connection's buffer: the result and
  \<open>errorCode\<close>. \<open>writeFd0\<close> is given the bytes.
\<close>

definition Executor_readFd0 :: "'w os \<Rightarrow> nat \<Rightarrow> nat \<Rightarrow> nat \<Rightarrow> ('w poll_loop, int \<times> int) state" where
  "Executor_readFd0 os a p count = do {
     d \<leftarrow> exec a;
     r \<leftarrow> sys (os_read os (ed_fd0 d) count);
     (case r of (result, bs) \<Rightarrow>
       if result > 0 then do { buf_store a p bs; State_Monad.return (result, 0) }
       else do { e \<leftarrow> errno os; State_Monad.return (result, e) })
   }"

definition Executor_writeFd0 :: "'w os \<Rightarrow> nat \<Rightarrow> string \<Rightarrow> ('w poll_loop, int \<times> int) state" where
  "Executor_writeFd0 os a bs = do {
     d \<leftarrow> exec a;
     result \<leftarrow> sys (os_write os (ed_fd0 d) bs);
     if result > 0 then State_Monad.return (result, 0)
     else do { e \<leftarrow> errno os; State_Monad.return (result, e) }
   }"

text \<open>\<open>++data.retryCounter\<close> and \<open>data.retryCounter = 0\<close>.\<close>

definition retry_inc :: "nat \<Rightarrow> ('w poll_loop, unit) state" where
  "retry_inc a = upd a (\<lambda>d. d\<lparr>ed_retryCounter := ed_retryCounter d + 1\<rparr>)"

definition retry_reset :: "nat \<Rightarrow> ('w poll_loop, unit) state" where
  "retry_reset a = upd a (\<lambda>d. d\<lparr>ed_retryCounter := 0\<rparr>)"

definition set_state :: "nat \<Rightarrow> exec_state \<Rightarrow> ('w poll_loop, unit) state" where
  "set_state a st = upd a (\<lambda>d. d\<lparr>ed_state := st\<rparr>)"

section \<open>Rules\<close>

lemma rb_store_inv: "rb_inv r \<Longrightarrow> p + length bs \<le> rb_bufSize r \<Longrightarrow> rb_inv (rb_store p bs r)"
  by (simp add: rb_inv_def rb_store_def)

lemma rb_store_sel [simp]:
  "rb_bufSize (rb_store p bs r) = rb_bufSize r" "rb_writeHead (rb_store p bs r) = rb_writeHead r"
  "rb_readHead (rb_store p bs r) = rb_readHead r"
  by (simp_all add: rb_store_def)

lemma rb_endWrite_inv: "rb_inv r \<Longrightarrow> rb_writeHead r + n \<le> rb_bufSize r \<Longrightarrow> rb_inv (rb_endWrite n r)"
  by (simp add: rb_inv_def rb_endWrite_def)

lemma rb_startWrite_bounds:
  "rb_inv r \<Longrightarrow> rb_startWrite r = ((True, p, n), r') \<Longrightarrow>
     0 < n \<and> p = rb_writeHead r' \<and> p + n \<le> rb_bufSize r'"
  by (auto simp: rb_startWrite_def rb_inv_def Let_def split: if_splits)

lemma rb_startRead_bounds:
  "rb_inv r \<Longrightarrow> rb_startRead r = (True, p, n) \<Longrightarrow>
     0 < n \<and> p = rb_readHead r \<and> n \<le> rb_bufSize r - p \<and> n \<le> length (rb_content r)"
  by (auto simp: rb_startRead_def rb_inv_def rb_content_def split: if_splits)

lemma exec_fields_buffer: "exec_fields_ok d \<Longrightarrow> rb_inv (ed_buffer d)"
  by (simp add: exec_fields_ok_def)

lemma is_proxy_upd [simp]:
  "is_proxy (d\<lparr>ed_state := x1\<rparr>) = is_proxy d" "is_proxy (d\<lparr>ed_buffer := x2\<rparr>) = is_proxy d"
  "is_proxy (d\<lparr>ed_retryCounter := x3\<rparr>) = is_proxy d" "is_proxy (d\<lparr>ed_bytesToSend := x3\<rparr>) = is_proxy d"
  "is_proxy (d\<lparr>ed_filePosition := x3\<rparr>) = is_proxy d" "is_proxy (d\<lparr>ed_bytesInPipe := x3\<rparr>) = is_proxy d"
  "is_proxy (d\<lparr>ed_fd0 := x3\<rparr>) = is_proxy d" "is_proxy (d\<lparr>ed_fd1 := x3\<rparr>) = is_proxy d"
  "is_proxy (d\<lparr>ed_pollData0 := x4\<rparr>) = is_proxy d" "is_proxy (d\<lparr>ed_pollData1 := x4\<rparr>) = is_proxy d"
  "is_proxy (d\<lparr>ed_removeOnTimeout := x5\<rparr>) = is_proxy d" "is_proxy (d\<lparr>ed_request := x6\<rparr>) = is_proxy d"
  "is_proxy (d\<lparr>ed_proxy := x4\<rparr>) = is_proxy d" "is_proxy (d\<lparr>ed_ssl := x4\<rparr>) = is_proxy d"
  "is_proxy (d\<lparr>ed_connectionType := x7\<rparr>) = is_proxy d" "is_proxy (d\<lparr>ed_pipeReadFd := x3\<rparr>) = is_proxy d"
  "is_proxy (d\<lparr>ed_pipeWriteFd := x3\<rparr>) = is_proxy d" "is_proxy (d\<lparr>ed_lastProcessTime := x3\<rparr>) = is_proxy d"
  "is_proxy (unlinked_poll fd d) = is_proxy d" "is_proxy (linked_poll fd p d) = is_proxy d"
  "is_proxy (closed_fd fd d) = is_proxy d"
  by (simp_all add: is_proxy_def unlinked_poll_def linked_poll_def closed_fd_def)

lemma wp_buf_startWrite [loop_rules]:
  assumes "at us a d s"
    and "\<And>ok p n b s'. rb_startWrite (ed_buffer d) = ((ok, p, n), b) \<Longrightarrow> rb_inv b \<Longrightarrow>
      rb_content b = rb_content (ed_buffer d) \<Longrightarrow>
      (ok \<Longrightarrow> 0 < n \<and> p = rb_writeHead b \<and> p + n \<le> rb_bufSize b) \<Longrightarrow>
      at us a (d\<lparr>ed_buffer := b\<rparr>) s' \<Longrightarrow> Q (ok, p, n) s'"
  shows "wp (buf_startWrite a) Q s"
proof -
  obtain ok p n b where b: "rb_startWrite (ed_buffer d) = ((ok, p, n), b)" by (metis prod.exhaust)
  have f: "exec_fields_ok d" by (rule at_fields [OF assms(1)])
  have i: "rb_inv b \<and> rb_content b = rb_content (ed_buffer d)"
    using rb_startWrite_inv [OF exec_fields_buffer [OF f] b] .
  have bd: "ok \<Longrightarrow> 0 < n \<and> p = rb_writeHead b \<and> p + n \<le> rb_bufSize b"
    using rb_startWrite_bounds [OF exec_fields_buffer [OF f], of p n b] b by simp
  show ?thesis
    unfolding buf_startWrite_def wp_simps
    by (rule wp_exec [OF assms(1)], rule wp_upd [OF assms(1)])
      (use f b i bd assms(2) in \<open>auto simp: keeps_links_def exec_fields_ok_def\<close>)
qed

lemma wp_buf_startRead [loop_rules]:
  assumes "at us a d s"
    and "\<And>ok p n. rb_startRead (ed_buffer d) = (ok, p, n) \<Longrightarrow> ok = (rb_content (ed_buffer d) \<noteq> []) \<Longrightarrow>
      (ok \<Longrightarrow> 0 < n \<and> rb_startRead (ed_buffer d) = (True, p, n)) \<Longrightarrow> Q (ok, p, n) s"
  shows "wp (buf_startRead a) Q s"
proof -
  obtain ok p n where r: "rb_startRead (ed_buffer d) = (ok, p, n)" by (metis prod.exhaust)
  then have "ok = (rb_content (ed_buffer d) \<noteq> []) \<and> ok = (0 < n)"
    by (rule rb_startRead_ok [OF exec_fields_buffer [OF at_fields [OF assms(1)]]])
  then show ?thesis
    unfolding buf_startRead_def wp_simps
    by (intro wp_exec [OF assms(1)]) (use r assms(2) in auto)
qed

lemma wp_buf_mem [loop_rules]:
  assumes "at us a d s"
    and "\<And>bs. bs = mem_read p n (rb_buf (ed_buffer d)) \<Longrightarrow> length bs \<le> n \<Longrightarrow> Q bs s"
  shows "wp (buf_mem a p n) Q s"
  unfolding buf_mem_def wp_simps
  by (rule wp_exec [OF assms(1)]) (rule assms(2), simp_all add: mem_read_def)

lemma wp_upd_buffer:
  assumes "at us a d s" "rb_inv (f (ed_buffer d))"
    and "\<And>s'. at us a (d\<lparr>ed_buffer := f (ed_buffer d)\<rparr>) s' \<Longrightarrow> Q () s'"
  shows "wp (upd a (\<lambda>d. d\<lparr>ed_buffer := f (ed_buffer d)\<rparr>)) Q s"
  by (rule wp_upd [OF assms(1)])
    (use at_fields [OF assms(1)] assms(2,3) in \<open>auto simp: keeps_links_def exec_fields_ok_def\<close>)

lemma wp_buf_store [loop_rules]:
  assumes "at us a d s" "p + length bs \<le> rb_bufSize (ed_buffer d)"
    and "\<And>s'. at us a (d\<lparr>ed_buffer := rb_store p bs (ed_buffer d)\<rparr>) s' \<Longrightarrow> Q () s'"
  shows "wp (buf_store a p bs) Q s"
  unfolding buf_store_def
  by (rule wp_upd_buffer [OF assms(1) rb_store_inv])
    (use at_fields [OF assms(1)] assms(2,3) in \<open>auto simp: exec_fields_ok_def\<close>)

lemma wp_buf_endWrite [loop_rules]:
  assumes "at us a d s" "rb_writeHead (ed_buffer d) + n \<le> rb_bufSize (ed_buffer d)"
    and "\<And>s'. at us a (d\<lparr>ed_buffer := rb_endWrite n (ed_buffer d)\<rparr>) s' \<Longrightarrow> Q () s'"
  shows "wp (buf_endWrite a n) Q s"
  unfolding buf_endWrite_def
  by (rule wp_upd_buffer [OF assms(1) rb_endWrite_inv])
    (use at_fields [OF assms(1)] assms(2,3) in \<open>auto simp: exec_fields_ok_def\<close>)

lemma wp_buf_endRead [loop_rules]:
  assumes "at us a d s" "rb_startRead (ed_buffer d) = (True, p, n)" "k \<le> n"
    and "\<And>b s'. b = rb_endRead k (ed_buffer d) \<Longrightarrow> rb_content b = drop k (rb_content (ed_buffer d)) \<Longrightarrow>
      at us a (d\<lparr>ed_buffer := b\<rparr>) s' \<Longrightarrow> Q () s'"
  shows "wp (buf_endRead a k) Q s"
  unfolding buf_endRead_def
  by (rule wp_upd_buffer [OF assms(1)])
    (use rb_read [OF exec_fields_buffer [OF at_fields [OF assms(1)]] assms(2,3)] assms(4) in auto)

text \<open>A buffer that does not wrap is read in one region.\<close>

definition rb_straight :: "ring \<Rightarrow> bool" where
  "rb_straight b \<longleftrightarrow> rb_readHead b \<le> rb_writeHead b"

lemma rb_straight_read:
  "rb_inv b \<Longrightarrow> rb_straight b \<Longrightarrow> rb_startRead b = (True, p, n) \<Longrightarrow> n = length (rb_content b)"
  by (auto simp: rb_straight_def rb_startRead_def rb_inv_def rb_content_def split: if_splits)

lemma rb_straight_endRead:
  "rb_inv b \<Longrightarrow> rb_straight b \<Longrightarrow> rb_startRead b = (True, p, n) \<Longrightarrow> k \<le> n \<Longrightarrow> rb_straight (rb_endRead k b)"
  by (auto simp: rb_straight_def rb_startRead_def rb_inv_def rb_endRead_def Let_def split: if_splits)

lemma rb_straight_clear [simp]: "rb_straight (rb_clear b)"
  by (simp add: rb_straight_def rb_clear_def)

lemma wp_buf_clear [loop_rules]:
  assumes "at us a d s" and "\<And>s'. at us a (d\<lparr>ed_buffer := rb_clear (ed_buffer d)\<rparr>) s' \<Longrightarrow> Q () s'"
  shows "wp (buf_clear a) Q s"
  unfolding buf_clear_def
  by (rule wp_upd_buffer [OF assms(1) rb_clear_inv])
    (use at_fields [OF assms(1)] assms(2) in \<open>auto simp: exec_fields_ok_def\<close>)

lemma rb_straight_init [simp]: "rb_straight (rb_init n b)"
  by (simp add: rb_straight_def rb_init_def)

lemma wp_buf_init [loop_rules]:
  assumes "at us a d s"
    and "\<And>b s'. rb_content b = [] \<Longrightarrow> rb_straight b \<Longrightarrow> at us a (d\<lparr>ed_buffer := b\<rparr>) s' \<Longrightarrow> Q () s'"
  shows "wp (buf_init a n) Q s"
  unfolding buf_init_def
  by (rule wp_upd_buffer [OF assms(1) rb_init_inv])
    (use at_fields [OF assms(1)] assms(2) [of "rb_init n (ed_buffer d)"] in \<open>auto simp: exec_fields_ok_def\<close>)

text \<open>The executor of data without a second registration may change.\<close>

lemma wp_upd_executor:
  "at us a d s \<Longrightarrow> ed_pollData1 d = None \<Longrightarrow> (\<And>s'. at us a (d\<lparr>ed_pExecutor := Some x\<rparr>) s' \<Longrightarrow> Q () s') \<Longrightarrow>
     wp (upd a (\<lambda>d. d\<lparr>ed_pExecutor := Some x\<rparr>)) Q s"
  by (rule wp_upd, assumption; use at_fields in \<open>fastforce simp: keeps_links_def exec_fields_ok_def\<close>)

lemma wp_retry [loop_rules]:
  "at us a d s \<Longrightarrow> (\<And>s'. at us a (d\<lparr>ed_retryCounter := ed_retryCounter d + 1\<rparr>) s' \<Longrightarrow> Q () s') \<Longrightarrow>
     wp (retry_inc a) Q s"
  "at us a d s \<Longrightarrow> (\<And>s'. at us a (d\<lparr>ed_retryCounter := 0\<rparr>) s' \<Longrightarrow> Q () s') \<Longrightarrow> wp (retry_reset a) Q s"
  unfolding retry_inc_def retry_reset_def
  by (rule wp_upd, assumption; use at_fields in \<open>fastforce simp: keeps_links_def exec_fields_ok_def\<close>)+

lemma wp_set_state [loop_rules]:
  "at us a d s \<Longrightarrow> ed_pExecutor d \<noteq> None \<Longrightarrow> (\<And>s'. at us a (d\<lparr>ed_state := st\<rparr>) s' \<Longrightarrow> Q () s') \<Longrightarrow>
     wp (set_state a st) Q s"
  unfolding set_state_def
  by (rule wp_upd, assumption; use at_fields in \<open>fastforce simp: keeps_links_def exec_fields_ok_def\<close>)

text \<open>Assignments that concern neither the links nor \<open>exec_fields_ok\<close>.\<close>

definition free_upd :: "(executor_data \<Rightarrow> executor_data) \<Rightarrow> bool" where
  "free_upd f \<longleftrightarrow> (\<forall>d. keeps_links d (f d) \<and> (exec_fields_ok d \<longrightarrow> exec_fields_ok (f d)))"

lemma free_upds:
  "free_upd (\<lambda>d. d\<lparr>ed_retryCounter := n d\<rparr>)" "free_upd (\<lambda>d. d\<lparr>ed_bytesToSend := n d\<rparr>)"
  "free_upd (\<lambda>d. d\<lparr>ed_filePosition := n d\<rparr>)" "free_upd (\<lambda>d. d\<lparr>ed_bytesInPipe := n d\<rparr>)"
  "free_upd (\<lambda>d. d\<lparr>ed_removeOnTimeout := b d\<rparr>)" "free_upd (\<lambda>d. d\<lparr>ed_connectionType := c d\<rparr>)"
  "free_upd (\<lambda>d. d\<lparr>ed_request := r d\<rparr>)" "free_upd (\<lambda>d. d\<lparr>ed_proxy := p d\<rparr>)"
  "free_upd (\<lambda>d. d\<lparr>ed_ssl := p d\<rparr>)" "free_upd (\<lambda>d. d\<lparr>ed_lastProcessTime := n d\<rparr>)"
  "free_upd (\<lambda>d. d\<lparr>ed_pipeReadFd := n d, ed_pipeWriteFd := n' d\<rparr>)" "free_upd (\<lambda>d. d\<lparr>ed_port := n d\<rparr>)"
  "free_upd (\<lambda>d. d\<lparr>ed_createTime := n d\<rparr>)"
  by (simp_all add: free_upd_def keeps_links_def exec_fields_ok_def is_proxy_def)

lemma wp_upd_free [loop_rules]:
  "at us a d s \<Longrightarrow> free_upd f \<Longrightarrow> (\<And>s'. at us a (f d) s' \<Longrightarrow> Q () s') \<Longrightarrow> wp (upd a f) Q s"
  by (rule wp_upd) (auto simp: free_upd_def dest: at_fields)

text \<open>A descriptor 1 that is not registered may be replaced.\<close>

lemma wp_upd_fd1:
  "at us a d s \<Longrightarrow> ed_pollData1 d = None \<Longrightarrow> (\<And>s'. at us a (d\<lparr>ed_fd1 := fd\<rparr>) s' \<Longrightarrow> Q () s') \<Longrightarrow>
     wp (upd a (\<lambda>d. d\<lparr>ed_fd1 := fd\<rparr>)) Q s"
  by (rule wp_upd, assumption; use at_fields in \<open>fastforce simp: keeps_links_def exec_fields_ok_def\<close>)

text \<open>
  The transfers. A virtual transfer is any one with these properties, which is what the proofs
  about the executors that call it need.
\<close>

definition read_ok :: "(nat \<Rightarrow> nat \<Rightarrow> nat \<Rightarrow> ('w poll_loop, int \<times> int) state) \<Rightarrow> bool" where
  "read_ok readFd0 \<longleftrightarrow> (\<forall>us a d s p n Q. at us a d s \<longrightarrow> p + n \<le> rb_bufSize (ed_buffer d) \<longrightarrow>
     (\<forall>r e s'. r \<le> 0 \<longrightarrow> at us a d s' \<longrightarrow> Q (r, e) s') \<longrightarrow>
     (\<forall>r bs s'. 0 < r \<longrightarrow> r = int (length bs) \<longrightarrow> length bs \<le> n \<longrightarrow>
        at us a (d\<lparr>ed_buffer := rb_store p bs (ed_buffer d)\<rparr>) s' \<longrightarrow> Q (r, 0) s') \<longrightarrow>
     wp (readFd0 a p n) Q s)"

definition write_ok :: "(nat \<Rightarrow> string \<Rightarrow> ('w poll_loop, int \<times> int) state) \<Rightarrow> bool" where
  "write_ok writeFd0 \<longleftrightarrow> (\<forall>us a d s bs Q. at us a d s \<longrightarrow>
     (\<forall>r e s'. r \<le> int (length bs) \<longrightarrow> at us a d s' \<longrightarrow> Q (r, e) s') \<longrightarrow> wp (writeFd0 a bs) Q s)"

lemma io_okD:
  fixes os :: "'w os"
  assumes "io_ok os"
  shows "os_read os fd n w = ((r, bs), w') \<Longrightarrow> r \<le> int n" "os_read os fd n w = ((r, bs), w') \<Longrightarrow> 0 < r \<Longrightarrow> int (length bs) = r"
    "os_write os fd bs w = (r, w') \<Longrightarrow> r \<le> int (length bs)"
    "os_SSL_read os ssl n w = ((r, bs), w') \<Longrightarrow> r \<le> int n"
    "os_SSL_read os ssl n w = ((r, bs), w') \<Longrightarrow> 0 < r \<Longrightarrow> int (length bs) = r"
    "os_SSL_write os ssl bs w = (r, w') \<Longrightarrow> r \<le> int (length bs)"
  using assms unfolding io_ok_def by fast+

lemma wp_Executor_readFd0:
  fixes os :: "'w os"
  assumes os: "io_ok os" and s: "at us a d s" and pn: "p + n \<le> rb_bufSize (ed_buffer d)"
    and le: "\<And>r e s'. r \<le> 0 \<Longrightarrow> at us a d s' \<Longrightarrow> Q (r, e) s'"
    and gt: "\<And>r bs s'. 0 < r \<Longrightarrow> r = int (length bs) \<Longrightarrow> length bs \<le> n \<Longrightarrow>
        at us a (d\<lparr>ed_buffer := rb_store p bs (ed_buffer d)\<rparr>) s' \<Longrightarrow> Q (r, 0) s'"
  shows "wp (Executor_readFd0 os a p n) Q s"
  unfolding Executor_readFd0_def wp_simps
proof (rule wp_exec [OF s], rule wp_sys_at [OF s], intro impI conjI)
  fix r w and s' :: "'w poll_loop"
  assume r: "os_read os (ed_fd0 d) n (pl_world s) = (r, w)" and s': "at us a d s'"
  obtain r1 bs where r1: "r = (r1, bs)" by fastforce
  show "wp (buf_store a p (snd r)) (\<lambda>_. Q (fst r, 0)) s'" if "0 < fst r"
  proof -
    have l: "length bs \<le> n" "int (length bs) = r1" using io_okD(1,2) [OF os] r r1 that by force+
    show ?thesis by (rule wp_buf_store [OF s']) (use gt l that pn r1 in auto)
  qed
  show "wp (errno os) (\<lambda>e. Q (fst r, e)) s'" if "\<not> 0 < fst r"
    using that by (intro wp_errno [OF s']) (use le s' in auto)
qed

lemma wp_Executor_writeFd0:
  fixes os :: "'w os"
  assumes os: "io_ok os" and s: "at us a d s"
    and Q: "\<And>r e s'. r \<le> int (length bs) \<Longrightarrow> at us a d s' \<Longrightarrow> Q (r, e) s'"
  shows "wp (Executor_writeFd0 os a bs) Q s"
  unfolding Executor_writeFd0_def wp_simps
proof (rule wp_exec [OF s], rule wp_sys_at [OF s], intro impI conjI)
  fix r w and s' :: "'w poll_loop"
  assume "os_write os (ed_fd0 d) bs (pl_world s) = (r, w)" and s': "at us a d s'"
  then have r: "r \<le> int (length bs)" using io_okD(3) [OF os] by blast
  then show "Q (r, 0) s'" "wp (errno os) (\<lambda>ra. Q (r, ra)) s'"
    using Q s' by (auto intro!: wp_errno [OF s'])
qed

lemma read_ok_Executor: "io_ok os \<Longrightarrow> read_ok (Executor_readFd0 os)"
  unfolding read_ok_def by (intro allI impI, rule wp_Executor_readFd0) (assumption | blast)+

lemma write_ok_Executor: "io_ok os \<Longrightarrow> write_ok (Executor_writeFd0 os)"
  unfolding write_ok_def by (intro allI impI, rule wp_Executor_writeFd0) auto

text \<open>The same properties as rules.\<close>

lemma read_okD:
  assumes "read_ok readFd0" "at us a d s" "p + n \<le> rb_bufSize (ed_buffer d)"
    and "\<And>r e s'. r \<le> 0 \<Longrightarrow> at us a d s' \<Longrightarrow> Q (r, e) s'"
    and "\<And>r bs s'. 0 < r \<Longrightarrow> r = int (length bs) \<Longrightarrow> length bs \<le> n \<Longrightarrow>
        at us a (d\<lparr>ed_buffer := rb_store p bs (ed_buffer d)\<rparr>) s' \<Longrightarrow> Q (r, 0) s'"
  shows "wp (readFd0 a p n) Q s"
  using assms unfolding read_ok_def by blast

lemma write_okD:
  assumes "write_ok writeFd0" "at us a d s"
    and "\<And>r e s'. r \<le> int (length bs) \<Longrightarrow> at us a d s' \<Longrightarrow> Q (r, e) s'"
  shows "wp (writeFd0 a bs) Q s"
  using assms unfolding write_ok_def by blast

text \<open>The calls that transfer bytes.\<close>

lemma wp_os_write:
  fixes s :: "'w poll_loop"
  assumes "io_ok os" "at us a d s" and "\<And>r s'. r \<le> int (length bs) \<Longrightarrow> at us a d s' \<Longrightarrow> Q r s'"
  shows "wp (sys (os_write os fd bs)) Q s"
  by (rule wp_sys_at [OF assms(2)]) (auto intro: assms(3) io_okD(3) [OF assms(1)])

lemma wp_os_read:
  fixes s :: "'w poll_loop"
  assumes "io_ok os" "at us a d s"
    and "\<And>r bs s'. r \<le> int n \<Longrightarrow> (0 < r \<Longrightarrow> r = int (length bs)) \<Longrightarrow> at us a d s' \<Longrightarrow> Q (r, bs) s'"
  shows "wp (sys (os_read os fd n)) Q s"
proof (rule wp_sys_at [OF assms(2)])
  fix r w and s' :: "'w poll_loop"
  assume r: "os_read os fd n (pl_world s) = (r, w)" and s': "at us a d s'"
  obtain r1 bs where r1: "r = (r1, bs)" by fastforce
  then show "Q r s'" using io_okD(1,2) [OF assms(1)] r s' assms(3) by metis
qed

lemma wp_os_SSL_write:
  fixes s :: "'w poll_loop"
  assumes "io_ok os" "at us a d s" and "\<And>r s'. r \<le> int (length bs) \<Longrightarrow> at us a d s' \<Longrightarrow> Q r s'"
  shows "wp (sys (os_SSL_write os ssl bs)) Q s"
  by (rule wp_sys_at [OF assms(2)]) (auto intro: assms(3) io_okD(6) [OF assms(1)])

text \<open>Closing a proof about an executor: the data it ends with, and what holds of them.\<close>

lemma at_exI: "at us a d s \<Longrightarrow> P d \<Longrightarrow> \<exists>d'. at us a d' s \<and> P d'"
  by blast

lemma wp_gets_at [loop_rules]: "Q (f s) s \<Longrightarrow> wp (gets f) Q s"
  by (simp add: wp_simps)

section \<open>The contract\<close>

text \<open>
  \<open>up\<close> starts an executor whose data the loop has prepared (\<open>ready\<close>); \<open>process\<close> handles one
  event of an executor that is the current one of its data (\<open>mine\<close>). Either may fail, but
  neither may break the loop's data, and both leave the executor's own data in place for the loop
  to remove; a listening executor may add new ones.
\<close>

definition in_loop :: "nat list \<Rightarrow> nat \<Rightarrow> 'w poll_loop \<Rightarrow> bool" where
  "in_loop us a s \<longleftrightarrow> (\<exists>bs d. at (bs @ us) a d s)"

lemma in_loopI: "at us a d s \<Longrightarrow> in_loop us a s"
  unfolding in_loop_def by (rule exI [of _ "[]"]) auto

locale executor =
  fixes os :: "'w os"
    and up :: "nat \<Rightarrow> ('w poll_loop, int) state"
    and process :: "nat \<Rightarrow> int \<Rightarrow> 32 word \<Rightarrow> ('w poll_loop, 'r) state"
    and ready :: "executor_data \<Rightarrow> bool"
    and mine :: "executor_data \<Rightarrow> bool"
  assumes up_at: "os_ok os \<Longrightarrow> at us a d s \<Longrightarrow> ready d \<Longrightarrow> wp (up a) (\<lambda>_ s'. \<exists>d'. at us a d' s') s"
    and process_in: "os_ok os \<Longrightarrow> at us a d s \<Longrightarrow> mine d \<Longrightarrow> wp (process a fd ev) (\<lambda>_. in_loop us a) s"

end
