(* ===== verification/HttpResponse.thy ===== *)
theory HttpResponse
  imports Prelude
begin

text \<open>
  \<open>src/HttpResponse.cpp\<close>: the three responses. Each writes into \<open>size\<close> bytes at \<open>buffer\<close>
  with \<open>snprintf\<close> and returns the length of the text, or \<open>-1\<close> when it did not fit. The model
  returns that number and the bytes stored at \<open>buffer\<close>, the terminating zero included.
\<close>

definition EOL :: string where "EOL = [CR, LF]"

definition snprintf :: "nat \<Rightarrow> string \<Rightarrow> int \<times> string" where
  "snprintf sz text = (int (length text), if sz = 0 then [] else take (sz - 1) text @ [NUL])"

definition response_result :: "nat \<Rightarrow> string \<Rightarrow> int \<times> string" where
  "response_result sz text =
     (case snprintf sz text of (ret, stored) \<Rightarrow>
        if ret \<ge> int sz then (-1, stored) else (ret, stored))"

text \<open>\<open>date\<close> is \<open>strftime\<close> with the format \<open>RFC1123FMT\<close> on the time \<open>lastModified\<close> in UTC.\<close>

definition ok200_text :: "(int \<Rightarrow> string) \<Rightarrow> int \<Rightarrow> int \<Rightarrow> string" where
  "ok200_text date contentLength lastModified =
     ''HTTP/1.1 200 Ok'' @ EOL @ ''Content-Length: '' @ show_int contentLength @ EOL
     @ ''Last-Modified: '' @ date lastModified @ EOL @ ''Connection: close'' @ EOL @ EOL"

definition ok200 :: "(int \<Rightarrow> string) \<Rightarrow> nat \<Rightarrow> int \<Rightarrow> int \<Rightarrow> int \<times> string" where
  "ok200 date sz contentLength lastModified =
     response_result sz (ok200_text date contentLength lastModified)"

definition html404 :: string where
  "html404 = ''<html><head>'' @ ''<title>404 Not Found</title>'' @ ''</head><body>''
     @ ''<h1>Not Found</h1>'' @ ''<p>The requested URL was not found on this server.</p>''
     @ ''</body></html>''"

definition notFound404_text :: string where
  "notFound404_text = ''HTTP/1.1 404 Not Found'' @ EOL @ ''Content-Length: ''
     @ show_nat (length html404) @ EOL @ ''Connection: close'' @ EOL @ EOL @ html404"

definition notFound404 :: "nat \<Rightarrow> int \<times> string" where
  "notFound404 sz = response_result sz notFound404_text"

definition notModified304_text :: string where
  "notModified304_text = ''HTTP/1.1 304 Not Modified'' @ EOL @ ''Connection: close'' @ EOL @ EOL"

definition notModified304 :: "nat \<Rightarrow> int \<times> string" where
  "notModified304 sz = response_result sz notModified304_text"

text \<open>No response writes outside its area, and one that fits is the whole text.\<close>

lemma response_stored: "response_result sz text = (n, stored) \<Longrightarrow> length stored \<le> sz"
  by (auto simp: response_result_def snprintf_def split: if_splits)

lemma response_fits:
  assumes "response_result sz text = (n, stored)" "0 \<le> n"
  shows "n = int (length text)" "stored = text @ [NUL]" "nat n < sz"
proof -
  from assms have n: "n = int (length text)" and l: "length text < sz"
    and s: "stored = take (sz - 1) text @ [NUL]"
    by (auto simp: response_result_def snprintf_def split: if_splits)
  then show "n = int (length text)" "stored = text @ [NUL]" "nat n < sz" by auto
qed

lemma response_ok: "length text < sz \<Longrightarrow> response_result sz text = (int (length text), text @ [NUL])"
  by (simp add: response_result_def snprintf_def)

end
