(* ===== verification/FileExecutor.thy ===== *)
theory FileExecutor
  imports Executor HttpResponse
begin

text \<open>
  \<open>src/executors/FileExecutor.cpp\<close>: serves the file named in \<open>fileNameBuffer\<close>. Response headers
  go out through the connection's buffer, the file through \<open>sendfile\<close>. \<open>writeFd0\<close> is the virtual
  function that \<open>SslFileExecutor\<close> overrides.
\<close>

datatype http_code = HC_ok | HC_notModified | HC_notFound

text \<open>
  The common end of the two functions: a response function has stored its text at \<open>p\<close> and
  returned its length or \<open>-1\<close>.
\<close>

definition finish_response :: "nat \<Rightarrow> nat \<Rightarrow> int \<times> string \<Rightarrow> ('w poll_loop, int) state" where
  "finish_response a p response =
     (case response of (responseBytes, stored) \<Rightarrow> do {
        buf_store a p stored;
        if responseBytes < 0 then State_Monad.return (-1)
        else do { buf_endWrite a (nat responseBytes); State_Monad.return 0 }
      })"

definition createOkResponse :: "'w os \<Rightarrow> nat \<Rightarrow> int \<Rightarrow> ('w poll_loop, int) state" where
  "createOkResponse os a lastModified = do {
     buf_clear a;
     r \<leftarrow> buf_startWrite a;
     (case r of (ok, p, sz) \<Rightarrow>
       if ok then do {
         d \<leftarrow> exec a;
         finish_response a p (ok200 (os_http_date os) sz (ed_bytesToSend d) lastModified)
       }
       else State_Monad.return (-1))
   }"

definition createResponse :: "nat \<Rightarrow> http_code \<Rightarrow> ('w poll_loop, int) state" where
  "createResponse a statusCode = do {
     buf_clear a;
     r \<leftarrow> buf_startWrite a;
     (case r of (ok, p, sz) \<Rightarrow>
       if ok then
         (case statusCode of
            HC_notFound \<Rightarrow> finish_response a p (notFound404 sz)
          | HC_notModified \<Rightarrow> finish_response a p (notModified304 sz)
          | HC_ok \<Rightarrow> State_Monad.return (-1))
       else State_Monad.return (-1))
   }"

definition FileExecutor_up :: "'w os \<Rightarrow> nat \<Rightarrow> ('w poll_loop, int) state" where
  "FileExecutor_up os a = do {
     upd a (\<lambda>d. d\<lparr>ed_removeOnTimeout := True\<rparr>);
     name \<leftarrow> gets pl_fileNameBuffer;
     fd \<leftarrow> sys (os_open os name);
     upd a (\<lambda>d. d\<lparr>ed_fd1 := fd\<rparr>);
     if fd < 0 then do {
       e \<leftarrow> errno os;
       if e = ENOENT then do {
         rc \<leftarrow> createResponse a HC_notFound;
         if rc \<noteq> 0 then State_Monad.return (-1)
         else do {
           d \<leftarrow> exec a;
           rc \<leftarrow> editPollFd os a (ed_fd0 d) EPOLLOUT;
           if rc \<noteq> 0 then State_Monad.return (-1)
           else do { set_state a ES_sendOnlyHeaders; State_Monad.return 0 }
         }
       }
       else State_Monad.return (-1)
     }
     else do {
       st \<leftarrow> sys (os_fstat os fd);
       (case st of (rc, st_size, st_mtime) \<Rightarrow>
         if rc \<noteq> 0 then State_Monad.return (-1)
         else do {
           upd a (\<lambda>d. d\<lparr>ed_bytesToSend := st_size\<rparr>);
           d \<leftarrow> exec a;
           rc \<leftarrow> (if st_mtime \<le> getIfModifiedSince (os_http_time os) (ed_request d) then do {
                    rc \<leftarrow> createResponse a HC_notModified;
                    if rc \<noteq> 0 then State_Monad.return (-1 :: int)
                    else do { set_state a ES_sendOnlyHeaders; State_Monad.return 0 }
                  }
                  else do {
                    rc \<leftarrow> createOkResponse os a st_mtime;
                    if rc \<noteq> 0 then State_Monad.return (-1)
                    else do { set_state a ES_sendHeaders; State_Monad.return 0 }
                  });
           if rc \<noteq> 0 then State_Monad.return (-1)
           else do {
             rc \<leftarrow> editPollFd os a (ed_fd0 d) EPOLLOUT;
             if rc \<noteq> 0 then State_Monad.return (-1) else State_Monad.return 0
           }
         })
     }
   }"

definition process_sendHeaders :: "(nat \<Rightarrow> string \<Rightarrow> ('w poll_loop, int \<times> int) state) \<Rightarrow> nat
    \<Rightarrow> ('w poll_loop, process_result) state" where
  "process_sendHeaders writeFd0 a = do {
     r \<leftarrow> buf_startRead a;
     (case r of (ok, p, sz) \<Rightarrow>
       if ok then do {
         bytes \<leftarrow> buf_mem a p sz;
         r \<leftarrow> writeFd0 a bytes;
         (case r of (bytesWritten, errorCode) \<Rightarrow>
           if bytesWritten \<le> 0 then
             if errorCode \<noteq> EWOULDBLOCK \<and> errorCode \<noteq> EAGAIN \<and> errorCode \<noteq> EINTR
             then State_Monad.return PRES_removeExecutorError
             else do { retry_inc a; State_Monad.return PRES_ok }
           else do {
             retry_reset a;
             buf_endRead a (nat bytesWritten);
             if bytesWritten = int sz then do {
               buf_clear a;
               d \<leftarrow> exec a;
               if ed_state d = ES_sendOnlyHeaders then State_Monad.return PRES_removeExecutorOk
               else do { set_state a ES_sendFile; State_Monad.return PRES_ok }
             }
             else State_Monad.return PRES_ok
           })
       }
       else State_Monad.return PRES_removeExecutorError)
   }"

definition process_sendFile :: "'w os \<Rightarrow> nat \<Rightarrow> ('w poll_loop, process_result) state" where
  "process_sendFile os a = do {
     d \<leftarrow> exec a;
     r \<leftarrow> sys (os_sendfile os (ed_fd0 d) (ed_fd1 d) (ed_filePosition d) (ed_bytesToSend d));
     (case r of (bytesWritten, filePosition) \<Rightarrow> do {
       upd a (\<lambda>d. d\<lparr>ed_filePosition := filePosition\<rparr>);
       if bytesWritten \<le> 0 then do {
         e \<leftarrow> errno os;
         if e = EAGAIN \<or> e = EWOULDBLOCK then do { retry_inc a; State_Monad.return PRES_ok }
         else State_Monad.return PRES_removeExecutorError
       }
       else do {
         retry_reset a;
         upd a (\<lambda>d. d\<lparr>ed_bytesToSend := ed_bytesToSend d - bytesWritten\<rparr>);
         d \<leftarrow> exec a;
         if ed_bytesToSend d = 0 then State_Monad.return PRES_removeExecutorOk
         else State_Monad.return PRES_ok
       }
     })
   }"

definition FileExecutor_dispatch :: "(nat \<Rightarrow> string \<Rightarrow> ('w poll_loop, int \<times> int) state)
    \<Rightarrow> (nat \<Rightarrow> ('w poll_loop, process_result) state) \<Rightarrow> nat \<Rightarrow> int \<Rightarrow> 32 word
    \<Rightarrow> ('w poll_loop, process_result) state" where
  "FileExecutor_dispatch writeFd0 sendFile a fd events = do {
     d \<leftarrow> exec a;
     if (ed_state d = ES_sendHeaders \<or> ed_state d = ES_sendOnlyHeaders) \<and> fd = ed_fd0 d \<and> has events EPOLLOUT
     then process_sendHeaders writeFd0 a
     else if ed_state d = ES_sendFile \<and> fd = ed_fd0 d \<and> has events EPOLLOUT then sendFile a
     else State_Monad.return PRES_removeExecutorError
   }"

definition FileExecutor_process :: "'w os \<Rightarrow> nat \<Rightarrow> int \<Rightarrow> 32 word \<Rightarrow> ('w poll_loop, process_result) state" where
  "FileExecutor_process os = FileExecutor_dispatch (Executor_writeFd0 os) (process_sendFile os)"

section \<open>The responses in the buffer\<close>

lemma cleared_region:
  "rb_startWrite (rb_clear b0) = ((ok, p, n), b) \<Longrightarrow>
     b = rb_clear b0 \<and> p = 0 \<and> (ok \<longrightarrow> n = rb_bufSize b0) \<and> ok = (0 < rb_bufSize b0)"
  by (auto simp: rb_startWrite_def rb_clear_def Let_def split: if_splits)

lemma wp_finish_response:
  fixes s :: "'w poll_loop"
  assumes s: "at us a d s" and r: "rb_startWrite (rb_clear b0) = ((True, p, n), ed_buffer d)"
    and response: "response = response_result n text"
    and fail: "\<And>b s'. at us a (d\<lparr>ed_buffer := b\<rparr>) s' \<Longrightarrow> Q (-1) s'"
    and ok: "\<And>b s'. rb_content b = text \<Longrightarrow> rb_straight b \<Longrightarrow> at us a (d\<lparr>ed_buffer := b\<rparr>) s' \<Longrightarrow> Q 0 s'"
  shows "wp (finish_response a p response) Q s"
proof -
  have b: "ed_buffer d = rb_clear b0" "p = 0" "n = rb_bufSize b0" "0 < n"
    using cleared_region [OF r] by auto
  have inv: "rb_inv (rb_clear b0)" using at_fields [OF s] b(1) by (simp add: exec_fields_ok_def)
  obtain m stored where m: "response = (m, stored)" by fastforce
  have st: "length stored \<le> n" using response_stored response m by metis
  let ?b = "rb_store 0 stored (rb_clear b0)"
  show ?thesis
    unfolding finish_response_def m prod.case wp_simps
  proof (rule wp_buf_store [OF s], simp add: b st [unfolded b] rb_clear_def, intro conjI impI)
    fix s' :: "'w poll_loop" assume s': "at us a (d\<lparr>ed_buffer := rb_store p stored (ed_buffer d)\<rparr>) s'"
    then show "Q (-1) s'" by (rule fail)
    assume "\<not> m < 0"
    then have t: "m = int (length text)" "stored = text @ [NUL]" "nat m < n"
      using response_fits [of n "text" m stored] response m by simp_all
    have "rb_content (rb_endWrite (nat m) ?b) = text"
      using t inv by (simp add: rb_content_def rb_endWrite_def rb_store_def rb_clear_def mem_read_def mem_write_def)
    then show "wp (buf_endWrite a (nat m)) (\<lambda>_. Q 0) s'"
      by (intro wp_buf_endWrite [OF s']) (use b t in \<open>auto simp: rb_clear_def rb_straight_def rb_endWrite_def rb_store_def intro!: ok\<close>)
  qed
qed

text \<open>Both functions leave the whole response in the buffer, and nothing else, or fail.\<close>

lemma wp_createOkResponse:
  fixes s :: "'w poll_loop"
  assumes s: "at us a d s"
    and fail: "\<And>b s'. at us a (d\<lparr>ed_buffer := b\<rparr>) s' \<Longrightarrow> Q (-1) s'"
    and ok: "\<And>b s'. rb_content b = ok200_text (os_http_date os) (ed_bytesToSend d) t \<Longrightarrow>
      rb_straight b \<Longrightarrow> at us a (d\<lparr>ed_buffer := b\<rparr>) s' \<Longrightarrow> Q 0 s'"
  shows "wp (createOkResponse os a t) Q s"
  unfolding createOkResponse_def wp_simps
proof (rule wp_buf_clear [OF s], rule wp_buf_startWrite, assumption, intro conjI impI)
  fix s1 s2 :: "'w poll_loop" and okf p n b
  assume r: "rb_startWrite (ed_buffer (d\<lparr>ed_buffer := rb_clear (ed_buffer d)\<rparr>)) = ((okf, p, n), b)"
    and s2: "at us a (d\<lparr>ed_buffer := rb_clear (ed_buffer d), ed_buffer := b\<rparr>) s2"
  then have s3: "at us a (d\<lparr>ed_buffer := b\<rparr>) s2" by simp
  show "Q (-1) s2" by (rule fail [OF s3])
  assume "fst (okf, p, n)"
  then have r': "rb_startWrite (rb_clear (ed_buffer d)) = ((True, p, n), b)" using r by simp
  show "wp (exec a) (\<lambda>r. wp (finish_response a (fst (snd (okf, p, n)))
      (ok200 (os_http_date os) (snd (snd (okf, p, n))) (ed_bytesToSend r) t)) Q) s2"
    by (rule wp_exec [OF s3], rule wp_finish_response [OF s3, of "ed_buffer d" _ n])
      (use r' in \<open>auto simp: ok200_def intro: fail ok\<close>)
qed

lemma wp_createResponse:
  fixes s :: "'w poll_loop"
  assumes s: "at us a d s"
    and fail: "\<And>b s'. at us a (d\<lparr>ed_buffer := b\<rparr>) s' \<Longrightarrow> Q (-1) s'"
    and ok: "\<And>b s'. rb_content b = (case c of HC_notFound \<Rightarrow> notFound404_text | _ \<Rightarrow> notModified304_text) \<Longrightarrow>
      rb_straight b \<Longrightarrow> at us a (d\<lparr>ed_buffer := b\<rparr>) s' \<Longrightarrow> Q 0 s'"
  shows "wp (createResponse a c) Q s"
  unfolding createResponse_def wp_simps
proof (rule wp_buf_clear [OF s], rule wp_buf_startWrite, assumption, intro conjI impI)
  fix s1 s2 :: "'w poll_loop" and okf p n b
  assume r: "rb_startWrite (ed_buffer (d\<lparr>ed_buffer := rb_clear (ed_buffer d)\<rparr>)) = ((okf, p, n), b)"
    and s2: "at us a (d\<lparr>ed_buffer := rb_clear (ed_buffer d), ed_buffer := b\<rparr>) s2"
  then have s3: "at us a (d\<lparr>ed_buffer := b\<rparr>) s2" by simp
  show "Q (-1) s2" by (rule fail [OF s3])
  assume "fst (okf, p, n)"
  then have r': "rb_startWrite (rb_clear (ed_buffer d)) = ((True, p, n), b)" using r by simp
  show "wp (case c of HC_ok \<Rightarrow> State_Monad.return (-1)
      | HC_notModified \<Rightarrow> finish_response a (fst (snd (okf, p, n))) (notModified304 (snd (snd (okf, p, n))))
      | HC_notFound \<Rightarrow> finish_response a (fst (snd (okf, p, n))) (notFound404 (snd (snd (okf, p, n))))) Q s2"
  proof (cases c)
    case HC_ok
    then show ?thesis using fail [OF s3] by (simp add: wp_simps)
  next
    case HC_notModified
    then show ?thesis
      using r' by (auto simp: notModified304_def intro!: wp_finish_response [OF s3, of "ed_buffer d" _ n] intro: fail ok)
  next
    case HC_notFound
    then show ?thesis
      using r' by (auto simp: notFound404_def intro!: wp_finish_response [OF s3, of "ed_buffer d" _ n] intro: fail ok)
  qed
qed

section \<open>Starting\<close>

text \<open>
  A started file executor has a complete response in its buffer: headers that announce the bytes
  it is going to send, when the file is newer than the client's copy, and a response without a
  body otherwise.
\<close>

definition file_started :: "'w os \<Rightarrow> executor_data \<Rightarrow> bool" where
  "file_started os d \<longleftrightarrow> rb_straight (ed_buffer d) \<and> (
     (ed_state d = ES_sendHeaders \<and> (\<exists>t. getIfModifiedSince (os_http_time os) (ed_request d) < t
        \<and> rb_content (ed_buffer d) = ok200_text (os_http_date os) (ed_bytesToSend d) t))
   \<or> (ed_state d = ES_sendOnlyHeaders
        \<and> (rb_content (ed_buffer d) = notFound404_text \<or> rb_content (ed_buffer d) = notModified304_text)))"

lemma file_startedI:
  "rb_straight (ed_buffer d) \<Longrightarrow> ed_state d = ES_sendHeaders \<Longrightarrow>
     rb_content (ed_buffer d) = ok200_text (os_http_date os) (ed_bytesToSend d) t \<Longrightarrow>
     \<not> t \<le> getIfModifiedSince (os_http_time os) (ed_request d) \<Longrightarrow> file_started os d"
  unfolding file_started_def not_le by blast

definition file_ready :: "executor \<Rightarrow> executor_data \<Rightarrow> bool" where
  "file_ready x d \<longleftrightarrow> ed_pExecutor d = Some x \<and> ed_pollData1 d = None"

lemma FileExecutor_up_at:
  assumes "at us a d s" "ed_pExecutor d \<noteq> None" "ed_pollData1 d = None"
  shows "wp (FileExecutor_up os a) (\<lambda>r s'. \<exists>d'. at us a d' s' \<and> (r = 0 \<longrightarrow> file_started os d')) s"
  using assms unfolding FileExecutor_up_def wp_simps
  apply -
  apply (intro conjI impI allI | rule wp_upd_fd1 loop_rules wp_createOkResponse wp_createResponse free_upds at_exI | assumption
      | (auto simp: file_started_def; fail) | (rule file_startedI; simp; fail))+
  done

section \<open>Sending\<close>

text \<open>
  The headers leave the buffer from its front; the executor turns to the file when all of them
  are gone.
\<close>

lemma sendHeaders_at:
  assumes w: "write_ok w" and "at us a d s" "ed_pExecutor d \<noteq> None"
  shows "wp (process_sendHeaders w a) (\<lambda>r s'. \<exists>d'. at us a d' s' \<and> (rb_straight (ed_buffer d) \<longrightarrow>
     rb_straight (ed_buffer d') \<and> suffix (rb_content (ed_buffer d')) (rb_content (ed_buffer d))
     \<and> (ed_state d' \<noteq> ed_state d \<or> r = PRES_removeExecutorOk \<longrightarrow> rb_content (ed_buffer d') = []))) s"
proof -
  note b = exec_fields_buffer [OF at_fields [OF assms(2)]]
  note st = rb_straight_read [OF b] rb_straight_endRead [OF b]
  show ?thesis
    using assms(2,3) unfolding process_sendHeaders_def wp_simps
    by - (intro conjI impI allI | rule loop_rules write_okD [OF w] free_upds at_exI | assumption
      | (auto simp: st suffix_drop; fail))+
qed

lemma sendfile_okD:
  "sendfile_ok os \<Longrightarrow> os_sendfile os o_fd i_fd off n w = (r, w') \<Longrightarrow> fst r \<le> n \<and> snd r = off + max 0 (fst r)"
  unfolding sendfile_ok_def by (metis prod.collapse)

text \<open>
  What has been sent and what is still to send add up to the size of the file, so that the
  executor ends with success exactly when the last byte is out.
\<close>

lemma sendFile_at:
  "at us a d s \<Longrightarrow> wp (process_sendFile os a) (\<lambda>r s'. \<exists>d'. at us a d' s' \<and> (sendfile_ok os \<longrightarrow>
     ed_filePosition d' + ed_bytesToSend d' = ed_filePosition d + ed_bytesToSend d
     \<and> ed_bytesToSend d' \<le> ed_bytesToSend d
     \<and> (0 \<le> ed_bytesToSend d \<longrightarrow> 0 \<le> ed_bytesToSend d')
     \<and> (r = PRES_removeExecutorOk \<longrightarrow> ed_bytesToSend d' = 0 \<and> 0 < ed_bytesToSend d))) s"
  unfolding process_sendFile_def wp_simps
  by (intro conjI impI allI | rule loop_rules free_upds at_exI | assumption
    | (drule (1) sendfile_okD, auto simp: max_def; fail) | (simp; fail))+

section \<open>The contract\<close>

lemma FileExecutor_dispatch_at:
  assumes w: "write_ok w" and s: "at us a d s" "ed_pExecutor d \<noteq> None"
    and send: "\<And>s. at us a d s \<Longrightarrow> wp (sendFile a) (\<lambda>_ s'. \<exists>d'. at us a d' s') s"
  shows "wp (FileExecutor_dispatch w sendFile a fd ev) (\<lambda>_. in_loop us a) s"
  unfolding FileExecutor_dispatch_def wp_simps
  by (rule wp_exec [OF s(1)], intro conjI impI)
    (auto intro: wp_mono [OF sendHeaders_at [OF w s]] wp_mono [OF send [OF s(1)]] in_loopI [OF s(1)] in_loopI)

interpretation file_exec: executor os "FileExecutor_up os" "FileExecutor_process os" "file_ready X_file"
    "\<lambda>d. ed_pExecutor d = Some X_file"
  for os
proof (unfold_locales, goal_cases)
  case (1 us a d s)
  then show ?case
    by (intro wp_mono [OF FileExecutor_up_at]) (auto simp: file_ready_def)
next
  case (2 us a d s fd ev)
  then show ?case
    unfolding FileExecutor_process_def os_ok_def
    by (intro FileExecutor_dispatch_at write_ok_Executor wp_mono [OF sendFile_at]) auto
qed

end
