(* ===== verification/NetworkUtils.thy ===== *)
theory NetworkUtils
  imports PollLoopInv
begin

text \<open>
  \<open>src/utils/NetworkUtils.cpp\<close>: opening, connecting and listening sockets, with every path that
  closes the socket again.
\<close>

definition SUN_PATH_SIZE :: nat where "SUN_PATH_SIZE = 108"

text \<open>The result is the socket and the out parameter \<open>connected\<close>.\<close>

definition socketConnectNonBlock :: "'w os \<Rightarrow> string \<Rightarrow> int \<Rightarrow> ('w poll_loop, int \<times> bool) state" where
  "socketConnectNonBlock os address port = do {
     sock \<leftarrow> sys (os_socket os AF_INET True);
     if sock < 0 then State_Monad.return (-1, False)
     else do {
       rc \<leftarrow> sys (os_connect_inet os sock address port);
       if rc \<noteq> 0 then do {
         e \<leftarrow> errno os;
         if e \<noteq> EINPROGRESS then do { sys (os_close os sock); State_Monad.return (-1, False) }
         else State_Monad.return (sock, False)
       }
       else State_Monad.return (sock, True)
     }
   }"

definition socketConnectUnixNonBlock :: "'w os \<Rightarrow> string \<Rightarrow> ('w poll_loop, int \<times> bool) state" where
  "socketConnectUnixNonBlock os path =
     (if length path \<ge> SUN_PATH_SIZE then State_Monad.return (-1, False)
      else do {
        sock \<leftarrow> sys (os_socket os AF_UNIX True);
        if sock < 0 then State_Monad.return (-1, False)
        else do {
          rc \<leftarrow> sys (os_connect_unix os sock path);
          if rc \<noteq> 0 then do {
            e \<leftarrow> errno os;
            if e \<noteq> EINPROGRESS then do { sys (os_close os sock); State_Monad.return (-1, False) }
            else State_Monad.return (sock, False)
          }
          else State_Monad.return (sock, True)
        }
      })"

definition socketConnectNonBlockCheck :: "'w os \<Rightarrow> int \<Rightarrow> ('w poll_loop, int) state" where
  "socketConnectNonBlockCheck os fd = do {
     r \<leftarrow> sys (os_getsockopt_error os fd);
     (case r of (rc, socketError) \<Rightarrow>
       if rc \<noteq> 0 then do { e \<leftarrow> errno os; State_Monad.return e }
       else State_Monad.return socketError)
   }"

text \<open>
  \<open>setNonBlock\<close>, which no other file calls: \<open>getfl fd\<close> and \<open>setfl fd flags\<close> are \<open>fcntl\<close> with \<open>F_GETFL\<close> and
  \<open>F_SETFL\<close>.
\<close>

definition O_NONBLOCK :: int where "O_NONBLOCK = 0x800"

definition setNonBlock :: "(int \<Rightarrow> 'w \<Rightarrow> int \<times> 'w) \<Rightarrow> (int \<Rightarrow> int \<Rightarrow> 'w \<Rightarrow> int \<times> 'w) \<Rightarrow> int
    \<Rightarrow> ('w poll_loop, int) state" where
  "setNonBlock getfl setfl fd = do {
     flags \<leftarrow> sys (getfl fd);
     if flags < 0 then State_Monad.return (-1)
     else do {
       rc \<leftarrow> sys (setfl fd (flags OR O_NONBLOCK));
       if rc < 0 then State_Monad.return (-1) else State_Monad.return 0
     }
   }"

definition socketListen :: "'w os \<Rightarrow> int \<Rightarrow> ('w poll_loop, int) state" where
  "socketListen os port = do {
     sockfd \<leftarrow> sys (os_socket os AF_INET False);
     if sockfd < 0 then State_Monad.return (-1)
     else do {
       rc \<leftarrow> sys (os_setsockopt_reuseaddr os sockfd);
       if rc \<noteq> 0 then do { sys (os_close os sockfd); State_Monad.return (-1) }
       else do {
         rc \<leftarrow> sys (os_bind os sockfd port);
         if rc \<noteq> 0 then do { sys (os_close os sockfd); State_Monad.return (-1) }
         else do {
           rc \<leftarrow> sys (os_listen os sockfd 1000);
           if rc \<noteq> 0 then do { sys (os_close os sockfd); State_Monad.return (-1) }
           else State_Monad.return sockfd
         }
       }
     }
   }"

text \<open>
  These functions change nothing but the world.
\<close>

definition world_only :: "('w poll_loop, 'a) state \<Rightarrow> bool" where
  "world_only m \<longleftrightarrow> (\<forall>s. \<exists>w. snd (run_state m s) = s\<lparr>pl_world := w\<rparr>)"

lemma world_only_sys: "world_only (sys f)"
  by (auto simp: world_only_def sys_def split: prod.splits)

lemma same_world: "\<exists>w. s = s\<lparr>pl_world := w\<rparr>"
  by (rule exI [of _ "pl_world s"]) simp

lemma world_only_return: "world_only (State_Monad.return x)"
  by (simp add: world_only_def same_world)

lemma world_only_errno: "world_only (errno os)"
  by (simp add: world_only_def errno_def same_world)

lemma world_only_bind:
  assumes "world_only m" "\<And>x. world_only (f x)"
  shows "world_only (State_Monad.bind m f)"
  unfolding world_only_def
proof
  fix s
  obtain x s1 where m: "run_state m s = (x, s1)" by fastforce
  obtain w where w: "s1 = s\<lparr>pl_world := w\<rparr>" using assms(1) m unfolding world_only_def by (metis snd_conv)
  obtain w' where "snd (run_state (f x) s1) = s1\<lparr>pl_world := w'\<rparr>"
    using assms(2) unfolding world_only_def by blast
  then have "snd (run_state (State_Monad.bind m f) s) = s\<lparr>pl_world := w'\<rparr>" by (simp add: m w)
  then show "\<exists>w. snd (run_state (State_Monad.bind m f) s) = s\<lparr>pl_world := w\<rparr>" by blast
qed

lemma world_only_if: "(b \<Longrightarrow> world_only m) \<Longrightarrow> (\<not> b \<Longrightarrow> world_only n) \<Longrightarrow> world_only (if b then m else n)"
  by simp

lemma world_only_prod: "(\<And>a b. world_only (f a b)) \<Longrightarrow> world_only (case x of (a, b) \<Rightarrow> f a b)"
  by (cases x) simp

lemmas world_only_intros = world_only_sys world_only_return world_only_errno world_only_bind
  world_only_if world_only_prod

lemma network_world_only:
  "world_only (socketConnectNonBlock os address port)" "world_only (socketConnectUnixNonBlock os path)"
  "world_only (socketConnectNonBlockCheck os fd)" "world_only (socketListen os port)"
  unfolding socketConnectNonBlock_def socketConnectUnixNonBlock_def socketConnectNonBlockCheck_def
    socketListen_def
  by (intro world_only_intros)+

lemma setNonBlock_world_only: "world_only (setNonBlock getfl setfl fd)"
  unfolding setNonBlock_def by (intro world_only_intros)

lemma wp_world_only:
  fixes s :: "'w poll_loop"
  assumes "world_only m" "at us a d s" and "\<And>r s'. at us a d s' \<Longrightarrow> Q r s'"
  shows "wp m Q s"
proof -
  obtain r s' where m: "run_state m s = (r, s')" by fastforce
  then obtain w where "s' = s\<lparr>pl_world := w\<rparr>" using assms(1) unfolding world_only_def by (metis snd_conv)
  then show ?thesis using assms(2,3) m by (simp add: wp_def)
qed

lemmas network_rules = network_world_only [THEN wp_world_only]

end
