(* ===== verification/ProxyExecutorReadWrite.thy ===== *)
theory ProxyExecutorReadWrite
  imports FileExecutor NetworkUtils
begin

text \<open>
  \<open>src/executors/ProxyExecutorReadWrite.cpp\<close>: forwards a parsed request, which is still in the
  connection's buffer, to the server that the proxy parameters name, and the response back to the
  client through the same buffer. \<open>writeFd0\<close> is the virtual function that \<open>SslProxyExecutor\<close>
  overrides.

  \<open>proxy\<close> is an index into the vector of proxy parameters; \<open>RequestExecutor::findProxy\<close> is the
  only place that sets it and gives an index inside the vector.
\<close>

section \<open>Starting\<close>

definition ProxyExecutorReadWrite_up :: "'w os \<Rightarrow> nat \<Rightarrow> ('w poll_loop, int) state" where
  "ProxyExecutorReadWrite_up os a = do {
     upd a (\<lambda>d. d\<lparr>ed_removeOnTimeout := True\<rparr>);
     d \<leftarrow> exec a;
     case ed_proxy d of
       None \<Rightarrow> State_Monad.return (-1)
     | Some i \<Rightarrow> do {
         px \<leftarrow> gets (\<lambda>s. sp_proxies (pl_parameters s) ! i);
         if px_socketType px = ST_none then State_Monad.return (-1)
         else do {
           r \<leftarrow> (if px_socketType px = ST_tcp then socketConnectNonBlock os (px_address px) (px_port px)
                 else socketConnectUnixNonBlock os (px_address px));
           (case r of (fd1, connected) \<Rightarrow> do {
             upd a (\<lambda>d. d\<lparr>ed_fd1 := fd1\<rparr>);
             if fd1 < 0 then State_Monad.return (-1)
             else do {
               rc \<leftarrow> addPollFd os a fd1 EPOLLOUT;
               if rc \<noteq> 0 then State_Monad.return (-1)
               else do {
                 d \<leftarrow> exec a;
                 rc \<leftarrow> removePollFd os a (ed_fd0 d);
                 if rc \<noteq> 0 then State_Monad.return (-1)
                 else do {
                   set_state a (if connected then ES_forwardRequest else ES_waitConnect);
                   State_Monad.return 0
                 }
               }
             }
           })
         }
       }
   }"

section \<open>Handlers\<close>

definition process_forwardRequest :: "'w os \<Rightarrow> nat \<Rightarrow> ('w poll_loop, process_result) state" where
  "process_forwardRequest os a = do {
     r \<leftarrow> buf_startRead a;
     (case r of (ok, p, sz) \<Rightarrow>
       if ok then do {
         bytes \<leftarrow> buf_mem a p sz;
         d \<leftarrow> exec a;
         bytesWritten \<leftarrow> sys (os_write os (ed_fd1 d) bytes);
         if bytesWritten \<le> 0 then do {
           e \<leftarrow> errno os;
           if e = EAGAIN \<or> e = EWOULDBLOCK then do { retry_inc a; State_Monad.return PRES_ok }
           else State_Monad.return PRES_removeExecutorError
         }
         else do {
           retry_reset a;
           buf_endRead a (nat bytesWritten);
           if bytesWritten = int sz then do {
             buf_clear a;
             set_state a ES_forwardResponse;
             d \<leftarrow> exec a;
             rc \<leftarrow> editPollFd os a (ed_fd1 d) EPOLLIN;
             if rc \<noteq> 0 then State_Monad.return PRES_removeExecutorError
             else State_Monad.return PRES_ok
           }
           else State_Monad.return PRES_ok
         }
       }
       else State_Monad.return PRES_removeExecutorError)
   }"

definition process_forwardResponseWrite :: "'w os \<Rightarrow> (nat \<Rightarrow> string \<Rightarrow> ('w poll_loop, int \<times> int) state)
    \<Rightarrow> nat \<Rightarrow> ('w poll_loop, process_result) state" where
  "process_forwardResponseWrite os writeFd0 a = do {
     r \<leftarrow> buf_startRead a;
     (case r of (ok, p, sz) \<Rightarrow>
       if ok then do {
         bytes \<leftarrow> buf_mem a p sz;
         r \<leftarrow> writeFd0 a bytes;
         (case r of (bytesWritten, errorCode) \<Rightarrow>
           if bytesWritten \<le> 0 then
             if errorCode = EAGAIN \<or> errorCode = EWOULDBLOCK then do {
               d \<leftarrow> exec a;
               rc \<leftarrow> (if ed_pollData0 d = None then addPollFd os a (ed_fd0 d) EPOLLOUT
                      else State_Monad.return 0);
               if rc \<noteq> 0 then State_Monad.return PRES_removeExecutorError
               else do { retry_inc a; State_Monad.return PRES_ok }
             }
             else State_Monad.return PRES_removeExecutorError
           else do {
             retry_reset a;
             buf_endRead a (nat bytesWritten);
             d \<leftarrow> exec a;
             if ed_state d = ES_forwardResponseOnlyWrite \<and> \<not> rb_readAvailable (ed_buffer d)
             then State_Monad.return PRES_removeExecutorOk
             else do {
               rc \<leftarrow> (if ed_pollData1 d = None \<and> ed_state d = ES_forwardResponse
                      then addPollFd os a (ed_fd1 d) EPOLLIN else State_Monad.return 0);
               if rc \<noteq> 0 then State_Monad.return PRES_removeExecutorError
               else State_Monad.return PRES_ok
             }
           })
       }
       else do {
         d \<leftarrow> exec a;
         if ed_state d = ES_forwardResponseOnlyWrite then State_Monad.return PRES_removeExecutorOk
         else do {
           rc \<leftarrow> (if ed_pollData0 d \<noteq> None then removePollFd os a (ed_fd0 d) else State_Monad.return 0);
           if rc \<noteq> 0 then State_Monad.return PRES_removeExecutorError
           else do { retry_inc a; State_Monad.return PRES_ok }
         }
       })
   }"

definition process_forwardResponseRead :: "'w os \<Rightarrow> (nat \<Rightarrow> string \<Rightarrow> ('w poll_loop, int \<times> int) state)
    \<Rightarrow> nat \<Rightarrow> ('w poll_loop, process_result) state" where
  "process_forwardResponseRead os writeFd0 a = do {
     r \<leftarrow> buf_startWrite a;
     (case r of (ok, p, sz) \<Rightarrow>
       if ok then do {
         d \<leftarrow> exec a;
         r \<leftarrow> sys (os_read os (ed_fd1 d) sz);
         (case r of (bytesRead, bytes) \<Rightarrow>
           if bytesRead \<le> 0 then
             if bytesRead = 0 then do {
               closeFd os a (ed_fd1 d);
               set_state a ES_forwardResponseOnlyWrite;
               process_forwardResponseWrite os writeFd0 a
             }
             else do {
               e \<leftarrow> errno os;
               if e = EAGAIN \<or> e = EWOULDBLOCK then do { retry_inc a; State_Monad.return PRES_ok }
               else State_Monad.return PRES_removeExecutorError
             }
           else do {
             retry_reset a;
             buf_store a p bytes;
             buf_endWrite a (nat bytesRead);
             process_forwardResponseWrite os writeFd0 a
           })
       }
       else do {
         d \<leftarrow> exec a;
         rc \<leftarrow> (if ed_pollData1 d \<noteq> None then removePollFd os a (ed_fd1 d) else State_Monad.return 0);
         if rc \<noteq> 0 then State_Monad.return PRES_removeExecutorError
         else do {
           d \<leftarrow> exec a;
           rc \<leftarrow> (if ed_pollData0 d = None then addPollFd os a (ed_fd0 d) EPOLLOUT
                  else State_Monad.return 0);
           if rc \<noteq> 0 then State_Monad.return PRES_removeExecutorError
           else do { retry_inc a; State_Monad.return PRES_ok }
         }
       })
   }"

definition process_waitConnect :: "'w os \<Rightarrow> (nat \<Rightarrow> ('w poll_loop, process_result) state)
    \<Rightarrow> nat \<Rightarrow> ('w poll_loop, process_result) state" where
  "process_waitConnect os forwardRequest a = do {
     d \<leftarrow> exec a;
     socketError \<leftarrow> socketConnectNonBlockCheck os (ed_fd1 d);
     if socketError = 0 then do { set_state a ES_forwardRequest; forwardRequest a }
     else if socketError = EINPROGRESS then do { retry_inc a; State_Monad.return PRES_ok }
     else State_Monad.return PRES_removeExecutorError
   }"

definition ProxyExecutorReadWrite_process :: "'w os
    \<Rightarrow> (nat \<Rightarrow> string \<Rightarrow> ('w poll_loop, int \<times> int) state) \<Rightarrow> nat \<Rightarrow> int \<Rightarrow> 32 word
    \<Rightarrow> ('w poll_loop, process_result) state" where
  "ProxyExecutorReadWrite_process os writeFd0 a fd events = do {
     d \<leftarrow> exec a;
     if ed_state d = ES_waitConnect \<and> fd = ed_fd1 d \<and> has events EPOLLOUT
     then process_waitConnect os (process_forwardRequest os) a
     else if ed_state d = ES_forwardRequest \<and> fd = ed_fd1 d \<and> has events EPOLLOUT
     then process_forwardRequest os a
     else if ed_state d = ES_forwardResponse \<and> fd = ed_fd1 d \<and> has events EPOLLIN
     then process_forwardResponseRead os writeFd0 a
     else if (ed_state d = ES_forwardResponse \<or> ed_state d = ES_forwardResponseOnlyWrite)
       \<and> fd = ed_fd0 d \<and> has events EPOLLOUT
     then process_forwardResponseWrite os writeFd0 a
     else State_Monad.return PRES_removeExecutorError
   }"

section \<open>Rules\<close>

lemma readAvailable_iff: "rb_inv b \<Longrightarrow> rb_readAvailable b \<longleftrightarrow> rb_content b \<noteq> []"
  using rb_startRead_ok [of b] by (metis prod.exhaust fst_conv rb_readAvailable_def)

lemma is_proxy_executor: "is_proxy d \<Longrightarrow> ed_pExecutor d \<noteq> None"
  by (auto simp: is_proxy_def)

section \<open>The loop's data\<close>

lemma proxy_up_at:
  assumes "at us a d s" "is_proxy d" "ed_pollData1 d = None"
  shows "wp (ProxyExecutorReadWrite_up os a) (\<lambda>r s'. \<exists>d'. at us a d' s' \<and> (r = 0 \<and> ed_pollData0 d \<noteq> None \<longrightarrow>
     ed_state d' \<in> {ES_forwardRequest, ES_waitConnect} \<and> ed_pollData1 d' \<noteq> None \<and> 0 \<le> ed_fd1 d'
     \<and> rb_content (ed_buffer d') = rb_content (ed_buffer d))) s"
  using assms unfolding ProxyExecutorReadWrite_up_def wp_simps
  apply -
  apply (intro conjI impI allI | rule wp_upd_fd1 loop_rules network_rules free_upds at_exI | assumption
      | (auto simp: is_proxy_executor linked_poll_def unlinked_poll_def pollData_of_def split: if_splits; fail))+
  done

lemma forwardRequest_at:
  assumes os: "io_ok os" and "at us a d s" "ed_pExecutor d \<noteq> None"
  shows "wp (process_forwardRequest os a) (\<lambda>r s'. \<exists>d'. at us a d' s' \<and> (rb_straight (ed_buffer d) \<longrightarrow>
     rb_straight (ed_buffer d') \<and> suffix (rb_content (ed_buffer d')) (rb_content (ed_buffer d))
     \<and> (ed_state d' \<noteq> ed_state d \<longrightarrow> ed_state d' = ES_forwardResponse \<and> rb_content (ed_buffer d') = []))) s"
proof -
  note b = exec_fields_buffer [OF at_fields [OF assms(2)]]
  note st = rb_straight_read [OF b] rb_straight_endRead [OF b]
  show ?thesis
    using assms(2,3) unfolding process_forwardRequest_def wp_simps
    by - (intro conjI impI allI | rule wp_os_write [OF os] loop_rules free_upds at_exI | assumption
      | (auto simp: st suffix_drop; fail))+
qed

lemma forwardResponseWrite_at:
  assumes w: "write_ok w" and s: "at us a d s" "is_proxy d"
  shows "wp (process_forwardResponseWrite os w a) (\<lambda>r s'. \<exists>d'. at us a d' s' \<and>
     suffix (rb_content (ed_buffer d')) (rb_content (ed_buffer d)) \<and> ed_state d' = ed_state d
     \<and> (r = PRES_removeExecutorOk \<longrightarrow> ed_state d = ES_forwardResponseOnlyWrite \<and> rb_content (ed_buffer d') = [])) s"
proof -
  note b = exec_fields_buffer [OF at_fields [OF s(1)]]
  have ra: "\<not> rb_readAvailable (rb_endRead k (ed_buffer d)) \<Longrightarrow> rb_startRead (ed_buffer d) = (True, p, n) \<Longrightarrow>
      k \<le> n \<Longrightarrow> drop k (rb_content (ed_buffer d)) = []" for k p n
    using rb_read [OF b] readAvailable_iff by metis
  show ?thesis
    using s unfolding process_forwardResponseWrite_def wp_simps
    by - (intro conjI impI allI | rule loop_rules write_okD [OF w] free_upds at_exI | assumption
      | (auto simp: suffix_drop linked_poll_def unlinked_poll_def dest: ra; fail))+
qed

lemma forwardResponseRead_at:
  assumes os: "os_ok os" and w: "write_ok w" and s: "at us a d s" "is_proxy d"
  shows "wp (process_forwardResponseRead os w a) (\<lambda>r s'. \<exists>d'. at us a d' s' \<and>
     (r = PRES_removeExecutorOk \<longrightarrow> ed_state d' = ES_forwardResponseOnlyWrite \<and> rb_content (ed_buffer d') = [])) s"
proof -
  have io: "io_ok os" and del: "epoll_del_ok os" using os by (simp_all add: os_ok_def)
  have W: "wp (process_forwardResponseWrite os w a) (\<lambda>r s'. \<exists>d'. at us a d' s' \<and>
      (r = PRES_removeExecutorOk \<longrightarrow> ed_state d' = ES_forwardResponseOnlyWrite \<and> rb_content (ed_buffer d') = [])) t"
    if "at us a c t" "is_proxy c" for c t
    by (rule wp_mono [OF forwardResponseWrite_at [OF w that]]) auto
  show ?thesis
    using s unfolding process_forwardResponseRead_def wp_simps
    by - (intro conjI impI allI | rule wp_os_read [OF io] W loop_rules del free_upds at_exI | assumption
      | (auto simp: is_proxy_executor rb_endWrite_def; fail))+
qed

lemma waitConnect_at:
  assumes s: "at us a d s" "is_proxy d"
    and f: "\<And>d s. at us a d s \<Longrightarrow> is_proxy d \<Longrightarrow> wp (forward a) (\<lambda>_ s'. \<exists>d'. at us a d' s') s"
  shows "wp (process_waitConnect os forward a) (\<lambda>_ s'. \<exists>d'. at us a d' s') s"
  using s unfolding process_waitConnect_def wp_simps
  by - (intro conjI impI allI exI | rule f loop_rules network_rules free_upds | assumption
    | (auto simp: is_proxy_executor; fail))+

section \<open>The contract\<close>

definition proxy_ready :: "executor \<Rightarrow> executor_data \<Rightarrow> bool" where
  "proxy_ready x d \<longleftrightarrow> ed_pExecutor d = Some x \<and> ed_pollData1 d = None"

lemma ProxyExecutorReadWrite_process_in:
  assumes os: "os_ok os" and w: "write_ok w" and s: "at us a d s" "is_proxy d"
  shows "wp (ProxyExecutorReadWrite_process os w a fd ev) (\<lambda>_. in_loop us a) s"
proof -
  have io: "io_ok os" using os by (simp add: os_ok_def)
  have F: "wp (process_forwardRequest os a) (\<lambda>_ s'. \<exists>d'. at us a d' s') t" if "at us a c t" "is_proxy c" for c t
    by (rule wp_mono [OF forwardRequest_at [OF io that(1)]]) (use that(2) in \<open>auto simp: is_proxy_executor\<close>)
  have C: "wp (process_waitConnect os (process_forwardRequest os) a) (\<lambda>_ s'. \<exists>d'. at us a d' s') s"
    by (rule waitConnect_at [OF s]) (rule F)
  show ?thesis
    unfolding ProxyExecutorReadWrite_process_def wp_simps
    by (rule wp_exec [OF s(1)], intro conjI impI)
      (auto intro: wp_mono [OF C] wp_mono [OF F [OF s]]
        wp_mono [OF forwardResponseRead_at [OF os w s]] wp_mono [OF forwardResponseWrite_at [OF w s]]
        in_loopI [OF s(1)] in_loopI)
qed

end
