(* ===== verification/SslUtils.thy ===== *)
theory SslUtils
  imports Executor
begin

text \<open>
  \<open>src/utils/SslUtils.cpp\<close>: the transfer to descriptor 0 of the executors that talk TLS. OpenSSL's
  wish to read before it can go on writing becomes a change of the registered events.
\<close>

definition sslWriteFd0 :: "'w os \<Rightarrow> nat \<Rightarrow> string \<Rightarrow> ('w poll_loop, int \<times> int) state" where
  "sslWriteFd0 os a bs = do {
     d \<leftarrow> exec a;
     result \<leftarrow> sys (os_SSL_write os (ed_ssl d) bs);
     if result > 0 then State_Monad.return (result, 0)
     else do {
       error \<leftarrow> sys (os_SSL_get_error os (ed_ssl d) result);
       if error = SSL_ERROR_WANT_WRITE then State_Monad.return (result, EAGAIN)
       else if error = SSL_ERROR_WANT_READ then do {
         rc \<leftarrow> editPollFd os a (ed_fd0 d) (EPOLLIN OR EPOLLOUT);
         State_Monad.return (result, if rc = 0 then EAGAIN else EINVAL)
       }
       else State_Monad.return (result, EINVAL)
     }
   }"

lemma write_ok_ssl: "io_ok os \<Longrightarrow> write_ok (sslWriteFd0 os)"
  unfolding write_ok_def sslWriteFd0_def wp_simps
  by (intro allI impI conjI | rule loop_rules | assumption | (auto dest: io_okD(6); fail)
    | (elim allE impE, assumption+))+

end
