(* ===== verification/SslProxyExecutor.thy ===== *)
theory SslProxyExecutor
  imports ProxyExecutorReadWrite SslUtils
begin

text \<open>
  \<open>src/executors/SslProxyExecutor.cpp\<close>: the proxy of TLS connections, which differs from
  \<open>ProxyExecutorReadWrite\<close> in the transfer to the client.
\<close>

definition SslProxyExecutor_process :: "'w os \<Rightarrow> nat \<Rightarrow> int \<Rightarrow> 32 word
    \<Rightarrow> ('w poll_loop, process_result) state" where
  "SslProxyExecutor_process os = ProxyExecutorReadWrite_process os (sslWriteFd0 os)"

interpretation ssl_proxy_exec: executor os "ProxyExecutorReadWrite_up os" "SslProxyExecutor_process os"
    "proxy_ready X_sslProxy" "\<lambda>d. ed_pExecutor d = Some X_sslProxy"
  for os
proof (unfold_locales, goal_cases)
  case (1 us a d s)
  then show ?case
    by (intro wp_mono [OF proxy_up_at]) (auto simp: proxy_ready_def is_proxy_def)
next
  case (2 us a d s fd ev)
  then show ?case
    unfolding SslProxyExecutor_process_def
    by (intro ProxyExecutorReadWrite_process_in write_ok_ssl) (auto simp: is_proxy_def os_ok_def)
qed

end
