(* ===== verification/SampleOs.thy ===== *)
theory SampleOs
  imports OsInterface
begin

text \<open>
  A small kernel for the concrete instances of theorems: every call succeeds, reads consume a
  given input, and the world remembers what went through each descriptor and SSL object.
\<close>

record sample_world =
  sw_input :: string
  sw_got :: "int \<Rightarrow> string"
  sw_put :: "int \<Rightarrow> string"
  sw_sput :: "nat option \<Rightarrow> string"
  sw_closed :: "int list"

definition sample_world :: "string \<Rightarrow> sample_world" where
  "sample_world input = \<lparr>sw_input = input, sw_got = (\<lambda>_. []), sw_put = (\<lambda>_. []), sw_sput = (\<lambda>_. []), sw_closed = []\<rparr>"

definition sample_os :: "sample_world os" where
  "sample_os = \<lparr>
     os_errno = (\<lambda>_. EAGAIN),
     os_read = (\<lambda>fd n w. ((int (length (take n (sw_input w))), take n (sw_input w)), w\<lparr>sw_input := drop n (sw_input w), sw_got := (sw_got w)(fd := sw_got w fd @ take n (sw_input w))\<rparr>)),
     os_write = (\<lambda>fd bs w. (int (length bs), w\<lparr>sw_put := (sw_put w)(fd := sw_put w fd @ bs)\<rparr>)),
     os_close = (\<lambda>fd w. (0, w\<lparr>sw_closed := sw_closed w @ [fd]\<rparr>)),
     os_open = (\<lambda>name w. (5, w)),
     os_fstat = (\<lambda>fd w. ((0, 3, 100), w)),
     os_sendfile = (\<lambda>o_fd i_fd off n w. ((n, off + max 0 n), w)),
     os_splice = (\<lambda>i_fd o_fd n w. (n, w)),
     os_pipe2 = (\<lambda>w. ((0, 6, 7), w)),
     os_socket = (\<lambda>domain nonblock w. (8, w)),
     os_connect_inet = (\<lambda>fd address port w. (0, w)),
     os_connect_unix = (\<lambda>fd path w. (0, w)),
     os_getsockopt_error = (\<lambda>fd w. ((0, 0), w)),
     os_setsockopt_reuseaddr = (\<lambda>fd w. (0, w)),
     os_bind = (\<lambda>fd port w. (0, w)),
     os_listen = (\<lambda>fd n w. (0, w)),
     os_accept4 = (\<lambda>fd w. (9, w)),
     os_epoll_create1 = (\<lambda>w. (3, w)),
     os_epoll_add = (\<lambda>ep fd ev p w. (0, w)),
     os_epoll_mod = (\<lambda>ep fd ev p w. (0, w)),
     os_epoll_del = (\<lambda>ep fd w. (0, w)),
     os_epoll_wait = (\<lambda>ep n timeout w. ((0, []), w)),
     os_eventfd = (\<lambda>w. (4, w)),
     os_eventfd_read = (\<lambda>fd w. (0, w)),
     os_eventfd_write = (\<lambda>fd w. (0, w)),
     os_getMilliseconds = (\<lambda>w. (1000, w)),
     os_queue_push = (\<lambda>x w. (True, w)),
     os_queue_pop = (\<lambda>w. (None, w)),
     os_runFlag_load = (\<lambda>w. (True, w)),
     os_runFlag_store = (\<lambda>b w. ((), w)),
     os_srv_createRequestExecutor = (\<lambda>fd t w. (0, w)),
     os_SSL_new = (\<lambda>w. (Some 1, w)),
     os_SSL_set_fd = (\<lambda>ssl fd w. (1, w)),
     os_SSL_set_accept_state = (\<lambda>ssl w. ((), w)),
     os_SSL_do_handshake = (\<lambda>ssl w. (1, w)),
     os_SSL_get_error = (\<lambda>ssl r w. (SSL_ERROR_WANT_READ, w)),
     os_SSL_read = (\<lambda>ssl n w. ((int (length (take n (sw_input w))), take n (sw_input w)), w\<lparr>sw_input := drop n (sw_input w)\<rparr>)),
     os_SSL_write = (\<lambda>ssl bs w. (int (length bs), w\<lparr>sw_sput := (sw_sput w)(ssl := sw_sput w ssl @ bs)\<rparr>)),
     os_SSL_shutdown = (\<lambda>ssl w. (1, w)),
     os_SSL_free = (\<lambda>ssl w. ((), w)),
     os_http_date = (\<lambda>t. show_int t),
     os_http_time = (\<lambda>s. None)\<rparr>"

lemma sample_sel [simp]:
  "os_errno sample_os = (\<lambda>_. EAGAIN)"
  "os_read sample_os = (\<lambda>fd n w. ((int (length (take n (sw_input w))), take n (sw_input w)), w\<lparr>sw_input := drop n (sw_input w), sw_got := (sw_got w)(fd := sw_got w fd @ take n (sw_input w))\<rparr>))"
  "os_write sample_os = (\<lambda>fd bs w. (int (length bs), w\<lparr>sw_put := (sw_put w)(fd := sw_put w fd @ bs)\<rparr>))"
  "os_close sample_os = (\<lambda>fd w. (0, w\<lparr>sw_closed := sw_closed w @ [fd]\<rparr>))"
  "os_open sample_os = (\<lambda>name w. (5, w))"
  "os_fstat sample_os = (\<lambda>fd w. ((0, 3, 100), w))"
  "os_sendfile sample_os = (\<lambda>o_fd i_fd off n w. ((n, off + max 0 n), w))"
  "os_splice sample_os = (\<lambda>i_fd o_fd n w. (n, w))"
  "os_pipe2 sample_os = (\<lambda>w. ((0, 6, 7), w))"
  "os_socket sample_os = (\<lambda>domain nonblock w. (8, w))"
  "os_connect_inet sample_os = (\<lambda>fd address port w. (0, w))"
  "os_connect_unix sample_os = (\<lambda>fd path w. (0, w))"
  "os_getsockopt_error sample_os = (\<lambda>fd w. ((0, 0), w))"
  "os_setsockopt_reuseaddr sample_os = (\<lambda>fd w. (0, w))"
  "os_bind sample_os = (\<lambda>fd port w. (0, w))"
  "os_listen sample_os = (\<lambda>fd n w. (0, w))"
  "os_accept4 sample_os = (\<lambda>fd w. (9, w))"
  "os_epoll_create1 sample_os = (\<lambda>w. (3, w))"
  "os_epoll_add sample_os = (\<lambda>ep fd ev p w. (0, w))"
  "os_epoll_mod sample_os = (\<lambda>ep fd ev p w. (0, w))"
  "os_epoll_del sample_os = (\<lambda>ep fd w. (0, w))"
  "os_epoll_wait sample_os = (\<lambda>ep n timeout w. ((0, []), w))"
  "os_eventfd sample_os = (\<lambda>w. (4, w))"
  "os_eventfd_read sample_os = (\<lambda>fd w. (0, w))"
  "os_eventfd_write sample_os = (\<lambda>fd w. (0, w))"
  "os_getMilliseconds sample_os = (\<lambda>w. (1000, w))"
  "os_queue_push sample_os = (\<lambda>x w. (True, w))"
  "os_queue_pop sample_os = (\<lambda>w. (None, w))"
  "os_runFlag_load sample_os = (\<lambda>w. (True, w))"
  "os_runFlag_store sample_os = (\<lambda>b w. ((), w))"
  "os_srv_createRequestExecutor sample_os = (\<lambda>fd t w. (0, w))"
  "os_SSL_new sample_os = (\<lambda>w. (Some 1, w))"
  "os_SSL_set_fd sample_os = (\<lambda>ssl fd w. (1, w))"
  "os_SSL_set_accept_state sample_os = (\<lambda>ssl w. ((), w))"
  "os_SSL_do_handshake sample_os = (\<lambda>ssl w. (1, w))"
  "os_SSL_get_error sample_os = (\<lambda>ssl r w. (SSL_ERROR_WANT_READ, w))"
  "os_SSL_read sample_os = (\<lambda>ssl n w. ((int (length (take n (sw_input w))), take n (sw_input w)), w\<lparr>sw_input := drop n (sw_input w)\<rparr>))"
  "os_SSL_write sample_os = (\<lambda>ssl bs w. (int (length bs), w\<lparr>sw_sput := (sw_sput w)(ssl := sw_sput w ssl @ bs)\<rparr>))"
  "os_SSL_shutdown sample_os = (\<lambda>ssl w. (1, w))"
  "os_SSL_free sample_os = (\<lambda>ssl w. ((), w))"
  "os_http_date sample_os = (\<lambda>t. show_int t)"
  "os_http_time sample_os = (\<lambda>s. None)"
  by (simp_all add: sample_os_def)

lemma sample_os_ok: "os_ok sample_os" "sendfile_ok sample_os"
  by (auto simp: os_ok_def io_ok_def epoll_del_ok_def sendfile_ok_def)

end
