(* ===== verification/Relay.thy ===== *)
theory Relay
  imports SslProxyExecutor SampleOs
begin

text \<open>
  What a proxy does with the bytes of a response, over \<open>src/executors/ProxyExecutorReadWrite.cpp\<close> and
  \<open>src/executors/SslProxyExecutor.cpp\<close>: the traffic of a connection is recorded beside the world, the
  interface of the transfer is the locale \<open>relay\<close>, and the two proxies are its interpretations.
\<close>

section \<open>Recording the traffic\<close>

text \<open>
  \<open>logged os\<close> is \<open>os\<close> with a record of the traffic kept beside its world: every call goes to \<open>os\<close>, and
  the bytes that \<open>read\<close> delivered and that \<open>write\<close> and \<open>SSL_write\<close> accepted are appended to the
  record of their descriptor or SSL object. \<open>tr_files\<close> holds the contents of the files that the
  descriptors are open on, and never changes; what \<open>sendfile\<close> copied from a file to a descriptor is
  appended to the descriptor's record. The program cannot see the record. With it a theorem
  can say what the server did with the bytes of a connection for an arbitrary \<open>os\<close>.
\<close>

record traffic =
  tr_got :: "int \<Rightarrow> string"
  tr_put :: "int \<Rightarrow> string"
  tr_sput :: "nat option \<Rightarrow> string"
  tr_files :: "int \<Rightarrow> string"

definition recorded :: "('w \<Rightarrow> 'a \<times> 'w) \<Rightarrow> ('a \<Rightarrow> traffic \<Rightarrow> traffic) \<Rightarrow> 'w \<times> traffic \<Rightarrow> 'a \<times> 'w \<times> traffic" where
  "recorded g rec wt = (case g (fst wt) of (r, w') \<Rightarrow> (r, w', rec r (snd wt)))"

abbreviation unrecorded :: "('w \<Rightarrow> 'a \<times> 'w) \<Rightarrow> 'w \<times> traffic \<Rightarrow> 'a \<times> 'w \<times> traffic" where
  "unrecorded g \<equiv> recorded g (\<lambda>_ t. t)"

definition logged :: "'w os \<Rightarrow> ('w \<times> traffic) os" where
  "logged os = \<lparr>
     os_errno = (\<lambda>w. os_errno os (fst w)),
     os_read = (\<lambda>x0 x1. recorded (os_read os x0 x1) (\<lambda>r t. t\<lparr>tr_got := (tr_got t)(x0 := tr_got t x0 @ take (nat (fst r)) (snd r))\<rparr>)),
     os_write = (\<lambda>x0 x1. recorded (os_write os x0 x1) (\<lambda>r t. t\<lparr>tr_put := (tr_put t)(x0 := tr_put t x0 @ take (nat r) x1)\<rparr>)),
     os_close = (\<lambda>x0. unrecorded (os_close os x0)),
     os_open = (\<lambda>x0. unrecorded (os_open os x0)),
     os_fstat = (\<lambda>x0. unrecorded (os_fstat os x0)),
     os_sendfile = (\<lambda>x0 x1 x2 x3. recorded (os_sendfile os x0 x1 x2 x3) (\<lambda>r t. t\<lparr>tr_put := (tr_put t)(x0 := tr_put t x0 @ take (nat (fst r)) (drop (nat x2) (tr_files t x1)))\<rparr>)),
     os_splice = (\<lambda>x0 x1 x2. unrecorded (os_splice os x0 x1 x2)),
     os_pipe2 = (unrecorded (os_pipe2 os)),
     os_socket = (\<lambda>x0 x1. unrecorded (os_socket os x0 x1)),
     os_connect_inet = (\<lambda>x0 x1 x2. unrecorded (os_connect_inet os x0 x1 x2)),
     os_connect_unix = (\<lambda>x0 x1. unrecorded (os_connect_unix os x0 x1)),
     os_getsockopt_error = (\<lambda>x0. unrecorded (os_getsockopt_error os x0)),
     os_setsockopt_reuseaddr = (\<lambda>x0. unrecorded (os_setsockopt_reuseaddr os x0)),
     os_bind = (\<lambda>x0 x1. unrecorded (os_bind os x0 x1)),
     os_listen = (\<lambda>x0 x1. unrecorded (os_listen os x0 x1)),
     os_accept4 = (\<lambda>x0. unrecorded (os_accept4 os x0)),
     os_epoll_create1 = (unrecorded (os_epoll_create1 os)),
     os_epoll_add = (\<lambda>x0 x1 x2 x3. unrecorded (os_epoll_add os x0 x1 x2 x3)),
     os_epoll_mod = (\<lambda>x0 x1 x2 x3. unrecorded (os_epoll_mod os x0 x1 x2 x3)),
     os_epoll_del = (\<lambda>x0 x1. unrecorded (os_epoll_del os x0 x1)),
     os_epoll_wait = (\<lambda>x0 x1 x2. unrecorded (os_epoll_wait os x0 x1 x2)),
     os_eventfd = (unrecorded (os_eventfd os)),
     os_eventfd_read = (\<lambda>x0. unrecorded (os_eventfd_read os x0)),
     os_eventfd_write = (\<lambda>x0. unrecorded (os_eventfd_write os x0)),
     os_getMilliseconds = (unrecorded (os_getMilliseconds os)),
     os_queue_push = (\<lambda>x0. unrecorded (os_queue_push os x0)),
     os_queue_pop = (unrecorded (os_queue_pop os)),
     os_runFlag_load = (unrecorded (os_runFlag_load os)),
     os_runFlag_store = (\<lambda>x0. unrecorded (os_runFlag_store os x0)),
     os_srv_createRequestExecutor = (\<lambda>x0 x1. unrecorded (os_srv_createRequestExecutor os x0 x1)),
     os_SSL_new = (unrecorded (os_SSL_new os)),
     os_SSL_set_fd = (\<lambda>x0 x1. unrecorded (os_SSL_set_fd os x0 x1)),
     os_SSL_set_accept_state = (\<lambda>x0. unrecorded (os_SSL_set_accept_state os x0)),
     os_SSL_do_handshake = (\<lambda>x0. unrecorded (os_SSL_do_handshake os x0)),
     os_SSL_get_error = (\<lambda>x0 x1. unrecorded (os_SSL_get_error os x0 x1)),
     os_SSL_read = (\<lambda>x0 x1. unrecorded (os_SSL_read os x0 x1)),
     os_SSL_write = (\<lambda>x0 x1. recorded (os_SSL_write os x0 x1) (\<lambda>r t. t\<lparr>tr_sput := (tr_sput t)(x0 := tr_sput t x0 @ take (nat r) x1)\<rparr>)),
     os_SSL_shutdown = (\<lambda>x0. unrecorded (os_SSL_shutdown os x0)),
     os_SSL_free = (\<lambda>x0. unrecorded (os_SSL_free os x0)),
     os_http_date = os_http_date os,
     os_http_time = os_http_time os\<rparr>"

lemma logged_sel [simp]:
  "os_errno (logged os) = (\<lambda>w. os_errno os (fst w))"
  "os_read (logged os) = (\<lambda>x0 x1. recorded (os_read os x0 x1) (\<lambda>r t. t\<lparr>tr_got := (tr_got t)(x0 := tr_got t x0 @ take (nat (fst r)) (snd r))\<rparr>))"
  "os_write (logged os) = (\<lambda>x0 x1. recorded (os_write os x0 x1) (\<lambda>r t. t\<lparr>tr_put := (tr_put t)(x0 := tr_put t x0 @ take (nat r) x1)\<rparr>))"
  "os_close (logged os) = (\<lambda>x0. unrecorded (os_close os x0))"
  "os_epoll_add (logged os) = (\<lambda>x0 x1 x2 x3. unrecorded (os_epoll_add os x0 x1 x2 x3))"
  "os_epoll_mod (logged os) = (\<lambda>x0 x1 x2 x3. unrecorded (os_epoll_mod os x0 x1 x2 x3))"
  "os_epoll_del (logged os) = (\<lambda>x0 x1. unrecorded (os_epoll_del os x0 x1))"
  "os_SSL_read (logged os) = (\<lambda>x0 x1. unrecorded (os_SSL_read os x0 x1))"
  "os_SSL_write (logged os) = (\<lambda>x0 x1. recorded (os_SSL_write os x0 x1) (\<lambda>r t. t\<lparr>tr_sput := (tr_sput t)(x0 := tr_sput t x0 @ take (nat r) x1)\<rparr>))"
  "os_SSL_get_error (logged os) = (\<lambda>x0 x1. unrecorded (os_SSL_get_error os x0 x1))"
  "os_SSL_shutdown (logged os) = (\<lambda>x0. unrecorded (os_SSL_shutdown os x0))"
  "os_SSL_free (logged os) = (\<lambda>x0. unrecorded (os_SSL_free os x0))"
  "os_open (logged os) = (\<lambda>x0. unrecorded (os_open os x0))"
  "os_fstat (logged os) = (\<lambda>x0. unrecorded (os_fstat os x0))"
  "os_sendfile (logged os) = (\<lambda>x0 x1 x2 x3. recorded (os_sendfile os x0 x1 x2 x3) (\<lambda>r t. t\<lparr>tr_put := (tr_put t)(x0 := tr_put t x0 @ take (nat (fst r)) (drop (nat x2) (tr_files t x1)))\<rparr>))"
  "os_http_date (logged os) = os_http_date os" "os_http_time (logged os) = os_http_time os"
  by (simp_all add: logged_def)

lemma recorded_eq: "recorded g rec (w, t) = (r, wt') \<longleftrightarrow> (\<exists>w'. g w = (r, w') \<and> wt' = (w', rec r t))"
  by (auto simp: recorded_def split: prod.splits)

lemma logged_io_ok [simp]: "io_ok (logged os) = io_ok os"
  unfolding io_ok_def by (auto simp: recorded_eq)

lemma logged_del_ok [simp]: "epoll_del_ok (logged os) = epoll_del_ok os"
  by (simp add: epoll_del_ok_def recorded_def case_prod_beta)

lemma logged_sendfile_ok [simp]: "sendfile_ok (logged os) = sendfile_ok os"
  unfolding sendfile_ok_def by (auto simp: recorded_eq)

lemma logged_os_ok [simp]: "os_ok (logged os) = os_ok os"
  by (simp add: os_ok_def)


lemma wp_bindI: "wp m (\<lambda>r s'. wp (k r) Q s') s \<Longrightarrow> wp (State_Monad.bind m k) Q s"
  by (simp only: wp_bind)


section \<open>A relay\<close>

text \<open>
  The interface between a proxy's transfer of the response and its surroundings: what the
  traffic records \<open>got\<close> (bytes that came in on \<open>f\<close>) and \<open>out\<close> (bytes that went to the client) do under
  the calls of the handlers, and that \<open>wr\<close>, the virtual \<open>writeFd0\<close>, sends a prefix of what it is given
  and says how long it was. \<open>key\<close> is the part of the executor's data that selects the client.
\<close>

locale relay =
  fixes os :: "'w os" and got :: "'w \<Rightarrow> string" and out :: "'w \<Rightarrow> string"
    and key :: "executor_data \<Rightarrow> bool" and wr :: "nat \<Rightarrow> string \<Rightarrow> ('w poll_loop, int \<times> int) state"
    and a :: nat and f :: int
  assumes read_law: "os_read os f n w = ((r, bs), w') \<Longrightarrow>
      got w' = got w @ take (nat r) bs \<and> out w' = out w"
    and quiet_laws: "os_epoll_add os ep fd ev p w = (q, w') \<Longrightarrow> got w' = got w \<and> out w' = out w"
      "os_epoll_del os ep fd w = (q, w') \<Longrightarrow> got w' = got w \<and> out w' = out w"
      "os_close os fd w = (q, w') \<Longrightarrow> got w' = got w \<and> out w' = out w"
    and key_eq: "ed_fd0 d = ed_fd0 e \<Longrightarrow> ed_ssl d = ed_ssl e \<Longrightarrow> key d \<Longrightarrow> key e"
    and key_closed: "key d \<Longrightarrow> ed_fd0 d = f \<Longrightarrow> key e \<Longrightarrow> key (e\<lparr>ed_fd0 := -1\<rparr>)"
    and sends: "io_ok os \<Longrightarrow> key (pl_execs s a) \<Longrightarrow> wp (wr a bs) (\<lambda>re s'. fst re \<le> int (length bs)
        \<and> out (pl_world s') = out (pl_world s) @ take (nat (fst re)) bs \<and> got (pl_world s') = got (pl_world s)
        \<and> ed_buffer (pl_execs s' a) = ed_buffer (pl_execs s a) \<and> key (pl_execs s' a)) s"
begin

lemma key_iff: "ed_fd0 d = ed_fd0 e \<Longrightarrow> ed_ssl d = ed_ssl e \<Longrightarrow> key d = key e"
  using key_eq [of d e] key_eq [of e d] by auto

lemma key_buffer [simp]: "key (d\<lparr>ed_buffer := b\<rparr>) = key d"
  by (rule key_iff) simp_all

text \<open>
  \<open>x\<close> came in and \<open>y\<close> went out since the records were \<open>G\<close> and \<open>P\<close>; \<open>B x y\<close> is what holds of the buffer.
\<close>

definition rel :: "string \<Rightarrow> string \<Rightarrow> (string \<Rightarrow> string \<Rightarrow> ring \<Rightarrow> bool) \<Rightarrow> 'w poll_loop \<Rightarrow> bool" where
  "rel G P B s \<longleftrightarrow> (\<exists>x y. got (pl_world s) = G @ x \<and> out (pl_world s) = P @ y
     \<and> B x y (ed_buffer (pl_execs s a)) \<and> key (pl_execs s a))"

definition quiet :: "('w \<Rightarrow> 'a \<times> 'w) \<Rightarrow> bool" where
  "quiet g \<longleftrightarrow> (\<forall>w r w'. g w = (r, w') \<longrightarrow> got w' = got w \<and> out w' = out w)"

lemma quiet_ops: "quiet (os_epoll_add os ep fd ev p)" "quiet (os_epoll_del os ep fd)" "quiet (os_close os fd)"
  using quiet_laws by (auto simp: quiet_def)

lemma stable_quiet: "quiet g \<Longrightarrow> stable (rel G P B) (sys g)"
  by (auto simp: stable_def wp_sys_iff rel_def quiet_def)

lemma stable_upd:
  "(\<And>d. ed_buffer (g d) = ed_buffer d \<and> ed_fd0 (g d) = ed_fd0 d \<and> ed_ssl (g d) = ed_ssl d) \<Longrightarrow> stable (rel G P B) (upd c g)"
  using key_iff [of "g d" d for d] by (auto simp: stable_def wp_poll_ops rel_def)

lemma stable_other:
  "stable (rel G P B) (errno os)" "stable (rel G P B) (exec c)" "stable (rel G P B) (upd_poll p h)" "stable (rel G P B) allocate_poll"
  "stable (rel G P B) (free_poll p)" "stable (rel G P B) (count_poll n)"
  by (auto simp: stable_def wp_poll_ops errno_def rel_def)

lemma stable_counters: "stable (rel G P B) (retry_inc c)" "stable (rel G P B) (retry_reset c)" "stable (rel G P B) (set_state c st)"
  unfolding retry_inc_def retry_reset_def set_state_def by (intro stable_upd; simp)+

lemmas base = stable_intros stable_quiet quiet_ops stable_other stable_counters

lemma stable_poll_fd: "stable (rel G P B) (addPollFd os c fd ev)" "stable (rel G P B) (removePollFd os c fd)"
  unfolding addPollFd_def removePollFd_def by (intro base stable_upd; simp)+

lemma stable_close_fd0:
  assumes "key d" "ed_fd0 d = f"
  shows "stable (rel G P B) (upd a (\<lambda>d. d\<lparr>ed_fd0 := -1\<rparr>))"
  using key_closed [OF assms] by (auto simp: stable_def wp_poll_ops rel_def)

lemma stable_closeFd: "stable (rel G P B) (closeFd os a f)"
proof (simp only: stable_def, intro allI impI)
  fix s assume s: "rel G P B s"
  then have k: "key (pl_execs s a)" by (auto simp: rel_def)
  show "wp (closeFd os a f) (\<lambda>_. rel G P B) s"
    unfolding closeFd_def exec_def
    by (rule wp_bindI, unfold wp_gets, rule stableD [where P = "rel G P B"], rule stable_if_eq,
      (intro base stable_poll_fd stable_close_fd0 [OF k]; simp)[1],
      (intro base stable_poll_fd stable_upd; simp)[1], rule s)
qed

lemmas basic = base stable_poll_fd stable_closeFd

text \<open>The handlers keep \<open>bal C\<close>: nothing is lost, added or reordered.\<close>

definition bal :: "string \<Rightarrow> string \<Rightarrow> string \<Rightarrow> ring \<Rightarrow> bool" where
  "bal C x y b \<longleftrightarrow> rb_inv b \<and> C @ x = y @ rb_content b"

definition written :: "string \<Rightarrow> nat \<Rightarrow> nat \<Rightarrow> nat \<Rightarrow> string \<Rightarrow> string \<Rightarrow> ring \<Rightarrow> bool" where
  "written C p n k x y b \<longleftrightarrow> rb_inv b \<and> rb_startRead b = (True, p, n) \<and> k \<le> n \<and> C @ x = y @ drop k (rb_content b)"

definition opened :: "string \<Rightarrow> region \<Rightarrow> string \<Rightarrow> string \<Rightarrow> ring \<Rightarrow> bool" where
  "opened C r x y b \<longleftrightarrow> (\<exists>b0. bal C x y b0 \<and> rb_startWrite b0 = (r, b))"

definition filled :: "string \<Rightarrow> nat \<Rightarrow> nat \<Rightarrow> string \<Rightarrow> string \<Rightarrow> string \<Rightarrow> ring \<Rightarrow> bool" where
  "filled C p n bs x y b \<longleftrightarrow> (\<exists>b0. rb_inv b0 \<and> rb_startWrite b0 = ((True, p, n), b) \<and> length bs \<le> n
     \<and> C @ x = y @ rb_content b0 @ bs)"

lemma opened_bal: "opened C r x y b \<Longrightarrow> bal C x y b"
  unfolding opened_def bal_def by (cases r) (metis rb_startWrite_inv)

lemma endRead_bal: "rel G P (written C p n k) s \<Longrightarrow> wp (buf_endRead a k) (\<lambda>_. rel G P (bal C)) s"
  by (auto simp: rel_def written_def bal_def buf_endRead_def wp_poll_ops rb_read)

lemma fill_bal:
  "rel G P (filled C p n bs) s \<Longrightarrow> wp (do { buf_store a p bs; buf_endWrite a (length bs) }) (\<lambda>_. rel G P (bal C)) s"
  by (auto simp: rel_def filled_def bal_def buf_store_def buf_endWrite_def wp_poll_ops dest: rb_write)

text \<open>The calls that move bytes.\<close>

lemma wp_send:
  assumes io: "io_ok os" and s: "rel G P (bal C) s" and sr: "rb_startRead (ed_buffer (pl_execs s a)) = (True, p, n)"
    and le: "\<And>r e s'. r \<le> 0 \<Longrightarrow> rel G P (bal C) s' \<Longrightarrow> Q (r, e) s'"
    and gt: "\<And>r e s'. 0 < r \<Longrightarrow> rel G P (written C p n (nat r)) s' \<Longrightarrow> Q (r, e) s'"
  shows "wp (wr a (mem_read p n (rb_buf (ed_buffer (pl_execs s a))))) Q s"
proof -
  let ?b = "ed_buffer (pl_execs s a)"
  from s obtain x y where xy: "got (pl_world s) = G @ x" "out (pl_world s) = P @ y" "rb_inv ?b" "C @ x = y @ rb_content ?b"
    and k: "key (pl_execs s a)" by (auto simp: rel_def bal_def)
  have m: "mem_read p n (rb_buf ?b) = take n (rb_content ?b)" "n \<le> length (rb_content ?b)"
    using rb_startRead_region [OF xy(3) sr] by simp_all
  show ?thesis
  proof (rule wp_mono [OF sends [OF io k]], elim conjE)
    fix re :: "int \<times> int" and s' :: "'w poll_loop" assume 1: "fst re \<le> int (length (mem_read p n (rb_buf ?b)))"
      "out (pl_world s') = out (pl_world s) @ take (nat (fst re)) (mem_read p n (rb_buf ?b))"
      "got (pl_world s') = got (pl_world s)" "ed_buffer (pl_execs s' a) = ?b" "key (pl_execs s' a)"
    show "Q re s'"
    proof (cases "0 < fst re")
      case True
      have "rel G P (written C p n (nat (fst re))) s'"
        unfolding rel_def written_def
        by (rule exI [of _ x], rule exI [of _ "y @ take (nat (fst re)) (rb_content ?b)"])
          (use 1 xy m sr True in \<open>auto simp: min_def split: if_splits\<close>)
      then show ?thesis using gt [OF True, of s' "snd re"] by simp
    next
      case False
      have "rel G P (bal C) s'"
        unfolding rel_def bal_def by (rule exI [of _ x], rule exI [of _ y]) (use 1 xy False in simp)
      then show ?thesis using False le [of "fst re" s' "snd re"] by simp
    qed
  qed
qed

lemma wp_receive:
  assumes io: "io_ok os" and s: "rel G P (opened C (True, p, n)) s"
    and le: "\<And>r bs s'. r \<le> 0 \<Longrightarrow> rel G P (bal C) s' \<Longrightarrow> Q (r, bs) s'"
    and gt: "\<And>r bs s'. r = int (length bs) \<Longrightarrow> rel G P (filled C p n bs) s' \<Longrightarrow> Q (r, bs) s'"
  shows "wp (sys (os_read os f n)) Q s"
proof (rule wp_sys)
  fix r w assume "os_read os f n (pl_world s) = (r, w)"
  moreover obtain k bs where r: "r = (k, bs)" by fastforce
  ultimately have w: "os_read os f n (pl_world s) = ((k, bs), w)" by simp
  let ?b = "ed_buffer (pl_execs s a)"
  from s obtain x y b0 where xy: "got (pl_world s) = G @ x" "out (pl_world s) = P @ y" "rb_inv b0" "C @ x = y @ rb_content b0"
    "rb_startWrite b0 = ((True, p, n), ?b)" "key (pl_execs s a)" by (auto simp: rel_def bal_def opened_def)
  note l = read_law [OF w] io_okD(1,2) [OF io w]
  have b: "rb_inv ?b" "rb_content ?b = rb_content b0" using rb_startWrite_inv [OF xy(3,5)] by simp_all
  show "Q r (s\<lparr>pl_world := w\<rparr>)"
  proof (cases "0 < k")
    case True
    have "rel G P (filled C p n bs) (s\<lparr>pl_world := w\<rparr>)"
      unfolding rel_def filled_def
      by (rule exI [of _ "x @ bs"], rule exI [of _ y], intro conjI exI [of _ b0]) (use xy l True in \<open>simp_all, linarith?\<close>)
    then show ?thesis unfolding r using l True by (intro gt) auto
  next
    case False
    have "rel G P (bal C) (s\<lparr>pl_world := w\<rparr>)"
      unfolding rel_def bal_def by (rule exI [of _ x], rule exI [of _ y]) (use xy l b False in simp)
    then show ?thesis using False r by (auto intro: le)
  qed
qed
lemma forwardResponseWrite_rel:
  assumes io: "io_ok os" and s: "rel G P (bal C) s"
  shows "wp (process_forwardResponseWrite os wr a) (\<lambda>_. rel G P (bal C)) s"
proof -
  obtain ok p n where sr: "rb_startRead (ed_buffer (pl_execs s a)) = (ok, p, n)" by (metis prod.exhaust)
  show ?thesis
  proof (cases ok)
    case True
    with sr have sr: "rb_startRead (ed_buffer (pl_execs s a)) = (True, p, n)" by simp
    show ?thesis
      unfolding process_forwardResponseWrite_def buf_startRead_def buf_mem_def exec_def
    proof (intro wp_bindI, unfold wp_gets wp_return sr prod.case if_True, intro wp_bindI, unfold wp_gets wp_return,
        intro wp_bindI, rule wp_send [OF io s sr], goal_cases)
      case (1 r e s')
      show ?case
        unfolding prod.case if_P [OF 1(1)] exec_def [symmetric] by (rule stableD [where P = "rel G P (bal C)"], intro basic, rule 1(2))
    next
      case (2 r e s')
      have "\<not> r \<le> 0" using 2(1) by simp
      show ?case
        unfolding prod.case if_not_P [OF \<open>\<not> r \<le> 0\<close>] exec_def [symmetric]
        by (intro wp_bindI wp_mono [OF stableD [OF stable_counters(2) 2(2)]], rule wp_mono [OF endRead_bal],
          assumption, rule stableD [where P = "rel G P (bal C)"], intro basic)
    qed
  next
    case False
    show ?thesis
      unfolding process_forwardResponseWrite_def buf_startRead_def exec_def
      by (intro wp_bindI, unfold wp_gets wp_return sr prod.case if_not_P [OF False], unfold exec_def [symmetric],
        rule stableD [where P = "rel G P (bal C)"], intro basic, rule s)
  qed
qed



lemma wp_startWrite_rel:
  assumes s: "rel G P (bal C) s"
    and Q: "\<And>ok p n s'. rel G P (opened C (ok, p, n)) s' \<Longrightarrow> ed_fd1 (pl_execs s' a) = ed_fd1 (pl_execs s a) \<Longrightarrow> Q (ok, p, n) s'"
  shows "wp (buf_startWrite a) Q s"
proof -
  obtain ok p n b where sw: "rb_startWrite (ed_buffer (pl_execs s a)) = ((ok, p, n), b)" by (metis prod.exhaust)
  show ?thesis
    unfolding buf_startWrite_def exec_def upd_def wp_bind wp_gets wp_modify wp_return sw fst_conv
    by (rule Q) (use s sw in \<open>auto simp: rel_def opened_def\<close>)
qed

lemma wp_fill:
  assumes "rel G P (filled C p n bs) s" "\<And>s'. rel G P (bal C) s' \<Longrightarrow> wp m (\<lambda>_. R) s'"
  shows "wp (do { buf_store a p bs; buf_endWrite a (length bs); m }) (\<lambda>_. R) s"
  using wp_mono [OF fill_bal [OF assms(1)] assms(2)] by (simp add: wp_bind)

lemma forwardResponseRead_rel:
  assumes io: "io_ok os" and s: "rel G P (bal C) s" and f: "f = ed_fd1 (pl_execs s a)"
  shows "wp (process_forwardResponseRead os wr a) (\<lambda>_. rel G P (bal C)) s"
proof -
  have W: "stable (rel G P (bal C)) (process_forwardResponseWrite os wr a)"
    by (simp add: stable_def forwardResponseWrite_rel [OF io])
  show ?thesis
    unfolding process_forwardResponseRead_def
  proof (intro wp_bindI, rule wp_startWrite_rel [OF s], goal_cases)
    case (1 ok p n s')
    note f' = f [unfolded 1(2) [symmetric]]
    show ?case
    proof (cases ok)
      case True
      have o: "rel G P (opened C (True, p, n)) s'" using 1(1) True by simp
      show ?thesis
        unfolding prod.case if_P [OF True] exec_def
      proof (intro wp_bindI, unfold wp_gets f' [symmetric], intro wp_bindI, rule wp_receive [OF io o], goal_cases)
        case (1 r bs t)
        show ?case
          unfolding prod.case if_P [OF 1(1)] by (rule stableD [where P = "rel G P (bal C)"], intro basic W, rule 1(2))
      next
        case (2 r bs t)
        show ?case
        proof (cases "r \<le> 0")
          case True
          then have "bs = []" using 2(1) by simp
          then have "rel G P (bal C) t" using 2(2) rb_startWrite_inv
            by (fastforce simp: rel_def filled_def bal_def)
          then show ?thesis
            unfolding prod.case if_P [OF True] by - (rule stableD [where P = "rel G P (bal C)"], intro basic W)
        next
          case False
          have "nat r = length bs" using 2(1) by simp
          show ?thesis
            unfolding prod.case if_not_P [OF False] \<open>nat r = length bs\<close>
            by (rule wp_bindI, rule wp_mono [OF stableD [OF stable_counters(2) 2(2)]], rule wp_fill, assumption,
              rule stableD [OF W])
        qed
      qed
    next
      case False
      have "rel G P (bal C) s'" using 1(1) opened_bal by (auto simp: rel_def)
      then show ?thesis
        unfolding prod.case if_not_P [OF False] by - (rule stableD [where P = "rel G P (bal C)"], intro basic)
    qed
  qed
qed


text \<open>The whole handler, once the request is forwarded.\<close>

lemma process_rel:
  assumes io: "io_ok os" and s: "rel G P (bal C) s" and f: "f = ed_fd1 (pl_execs s a)"
    and st: "ed_state (pl_execs s a) = ES_forwardResponse \<or> ed_state (pl_execs s a) = ES_forwardResponseOnlyWrite"
  shows "wp (ProxyExecutorReadWrite_process os wr a fd ev) (\<lambda>_. rel G P (bal C)) s"
proof -
  have W: "stable (rel G P (bal C)) (process_forwardResponseWrite os wr a)"
    by (simp add: stable_def forwardResponseWrite_rel [OF io])
  show ?thesis
    unfolding ProxyExecutorReadWrite_process_def exec_def
    by (rule wp_bindI, unfold wp_gets)
      (use st forwardResponseRead_rel [OF io s f] stableD [OF W s] s in \<open>auto simp: wp_return\<close>)
qed

lemma relays:
  assumes io: "io_ok os" and d: "pl_execs s a = d" "rb_inv (ed_buffer d)" "key d" "f = ed_fd1 d"
    and st: "ed_state d = ES_forwardResponse \<or> ed_state d = ES_forwardResponseOnlyWrite"
    and r: "run_state (ProxyExecutorReadWrite_process os wr a fd ev) s = (r, s')"
  shows "\<exists>x y. got (pl_world s') = got (pl_world s) @ x \<and> out (pl_world s') = out (pl_world s) @ y
    \<and> rb_content (ed_buffer d) @ x = y @ rb_content (ed_buffer (pl_execs s' a))"
proof -
  have "rel (got (pl_world s)) (out (pl_world s)) (bal (rb_content (ed_buffer d))) s"
    using d by (simp add: rel_def bal_def)
  from wp_run [OF process_rel [OF io this] r] d st show ?thesis by (auto simp: rel_def bal_def)
qed

end

section \<open>The two proxies\<close>

text \<open>\<open>write\<close> on descriptor 0, and \<open>SSL_write\<close>.\<close>

lemma sends_plain:
  assumes io: "io_ok os" and k: "ed_fd0 (pl_execs s a) = c"
  shows "wp (Executor_writeFd0 (logged os) a bs) (\<lambda>re s'. fst re \<le> int (length bs)
     \<and> tr_put (snd (pl_world s')) c = tr_put (snd (pl_world s)) c @ take (nat (fst re)) bs
     \<and> tr_got (snd (pl_world s')) = tr_got (snd (pl_world s)) \<and> pl_execs s' = pl_execs s) s"
proof -
  obtain w t where w: "pl_world s = (w, t)" by fastforce
  show ?thesis
    using io_okD(3) [OF io] k w
    by (auto simp: Executor_writeFd0_def exec_def errno_def wp_simps wp_sys_iff recorded_eq)
qed

lemma sends_tls:
  assumes io: "io_ok os" and k: "ed_ssl (pl_execs s a) = c"
  shows "wp (sslWriteFd0 (logged os) a bs) (\<lambda>re s'. fst re \<le> int (length bs)
     \<and> tr_sput (snd (pl_world s')) c = tr_sput (snd (pl_world s)) c @ take (nat (fst re)) bs
     \<and> tr_got (snd (pl_world s')) = tr_got (snd (pl_world s)) \<and> pl_execs s' = pl_execs s) s"
proof -
  obtain w t where w: "pl_world s = (w, t)" by fastforce
  show ?thesis
    using io_okD(6) [OF io] k w
    unfolding sslWriteFd0_def exec_def editPollFd_def
    by (auto simp: wp_simps wp_sys_iff recorded_eq wp_option)
qed

interpretation plain_relay: relay "logged os" "\<lambda>w. tr_got (snd w) f" "\<lambda>w. tr_put (snd w) c"
    "\<lambda>d. ed_fd0 d = c \<and> c \<noteq> f" "Executor_writeFd0 (logged os)" a f
  for os f c a
proof (unfold_locales, goal_cases)
  case (7 s bs)
  then show ?case by (intro wp_mono [OF sends_plain]) auto
qed (auto simp: recorded_def split: prod.splits)

interpretation tls_relay: relay "logged os" "\<lambda>w. tr_got (snd w) f" "\<lambda>w. tr_sput (snd w) c"
    "\<lambda>d. ed_ssl d = c" "sslWriteFd0 (logged os)" a f
  for os f c a
proof (unfold_locales, goal_cases)
  case (7 s bs)
  then show ?case by (intro wp_mono [OF sends_tls]) auto
qed (auto simp: recorded_def split: prod.splits)

section \<open>Properties\<close>

text \<open>
  C18: A plain proxy loses, adds and reorders nothing of the response, whatever the kernel does:
  once the request is forwarded, a call of the handler on any event leaves the bytes read from
  the upstream server, after those already in the buffer, equal to the bytes written to the client
  followed by those now in the buffer.
\<close>

theorem proxy_relays:
  assumes "io_ok os" "pl_execs s a = d" "rb_inv (ed_buffer d)" "ed_fd0 d \<noteq> ed_fd1 d"
    and "ed_state d = ES_forwardResponse \<or> ed_state d = ES_forwardResponseOnlyWrite"
    and "run_state (ProxyExecutorReadWrite_process (logged os) (Executor_writeFd0 (logged os)) a fd ev) s = (r, s')"
  shows "\<exists>x y. tr_got (snd (pl_world s')) (ed_fd1 d) = tr_got (snd (pl_world s)) (ed_fd1 d) @ x
     \<and> tr_put (snd (pl_world s')) (ed_fd0 d) = tr_put (snd (pl_world s)) (ed_fd0 d) @ y
     \<and> rb_content (ed_buffer d) @ x = y @ rb_content (ed_buffer (pl_execs s' a))"
  by (rule plain_relay.relays [OF _ assms(2) _ _ refl assms(5,6)]) (use assms in simp_all)

text \<open>
  The same of the proxy of TLS connections, with what OpenSSL accepted for the connection.\<close>

theorem ssl_proxy_relays:
  assumes "io_ok os" "pl_execs s a = d" "rb_inv (ed_buffer d)"
    and "ed_state d = ES_forwardResponse \<or> ed_state d = ES_forwardResponseOnlyWrite"
    and "run_state (SslProxyExecutor_process (logged os) a fd ev) s = (r, s')"
  shows "\<exists>x y. tr_got (snd (pl_world s')) (ed_fd1 d) = tr_got (snd (pl_world s)) (ed_fd1 d) @ x
     \<and> tr_sput (snd (pl_world s')) (ed_ssl d) = tr_sput (snd (pl_world s)) (ed_ssl d) @ y
     \<and> rb_content (ed_buffer d) @ x = y @ rb_content (ed_buffer (pl_execs s' a))"
  by (rule tls_relay.relays [OF _ assms(2) _ refl refl assms(4) assms(5) [unfolded SslProxyExecutor_process_def]])
    (use assms in simp_all)

definition sample_relay :: "(sample_world \<times> traffic) poll_loop" where
  "sample_relay = (pl_empty sp_defaults (sample_world ''response'', \<lparr>tr_got = \<lambda>_. [], tr_put = \<lambda>_. [], tr_sput = \<lambda>_. [], tr_files = \<lambda>_. []\<rparr>))
     \<lparr>pl_execs := (\<lambda>_. ed_default\<lparr>ed_state := ES_forwardResponse, ed_fd0 := 5, ed_fd1 := 6, ed_ssl := Some 1, ed_buffer := rb_init 4 rb_empty\<rparr>)\<rparr>"

lemma sample_relay_simps [simp]:
  "pl_execs sample_relay 0 = ed_default\<lparr>ed_state := ES_forwardResponse, ed_fd0 := 5, ed_fd1 := 6, ed_ssl := Some 1, ed_buffer := rb_init 4 rb_empty\<rparr>"
  by (simp add: sample_relay_def)

lemma sample_relay_traffic [simp]: "pl_world sample_relay = (sample_world ''response'', \<lparr>tr_got = \<lambda>_. [], tr_put = \<lambda>_. [], tr_sput = \<lambda>_. [], tr_files = \<lambda>_. []\<rparr>)"
  by (simp add: sample_relay_def pl_empty_def)

lemma proxy_relays_witness:
  "\<exists>r s'. run_state (ProxyExecutorReadWrite_process (logged sample_os) (Executor_writeFd0 (logged sample_os)) 0 6 EPOLLIN)
       sample_relay = (r, s')
     \<and> tr_got (snd (pl_world s')) 6 = tr_put (snd (pl_world s')) 5 @ rb_content (ed_buffer (pl_execs s' 0))"
proof -
  obtain r s' where r: "run_state (ProxyExecutorReadWrite_process (logged sample_os) (Executor_writeFd0 (logged sample_os))
      0 6 EPOLLIN) sample_relay = (r, s')" by fastforce
  from proxy_relays [OF sample_os_ok(1) [unfolded os_ok_def, THEN conjunct1] sample_relay_simps _ _ _ r] r show ?thesis
    by (auto simp: rb_init_inv rb_inv_empty)
qed

lemma ssl_proxy_relays_witness:
  "\<exists>r s'. run_state (SslProxyExecutor_process (logged sample_os) 0 6 EPOLLIN) sample_relay = (r, s')
     \<and> tr_got (snd (pl_world s')) 6 = tr_sput (snd (pl_world s')) (Some 1) @ rb_content (ed_buffer (pl_execs s' 0))"
proof -
  obtain r s' where r: "run_state (SslProxyExecutor_process (logged sample_os) 0 6 EPOLLIN) sample_relay = (r, s')" by fastforce
  from ssl_proxy_relays [OF sample_os_ok(1) [unfolded os_ok_def, THEN conjunct1] sample_relay_simps _ _ r] r show ?thesis
    by (auto simp: rb_init_inv rb_inv_empty)
qed

end
