(* ===== verification/SslFileExecutor.thy ===== *)
theory SslFileExecutor
  imports FileExecutor SslUtils
begin

text \<open>
  \<open>src/executors/SslFileExecutor.cpp\<close>: serves a file over TLS. \<open>sendfile\<close> cannot encrypt, so the
  file goes through the connection's buffer: each event reads once from the file and writes once
  to the client. \<open>up\<close> is \<open>FileExecutor\<close>'s.
\<close>

text \<open>
  The two halves of \<open>process_sendFile\<close>: \<open>Inl\<close> is a return from the handler, \<open>Inr\<close> the value of
  \<open>operationOk\<close> with which it goes on.
\<close>

definition sslFile_read :: "'w os \<Rightarrow> nat \<Rightarrow> ('w poll_loop, process_result + bool) state" where
  "sslFile_read os a = do {
     d \<leftarrow> exec a;
     if ed_fd1 d > 0 then do {
       r \<leftarrow> buf_startWrite a;
       (case r of (ok, p, sz) \<Rightarrow>
         if ok then do {
           r \<leftarrow> sys (os_read os (ed_fd1 d) sz);
           (case r of (bytesRead, bytes) \<Rightarrow>
             if bytesRead < 0 then State_Monad.return (Inl PRES_removeExecutorError)
             else if bytesRead = 0 then do { closeFd os a (ed_fd1 d); State_Monad.return (Inr False) }
             else do {
               buf_store a p bytes;
               buf_endWrite a (nat bytesRead);
               State_Monad.return (Inr True)
             })
         }
         else State_Monad.return (Inr False))
     }
     else State_Monad.return (Inr False)
   }"

definition sslFile_write :: "'w os \<Rightarrow> nat \<Rightarrow> bool \<Rightarrow> ('w poll_loop, process_result + bool) state" where
  "sslFile_write os a operationOk = do {
     r \<leftarrow> buf_startRead a;
     (case r of (ok, p, sz) \<Rightarrow>
       if ok then do {
         bytes \<leftarrow> buf_mem a p sz;
         d \<leftarrow> exec a;
         bytesWritten \<leftarrow> sys (os_SSL_write os (ed_ssl d) bytes);
         if bytesWritten > 0 then do {
           buf_endRead a (nat bytesWritten);
           upd a (\<lambda>d. d\<lparr>ed_bytesToSend := ed_bytesToSend d - bytesWritten\<rparr>);
           d \<leftarrow> exec a;
           if ed_bytesToSend d = 0 then State_Monad.return (Inl PRES_removeExecutorOk)
           else State_Monad.return (Inr True)
         }
         else do {
           error \<leftarrow> sys (os_SSL_get_error os (ed_ssl d) bytesWritten);
           if error = SSL_ERROR_WANT_WRITE then State_Monad.return (Inl PRES_ok)
           else if error = SSL_ERROR_WANT_READ then do {
             rc \<leftarrow> editPollFd os a (ed_fd0 d) (EPOLLIN OR EPOLLOUT);
             if rc \<noteq> 0 then State_Monad.return (Inl PRES_removeExecutorError)
             else State_Monad.return (Inr operationOk)
           }
           else State_Monad.return (Inl PRES_removeExecutorError)
         }
       }
       else do {
         d \<leftarrow> exec a;
         if ed_fd1 d > 0 then State_Monad.return (Inl PRES_removeExecutorError)
         else State_Monad.return (Inr operationOk)
       })
   }"

definition SslFileExecutor_process_sendFile :: "'w os \<Rightarrow> nat \<Rightarrow> ('w poll_loop, process_result) state" where
  "SslFileExecutor_process_sendFile os a = do {
     r \<leftarrow> sslFile_read os a;
     case r of
       Inl res \<Rightarrow> State_Monad.return res
     | Inr operationOk \<Rightarrow> do {
         r \<leftarrow> sslFile_write os a operationOk;
         case r of
           Inl res \<Rightarrow> State_Monad.return res
         | Inr operationOk \<Rightarrow> do {
             (if operationOk then retry_reset a else retry_inc a);
             State_Monad.return PRES_ok
           }
       }
   }"

definition SslFileExecutor_process :: "'w os \<Rightarrow> nat \<Rightarrow> int \<Rightarrow> 32 word
    \<Rightarrow> ('w poll_loop, process_result) state" where
  "SslFileExecutor_process os a fd events = do {
     d \<leftarrow> exec a;
     if ed_state d = ES_sendFile \<and> fd = ed_fd0 d \<and> (has events EPOLLIN \<or> has events EPOLLOUT)
     then SslFileExecutor_process_sendFile os a
     else FileExecutor_dispatch (sslWriteFd0 os) (SslFileExecutor_process_sendFile os) a fd events
   }"

text \<open>
  The counter of bytes to send falls by what the client got and the buffer loses exactly
  that; the executor ends with success when the counter is at zero.
\<close>

lemma sslFile_read_at:
  assumes os: "os_ok os" and s: "at us a d s"
  shows "wp (sslFile_read os a) (\<lambda>r s'. \<exists>d'. at us a d' s' \<and> ed_bytesToSend d' = ed_bytesToSend d
     \<and> r \<noteq> Inl PRES_removeExecutorOk \<and> prefix (rb_content (ed_buffer d)) (rb_content (ed_buffer d'))) s"
proof -
  have io: "io_ok os" and del: "epoll_del_ok os" using os by (simp_all add: os_ok_def)
  note b = exec_fields_buffer [OF at_fields [OF s]]
  have w: "rb_content (rb_endWrite (length bs) (rb_store p bs q)) = rb_content (ed_buffer d) @ bs"
    if "rb_startWrite (ed_buffer d) = ((True, p, n), q)" "length bs \<le> n" for p bs q n
    using rb_write [OF b that] by simp
  show ?thesis
    using s unfolding sslFile_read_def wp_simps
    by - (intro conjI impI allI | rule wp_os_read [OF io] loop_rules del free_upds at_exI | assumption
      | (auto simp: rb_endWrite_def closed_fd_def; fail) | (auto simp: w; fail))+
qed

lemma sslFile_write_at:
  assumes io: "io_ok os" and s: "at us a d s"
  shows "wp (sslFile_write os a k) (\<lambda>r s'. \<exists>d'. at us a d' s'
     \<and> ed_bytesToSend d - ed_bytesToSend d' = int (length (rb_content (ed_buffer d))) - int (length (rb_content (ed_buffer d')))
     \<and> suffix (rb_content (ed_buffer d')) (rb_content (ed_buffer d))
     \<and> (r = Inl PRES_removeExecutorOk \<longrightarrow> ed_bytesToSend d' = 0 \<and> rb_content (ed_buffer d') \<noteq> rb_content (ed_buffer d))) s"
proof -
  note b = exec_fields_buffer [OF at_fields [OF s]]
  have l: "n \<le> length (rb_content (ed_buffer d))" if "rb_startRead (ed_buffer d) = (True, p, n)" for p n
    using rb_startRead_region [OF b that] by simp
  have ne: "drop (nat r) xs \<noteq> xs" if "0 < r" "xs \<noteq> []" for r and xs :: string
    using that by (metis append_self_conv2 append_take_drop_id less_numeral_extra(3) nat_0 take_eq_Nil zero_less_nat_eq)
  show ?thesis
    using s unfolding sslFile_write_def wp_simps
    by - (intro conjI impI allI | rule wp_os_SSL_write [OF io] loop_rules free_upds at_exI | assumption
      | (auto simp: suffix_drop ne dest: l; fail))+
qed

lemma SslFileExecutor_sendFile_at:
  assumes os: "os_ok os" and s: "at us a d s"
  shows "wp (SslFileExecutor_process_sendFile os a) (\<lambda>r s'. \<exists>d'. at us a d' s'
     \<and> (r = PRES_removeExecutorOk \<longrightarrow> ed_bytesToSend d' = 0 \<and> 0 < ed_bytesToSend d)) s"
proof -
  have io: "io_ok os" using os by (simp add: os_ok_def)
  have lt: "suffix xs ys \<Longrightarrow> xs \<noteq> ys \<Longrightarrow> length xs < length ys" for xs ys :: string
    by (auto simp: suffix_def)
  have W: "wp (sslFile_write os a k) (\<lambda>r s'. \<exists>d'. at us a d' s' \<and> (r = Inl PRES_removeExecutorOk \<longrightarrow>
      ed_bytesToSend d' = 0 \<and> 0 < ed_bytesToSend c)) t" if "at us a c t" for c t k
    by (rule wp_mono [OF sslFile_write_at [OF io that]], elim exE conjE, rule at_exI, assumption)
      (auto dest: lt)
  show ?thesis
    unfolding SslFileExecutor_process_sendFile_def wp_simps
    apply (rule wp_mono [OF sslFile_read_at [OF os s]])
    apply (intro conjI impI allI; elim exE conjE)
    subgoal by auto
    subgoal for r s1 k d1
      apply (rule wp_mono [OF W], assumption)
      apply (elim exE conjE)
      apply (intro conjI impI allI | rule loop_rules at_exI | assumption | (auto; fail))+
      done
    done
qed

section \<open>The contract\<close>

interpretation ssl_file_exec: executor os "FileExecutor_up os" "SslFileExecutor_process os"
    "file_ready X_sslFile" "\<lambda>d. ed_pExecutor d = Some X_sslFile"
  for os
proof (unfold_locales, goal_cases)
  case (1 us a d s)
  then show ?case
    by (intro wp_mono [OF FileExecutor_up_at]) (auto simp: file_ready_def)
next
  case (2 us a d s fd ev)
  have S: "wp (SslFileExecutor_process_sendFile os a) (\<lambda>_ s'. \<exists>d'. at us a d' s') t" if "at us a d t" for t
    by (rule wp_mono [OF SslFileExecutor_sendFile_at [OF 2(1) that]]) auto
  show ?case
    unfolding SslFileExecutor_process_def wp_simps
    by (rule wp_exec [OF 2(2)], intro conjI impI)
      (use 2 S in \<open>auto simp: os_ok_def intro!: FileExecutor_dispatch_at write_ok_ssl intro: wp_mono [OF S] in_loopI\<close>)
qed

end
