(* ===== verification/ProxyExecutorSplice.thy ===== *)
theory ProxyExecutorSplice
  imports ProxyExecutorReadWrite
begin

text \<open>
  \<open>src/executors/ProxyExecutorSplice.cpp\<close>: the proxy of clear connections. The request is still
  forwarded from the connection's buffer; the response passes through a pipe with \<open>splice\<close> and
  never enters user memory. \<open>bytesInPipe\<close> counts what the pipe holds, and the descriptors are
  registered so that the side that can make progress is the one waited for.

  \<open>bytesInPipe\<close> is a C \<open>int\<close>; the pipe's capacity keeps it far below the type's bound.
\<close>

definition ProxyExecutorSplice_up :: "'w os \<Rightarrow> nat \<Rightarrow> ('w poll_loop, int) state" where
  "ProxyExecutorSplice_up os a = do {
     upd a (\<lambda>d. d\<lparr>ed_removeOnTimeout := True\<rparr>);
     d \<leftarrow> exec a;
     case ed_proxy d of
       None \<Rightarrow> State_Monad.return (-1)
     | Some i \<Rightarrow> do {
         px \<leftarrow> gets (\<lambda>s. sp_proxies (pl_parameters s) ! i);
         if px_socketType px = ST_none then State_Monad.return (-1)
         else do {
           r \<leftarrow> (if px_socketType px = ST_tcp then socketConnectNonBlock os (px_address px) (px_port px)
                 else socketConnectUnixNonBlock os (px_address px));
           (case r of (fd1, connected) \<Rightarrow> do {
             upd a (\<lambda>d. d\<lparr>ed_fd1 := fd1\<rparr>);
             if fd1 < 0 then State_Monad.return (-1)
             else do {
               rc \<leftarrow> addPollFd os a fd1 EPOLLOUT;
               if rc \<noteq> 0 then State_Monad.return (-1)
               else do {
                 d \<leftarrow> exec a;
                 rc \<leftarrow> removePollFd os a (ed_fd0 d);
                 if rc \<noteq> 0 then State_Monad.return (-1)
                 else do {
                   set_state a (if connected then ES_forwardRequest else ES_waitConnect);
                   State_Monad.return 0
                 }
               }
             }
           })
         }
       }
   }"

definition openPipe :: "'w os \<Rightarrow> nat \<Rightarrow> ('w poll_loop, int) state" where
  "openPipe os a = do {
     r \<leftarrow> sys (os_pipe2 os);
     (case r of (rc, readFd, writeFd) \<Rightarrow>
       if rc \<noteq> 0 then State_Monad.return (-1)
       else do {
         upd a (\<lambda>d. d\<lparr>ed_pipeReadFd := readFd, ed_pipeWriteFd := writeFd\<rparr>);
         State_Monad.return 0
       })
   }"

definition Splice_forwardRequest :: "'w os \<Rightarrow> nat \<Rightarrow> ('w poll_loop, process_result) state" where
  "Splice_forwardRequest os a = do {
     r \<leftarrow> buf_startRead a;
     (case r of (ok, p, sz) \<Rightarrow>
       if ok then do {
         bytes \<leftarrow> buf_mem a p sz;
         d \<leftarrow> exec a;
         bytesWritten \<leftarrow> sys (os_write os (ed_fd1 d) bytes);
         if bytesWritten \<le> 0 then do {
           e \<leftarrow> errno os;
           if e = EAGAIN \<or> e = EWOULDBLOCK then do { retry_inc a; State_Monad.return PRES_ok }
           else State_Monad.return PRES_removeExecutorError
         }
         else do {
           retry_reset a;
           buf_endRead a (nat bytesWritten);
           if bytesWritten = int sz then do {
             buf_clear a;
             set_state a ES_forwardResponse;
             d \<leftarrow> exec a;
             rc \<leftarrow> editPollFd os a (ed_fd1 d) EPOLLIN;
             if rc \<noteq> 0 then State_Monad.return PRES_removeExecutorError
             else do {
               rc \<leftarrow> openPipe os a;
               if rc \<noteq> 0 then State_Monad.return PRES_removeExecutorError
               else State_Monad.return PRES_ok
             }
           }
           else State_Monad.return PRES_ok
         }
       }
       else State_Monad.return PRES_removeExecutorError)
   }"

definition SPLICE_BYTES :: int where "SPLICE_BYTES = 100000"

definition Splice_forwardResponseWrite :: "'w os \<Rightarrow> nat \<Rightarrow> ('w poll_loop, process_result) state" where
  "Splice_forwardResponseWrite os a = do {
     d \<leftarrow> exec a;
     if ed_bytesInPipe d > 0 then do {
       bytes \<leftarrow> sys (os_splice os (ed_pipeReadFd d) (ed_fd0 d) SPLICE_BYTES);
       if bytes = 0 then do { retry_inc a; State_Monad.return PRES_ok }
       else if bytes < 0 then do {
         e \<leftarrow> errno os;
         if e = EAGAIN \<or> e = EWOULDBLOCK then do {
           retry_inc a;
           d \<leftarrow> exec a;
           rc \<leftarrow> (if ed_pollData0 d = None then addPollFd os a (ed_fd0 d) EPOLLOUT
                  else State_Monad.return 0);
           if rc \<noteq> 0 then State_Monad.return PRES_removeExecutorError
           else State_Monad.return PRES_ok
         }
         else State_Monad.return PRES_removeExecutorError
       }
       else do {
         upd a (\<lambda>d. d\<lparr>ed_bytesInPipe := ed_bytesInPipe d - bytes\<rparr>);
         retry_reset a;
         d \<leftarrow> exec a;
         if ed_bytesInPipe d < 0 then State_Monad.return PRES_removeExecutorError
         else if ed_state d = ES_forwardResponseOnlyWrite \<and> ed_bytesInPipe d = 0
         then State_Monad.return PRES_removeExecutorOk
         else do {
           rc \<leftarrow> (if ed_bytesInPipe d > 0 then
                    (if ed_pollData0 d = None then addPollFd os a (ed_fd0 d) EPOLLOUT
                     else State_Monad.return 0)
                  else do {
                    rc \<leftarrow> (if ed_pollData0 d \<noteq> None then removePollFd os a (ed_fd0 d)
                           else State_Monad.return 0);
                    if rc \<noteq> 0 then State_Monad.return (-1 :: int)
                    else do {
                      d \<leftarrow> exec a;
                      if ed_pollData1 d = None then addPollFd os a (ed_fd1 d) EPOLLIN
                      else State_Monad.return 0
                    }
                  });
           if rc \<noteq> 0 then State_Monad.return PRES_removeExecutorError
           else do { retry_inc a; State_Monad.return PRES_ok }
         }
       }
     }
     else if ed_state d = ES_forwardResponseOnlyWrite then State_Monad.return PRES_removeExecutorOk
     else do { retry_inc a; State_Monad.return PRES_ok }
   }"

definition Splice_forwardResponseRead :: "'w os \<Rightarrow> nat \<Rightarrow> ('w poll_loop, process_result) state" where
  "Splice_forwardResponseRead os a = do {
     d \<leftarrow> exec a;
     bytes \<leftarrow> sys (os_splice os (ed_fd1 d) (ed_pipeWriteFd d) SPLICE_BYTES);
     if bytes = 0 then do {
       closeFd os a (ed_fd1 d);
       set_state a ES_forwardResponseOnlyWrite;
       Splice_forwardResponseWrite os a
     }
     else if bytes < 0 then do {
       e \<leftarrow> errno os;
       if e = EAGAIN \<or> e = EWOULDBLOCK then do {
         retry_inc a;
         d \<leftarrow> exec a;
         rc \<leftarrow> (if ed_bytesInPipe d > 0 \<and> ed_pollData1 d \<noteq> None then removePollFd os a (ed_fd1 d)
                else State_Monad.return 0);
         if rc \<noteq> 0 then State_Monad.return PRES_removeExecutorError
         else State_Monad.return PRES_ok
       }
       else State_Monad.return PRES_removeExecutorError
     }
     else do {
       retry_reset a;
       upd a (\<lambda>d. d\<lparr>ed_bytesInPipe := ed_bytesInPipe d + bytes\<rparr>);
       Splice_forwardResponseWrite os a
     }
   }"

text \<open>The function of \<open>ProxyExecutorReadWrite\<close>, word for word, with this class's \<open>process_forwardRequest\<close>.\<close>

definition Splice_waitConnect :: "'w os \<Rightarrow> nat \<Rightarrow> ('w poll_loop, process_result) state" where
  "Splice_waitConnect os = process_waitConnect os (Splice_forwardRequest os)"

definition ProxyExecutorSplice_process :: "'w os \<Rightarrow> nat \<Rightarrow> int \<Rightarrow> 32 word
    \<Rightarrow> ('w poll_loop, process_result) state" where
  "ProxyExecutorSplice_process os a fd events = do {
     d \<leftarrow> exec a;
     if ed_state d = ES_waitConnect \<and> fd = ed_fd1 d \<and> has events EPOLLOUT
     then Splice_waitConnect os a
     else if ed_state d = ES_forwardRequest \<and> fd = ed_fd1 d \<and> has events EPOLLOUT
     then Splice_forwardRequest os a
     else if ed_state d = ES_forwardResponse \<and> fd = ed_fd1 d \<and> has events EPOLLIN
     then Splice_forwardResponseRead os a
     else if (ed_state d = ES_forwardResponse \<or> ed_state d = ES_forwardResponseOnlyWrite)
       \<and> fd = ed_fd0 d \<and> has events EPOLLOUT
     then Splice_forwardResponseWrite os a
     else State_Monad.return PRES_removeExecutorError
   }"

section \<open>The loop's data\<close>

text \<open>The two proxies start in the same way.\<close>

lemma Splice_up_ReadWrite_up: "ProxyExecutorSplice_up os a = ProxyExecutorReadWrite_up os a"
  by (simp add: ProxyExecutorSplice_up_def ProxyExecutorReadWrite_up_def)

lemma wp_openPipe [loop_rules]:
  assumes "at us a d s" and "\<And>r s' x y. at us a (d\<lparr>ed_pipeReadFd := x, ed_pipeWriteFd := y\<rparr>) s' \<Longrightarrow> Q r s'"
    and "\<And>r s'. at us a d s' \<Longrightarrow> Q r s'"
  shows "wp (openPipe os a) Q s"
  unfolding openPipe_def wp_simps
  by (rule wp_sys_at [OF assms(1)]) (auto intro: assms wp_upd_free free_upds)

lemma Splice_forwardRequest_at:
  assumes os: "io_ok os" and "at us a d s" "ed_pExecutor d \<noteq> None"
  shows "wp (Splice_forwardRequest os a) (\<lambda>r s'. \<exists>d'. at us a d' s' \<and> (rb_straight (ed_buffer d) \<longrightarrow>
     rb_straight (ed_buffer d') \<and> suffix (rb_content (ed_buffer d')) (rb_content (ed_buffer d))
     \<and> (ed_state d' \<noteq> ed_state d \<longrightarrow> ed_state d' = ES_forwardResponse \<and> rb_content (ed_buffer d') = []))) s"
proof -
  note b = exec_fields_buffer [OF at_fields [OF assms(2)]]
  note st = rb_straight_read [OF b] rb_straight_endRead [OF b]
  show ?thesis
    using assms(2,3) unfolding Splice_forwardRequest_def wp_simps
    by - (intro conjI impI allI | rule wp_os_write [OF os] loop_rules free_upds at_exI | assumption
      | (auto simp: st suffix_drop; fail))+
qed

text \<open>
  The pipe's balance: a write takes out what \<open>splice\<close> moved to the client, and success means
  that the upstream has closed and the pipe is empty.
\<close>

lemma Splice_forwardResponseWrite_at:
  assumes s: "at us a d s" "is_proxy d"
  shows "wp (Splice_forwardResponseWrite os a) (\<lambda>r s'. \<exists>d'. at us a d' s' \<and> ed_state d' = ed_state d
     \<and> ed_bytesInPipe d' \<le> ed_bytesInPipe d
     \<and> (r = PRES_removeExecutorOk \<longrightarrow> ed_state d = ES_forwardResponseOnlyWrite \<and> ed_bytesInPipe d' \<le> 0)
     \<and> (r = PRES_ok \<and> 0 \<le> ed_bytesInPipe d \<longrightarrow> 0 \<le> ed_bytesInPipe d')) s"
  using s unfolding Splice_forwardResponseWrite_def wp_simps
  by - (intro conjI impI allI | rule loop_rules free_upds at_exI | assumption
    | (auto simp: linked_poll_def unlinked_poll_def; fail))+

lemma Splice_forwardResponseRead_at:
  assumes os: "os_ok os" and s: "at us a d s" "is_proxy d"
  shows "wp (Splice_forwardResponseRead os a) (\<lambda>r s'. \<exists>d'. at us a d' s'
     \<and> (r = PRES_removeExecutorOk \<longrightarrow> ed_state d' = ES_forwardResponseOnlyWrite \<and> ed_bytesInPipe d' \<le> 0)
     \<and> (r = PRES_ok \<and> 0 \<le> ed_bytesInPipe d \<longrightarrow> 0 \<le> ed_bytesInPipe d')) s"
proof -
  have del: "epoll_del_ok os" using os by (simp add: os_ok_def)
  have W: "wp (Splice_forwardResponseWrite os a) (\<lambda>r s'. \<exists>d'. at us a d' s'
      \<and> (r = PRES_removeExecutorOk \<longrightarrow> ed_state d' = ES_forwardResponseOnlyWrite \<and> ed_bytesInPipe d' \<le> 0)
      \<and> (r = PRES_ok \<and> 0 \<le> ed_bytesInPipe d \<longrightarrow> 0 \<le> ed_bytesInPipe d')) t"
    if "at us a c t" "is_proxy c" "ed_bytesInPipe d \<le> ed_bytesInPipe c" for c t
    by (rule wp_mono [OF Splice_forwardResponseWrite_at [OF that(1,2)]]) (use that(3) in auto)
  show ?thesis
    using s unfolding Splice_forwardResponseRead_def wp_simps
    by - (intro conjI impI allI | rule W loop_rules del free_upds at_exI | assumption
      | (auto simp: is_proxy_executor closed_fd_def unlinked_poll_def; fail))+
qed

section \<open>The contract\<close>

interpretation proxy_exec: executor os "ProxyExecutorSplice_up os" "ProxyExecutorSplice_process os"
    "proxy_ready X_proxy" "\<lambda>d. ed_pExecutor d = Some X_proxy"
  for os
proof (unfold_locales, goal_cases)
  case (1 us a d s)
  then show ?case
    unfolding Splice_up_ReadWrite_up
    by (intro wp_mono [OF proxy_up_at]) (auto simp: proxy_ready_def is_proxy_def)
next
  case (2 us a d s fd ev)
  then have io: "io_ok os" and px: "is_proxy d" by (simp_all add: os_ok_def is_proxy_def)
  have F: "wp (Splice_forwardRequest os a) (\<lambda>_ s'. \<exists>d'. at us a d' s') t" if "at us a c t" "is_proxy c" for c t
    by (rule wp_mono [OF Splice_forwardRequest_at [OF io that(1)]]) (use that(2) in \<open>auto simp: is_proxy_executor\<close>)
  have C: "wp (process_waitConnect os (Splice_forwardRequest os) a) (\<lambda>_ s'. \<exists>d'. at us a d' s') s"
    by (rule waitConnect_at [OF 2(2) px]) (rule F)
  show ?case
    unfolding ProxyExecutorSplice_process_def Splice_waitConnect_def wp_simps
    by (rule wp_exec [OF 2(2)], intro conjI impI)
      (auto intro: wp_mono [OF C] wp_mono [OF F [OF 2(2) px]]
        wp_mono [OF Splice_forwardResponseRead_at [OF 2(1,2) px]]
        wp_mono [OF Splice_forwardResponseWrite_at [OF 2(2) px]] in_loopI [OF 2(2)] in_loopI)
qed

end
