(* ===== verification/HttpRequestParse.thy ===== *)
theory HttpRequestParse
  imports HttpRequest
begin

text \<open>
  The loop of \<open>HttpRequest::parseInternal\<close>: inversion of one iteration, the offsets it
  records stay inside the buffer, when it returns and when it does not, what a request parsed
  in pieces has to do with the same request parsed at once, and what the parser recovers from
  a well-formed request.
\<close>

section \<open>Reasoning about the loop\<close>

lemma parseInternal_cases:
  "parseInternal r = (case parse_step r of Inl r' \<Rightarrow> parseInternal r' | Inr res \<Rightarrow> Some res)"
  by (rule parseInternal.simps)

lemma parseInternal_Inl: "parse_step r = Inl r' \<Longrightarrow> parseInternal r = parseInternal r'"
  by (simp add: parseInternal.simps [of r])

lemma parseInternal_Inr: "parse_step r = Inr res \<Longrightarrow> parseInternal r = Some res"
  by (simp add: parseInternal.simps [of r])

lemma parseInternal_rule:
  assumes ret: "parseInternal r = Some (res, r')" and "I r"
    and cont: "\<And>r r1. I r \<Longrightarrow> parse_step r = Inl r1 \<Longrightarrow> I r1"
    and stop: "\<And>r res r1. I r \<Longrightarrow> parse_step r = Inr (res, r1) \<Longrightarrow> Q res r1"
  shows "Q res r'"
proof -
  have "I r \<longrightarrow> Q (fst x) (snd x)" if "parseInternal r = Some x" for r x
  proof (rule parseInternal.raw_induct [where P = "\<lambda>r x. I r \<longrightarrow> Q (fst x) (snd x)", OF _ that])
    fix f r x
    assume IH: "\<And>r x. f r = Some x \<Longrightarrow> I r \<longrightarrow> Q (fst x) (snd x)"
      and eq: "(case parse_step r of Inl r' \<Rightarrow> f r' | Inr res \<Rightarrow> Some res) = Some x"
    show "I r \<longrightarrow> Q (fst x) (snd x)"
    proof (cases "parse_step r")
      case (Inl r1)
      with eq IH [of r1 x] cont show ?thesis by auto
    next
      case (Inr y)
      with eq stop [of r "fst y" "snd y"] show ?thesis by auto
    qed
  qed
  with assms(1,2) show ?thesis by fastforce
qed

section \<open>Offsets stay inside the buffer\<close>

definition field_in :: "nat \<Rightarrow> field \<Rightarrow> bool" where
  "field_in n f \<longleftrightarrow> fld_start f + fld_length f \<le> n"

definition rq_wf :: "http_request \<Rightarrow> bool" where
  "rq_wf r \<longleftrightarrow> rq_cur r \<le> rq_size r
     \<and> rq_methodStart r + rq_methodLength r \<le> rq_size r
     \<and> rq_urlStart r + rq_urlLength r \<le> rq_size r
     \<and> rq_urlParametersStart r + rq_urlParametersLength r \<le> rq_size r
     \<and> field_in (rq_size r) (rq_curKey r)
     \<and> (\<forall>h \<in> set (rq_headers r). field_in (rq_size r) (hdr_key h) \<and> field_in (rq_size r) (hdr_value h))
     \<and> rq_contentStart r \<le> rq_size r
     \<and> (rq_state r = S_finishOk \<longrightarrow> int (rq_contentStart r) + max 0 (rq_contentLength r) \<le> int (rq_size r))"

lemmas reader_defs = readMethod_def readSpaces_def readUrl_def readUrlParameters_def
  readToNextLine_def readHeaderKey_def readHeaderSpace_def readHeaderValue_def readHeaderLineBreak_def

lemma reader_bounds:
  assumes "rq_cur r \<le> rq_size r"
  shows "readMethod r = (res, len) \<Longrightarrow> rq_cur r + len \<le> rq_size r"
    "readSpaces r = (res, len) \<Longrightarrow> rq_cur r + len \<le> rq_size r"
    "readUrl r = (res, len) \<Longrightarrow> rq_cur r + len \<le> rq_size r"
    "readUrlParameters r = (res, len) \<Longrightarrow> rq_cur r + len \<le> rq_size r"
    "readToNextLine r = (res, len) \<Longrightarrow> rq_cur r + len \<le> rq_size r"
    "readHeaderKey r = (res, len) \<Longrightarrow> rq_cur r + len \<le> rq_size r"
    "readHeaderSpace r = (res, len) \<Longrightarrow> rq_cur r + len \<le> rq_size r"
    "readHeaderValue r = (res, len) \<Longrightarrow> rq_cur r + len \<le> rq_size r"
    "readHeaderLineBreak r = (res, len) \<Longrightarrow> rq_cur r + len \<le> rq_size r"
  using assms scan_le [OF assms] scan_le [OF scan_le [OF assms]] scan_ge [of "rq_cur r"]
    order_trans [OF scan_ge scan_ge, of "rq_cur r"]
  by (auto simp: reader_defs Let_def split: if_splits)

lemma parse_step_data:
  "parse_step r = Inl r' \<Longrightarrow> rq_data r' = rq_data r"
  "parse_step r = Inr (res, r') \<Longrightarrow> rq_data r' = rq_data r"
  by (auto simp: parse_step_defs Let_def split: parse_state.splits prod.splits if_splits)

text \<open>Inversion of one iteration, by the state it starts in.\<close>

definition value_header :: "http_request \<Rightarrow> nat \<Rightarrow> header" where
  "value_header r len = \<lparr>hdr_key = rq_curKey r, hdr_value = \<lparr>fld_start = rq_cur r, fld_length = len\<rparr>\<rparr>"

definition is_length_key :: "http_request \<Rightarrow> bool" where
  "is_length_key r \<longleftrightarrow> strncasecmp_eq ''Content-Length''
     (drop (fld_start (rq_curKey r)) (rq_data r)) (fld_length (rq_curKey r))"

lemmas step_simps = parse_step_defs Let_def prod_eq_iff is_length_key_def value_header_def

lemmas step_splits = prod.splits if_splits

lemma parse_step_InlE:
  assumes "parse_step r = Inl r'"
  obtains (verb) len where "rq_state r = S_method" "readMethod r = (RR_ok, len)"
      "r' = r\<lparr>rq_methodStart := rq_cur r, rq_methodLength := len, rq_cur := rq_cur r + len,
              rq_state := S_spaceAfterMethod\<rparr>"
  | (spaces) len where "rq_state r = S_spaceAfterMethod" "readSpaces r = (RR_ok, len)"
      "r' = r\<lparr>rq_cur := rq_cur r + len, rq_state := S_url\<rparr>"
  | (url) len where "rq_state r = S_url" "readUrl r = (RR_ok, len)"
      "r' = r\<lparr>rq_urlStart := rq_cur r, rq_urlLength := len, rq_cur := rq_cur r + len,
              rq_state := S_spaceAfterUrl\<rparr>"
  | (question) len where "rq_state r = S_url" "readUrl r = (RR_question, len)"
      "r' = r\<lparr>rq_urlStart := rq_cur r, rq_urlLength := len, rq_cur := rq_cur r + len,
              rq_state := S_urlParameters\<rparr>"
  | (parameters) len where "rq_state r = S_urlParameters" "readUrlParameters r = (RR_ok, len)"
      "r' = r\<lparr>rq_urlParametersStart := rq_cur r, rq_urlParametersLength := len,
              rq_cur := rq_cur r + len, rq_state := S_spaceAfterUrl\<rparr>"
  | (stuck) "rq_state r = S_urlParameters" "fst (readUrlParameters r) \<noteq> RR_ok" "r' = r"
  | (nextLine) len where "rq_state r = S_spaceAfterUrl" "readToNextLine r = (RR_ok, len)"
      "r' = r\<lparr>rq_cur := rq_cur r + len, rq_state := S_headerKey\<rparr>"
  | (key) len where "rq_state r = S_headerKey" "readHeaderKey r = (RR_ok, len)"
      "r' = r\<lparr>rq_curKey := \<lparr>fld_start = rq_cur r, fld_length = len\<rparr>, rq_cur := rq_cur r + len,
              rq_state := S_headerSpace\<rparr>"
  | (space) len where "rq_state r = S_headerSpace" "readHeaderSpace r = (RR_ok, len)"
      "r' = r\<lparr>rq_cur := rq_cur r + len, rq_state := S_headerValue\<rparr>"
  | (val) len where "rq_state r = S_headerValue" "readHeaderValue r = (RR_ok, len)" "\<not> is_length_key r"
      "r' = r\<lparr>rq_headers := rq_headers r @ [value_header r len], rq_cur := rq_cur r + len,
              rq_state := S_headerLineBreak\<rparr>"
  | (length_val) len where "rq_state r = S_headerValue" "readHeaderValue r = (RR_ok, len)"
      "is_length_key r" "len \<le> BUF_CHARS"
      "r' = r\<lparr>rq_headers := rq_headers r @ [value_header r len],
              rq_contentLength := content_length_of (rq_data r) (hdr_value (value_header r len)),
              rq_cur := rq_cur r + len, rq_state := S_headerLineBreak\<rparr>"
  | (lineBreak) len where "rq_state r = S_headerLineBreak" "readHeaderLineBreak r = (RR_ok, len)"
      "r' = r\<lparr>rq_cur := rq_cur r + len, rq_state := S_headerKey\<rparr>"
  | (toContent) len where "rq_state r = S_headerLineBreak" "readHeaderLineBreak r = (RR_endOfHeaders, len)"
      "rq_contentLength r \<noteq> 0" "r' = r\<lparr>rq_cur := rq_cur r + len, rq_state := S_content\<rparr>"
proof (cases "rq_state r")
  case S_method
  show thesis by (rule verb [of "snd (readMethod r)"]) (use assms S_method in \<open>auto simp: step_simps split: step_splits\<close>)
next
  case S_spaceAfterMethod
  show thesis by (rule spaces [of "snd (readSpaces r)"]) (use assms S_spaceAfterMethod in \<open>auto simp: step_simps split: step_splits\<close>)
next
  case S_url
  then show thesis
    using assms url [of "snd (readUrl r)"] question [of "snd (readUrl r)"]
    by (cases "fst (readUrl r) = RR_ok") (auto simp: step_simps split: step_splits)
next
  case S_urlParameters
  then show thesis
    using assms parameters [of "snd (readUrlParameters r)"] stuck
    by (cases "fst (readUrlParameters r) = RR_ok") (auto simp: step_simps split: step_splits)
next
  case S_spaceAfterUrl
  show thesis by (rule nextLine [of "snd (readToNextLine r)"]) (use assms S_spaceAfterUrl in \<open>auto simp: step_simps split: step_splits\<close>)
next
  case S_headerKey
  show thesis by (rule key [of "snd (readHeaderKey r)"]) (use assms S_headerKey in \<open>auto simp: step_simps split: step_splits\<close>)
next
  case S_headerSpace
  show thesis by (rule space [of "snd (readHeaderSpace r)"]) (use assms S_headerSpace in \<open>auto simp: step_simps split: step_splits\<close>)
next
  case S_headerValue
  then show thesis
    using assms length_val [of "snd (readHeaderValue r)"] val [of "snd (readHeaderValue r)"]
    by (cases "is_length_key r") (auto simp: step_simps split: step_splits)
next
  case S_headerLineBreak
  then show thesis
    using assms lineBreak [of "snd (readHeaderLineBreak r)"] toContent [of "snd (readHeaderLineBreak r)"]
    by (cases "fst (readHeaderLineBreak r) = RR_ok") (auto simp: step_simps split: step_splits)
qed (use assms in \<open>auto simp: parse_step_defs split: if_splits\<close>)

lemma parse_step_InrE:
  assumes "parse_step r = Inr (res, r')"
  obtains (more) "res = PR_needMoreData" "r' = r"
  | (bad) "res = PR_finishInvalid" "r' = r"
  | (tooLong) len where "res = PR_finishInvalid" "rq_state r = S_headerValue"
      "readHeaderValue r = (RR_ok, len)" "r' = r\<lparr>rq_headers := rq_headers r @ [value_header r len]\<rparr>"
  | (noContent) "res = PR_finishOk" "rq_state r = S_headerLineBreak"
      "fst (readHeaderLineBreak r) = RR_endOfHeaders" "rq_contentLength r = 0"
      "r' = r\<lparr>rq_state := S_finishOk\<rparr>"
  | (content) "res = PR_finishOk" "rq_state r = S_content"
      "int (rq_size r) - int (rq_cur r) \<ge> rq_contentLength r"
      "r' = r\<lparr>rq_contentStart := rq_cur r, rq_state := S_finishOk\<rparr>"
  | (finished) "res = PR_finishOk" "rq_state r = S_finishOk" "r' = r"
proof -
  have "res = PR_needMoreData \<and> r' = r \<or> res = PR_finishInvalid \<and> r' = r
    \<or> res = PR_finishInvalid \<and> rq_state r = S_headerValue
        \<and> (\<exists>len. readHeaderValue r = (RR_ok, len)
            \<and> r' = r\<lparr>rq_headers := rq_headers r @ [value_header r len]\<rparr>)
    \<or> res = PR_finishOk \<and> rq_state r = S_headerLineBreak
        \<and> fst (readHeaderLineBreak r) = RR_endOfHeaders \<and> rq_contentLength r = 0
        \<and> r' = r\<lparr>rq_state := S_finishOk\<rparr>
    \<or> res = PR_finishOk \<and> rq_state r = S_content
        \<and> int (rq_size r) - int (rq_cur r) \<ge> rq_contentLength r
        \<and> r' = r\<lparr>rq_contentStart := rq_cur r, rq_state := S_finishOk\<rparr>
    \<or> res = PR_finishOk \<and> rq_state r = S_finishOk \<and> r' = r"
    using assms
    by (cases "rq_state r")
      (auto simp: parse_step_defs Let_def value_header_def split: prod.splits if_splits)
  then show thesis using more bad tooLong noContent content finished by metis
qed

lemma parse_step_InrD:
  "parse_step r = Inr (PR_needMoreData, r') \<Longrightarrow> r' = r"
  "parse_step r = Inr (PR_finishOk, r') \<Longrightarrow> rq_state r' = S_finishOk"
  by (auto elim: parse_step_InrE)

lemma parse_step_wf:
  assumes "rq_wf r"
  shows "parse_step r = Inl r' \<Longrightarrow> rq_wf r'"
    and "parse_step r = Inr (res, r') \<Longrightarrow> rq_wf r'"
proof -
  have c: "rq_cur r \<le> rq_size r" using assms by (simp add: rq_wf_def)
  note b = reader_bounds [OF c]
  show "parse_step r = Inl r' \<Longrightarrow> rq_wf r'"
  proof (erule parse_step_InlE, goal_cases)
    case (1 len) with assms b(1) [of RR_ok len] show ?case by (simp add: rq_wf_def)
  next
    case (2 len) with assms b(2) [of RR_ok len] show ?case by (simp add: rq_wf_def)
  next
    case (3 len) with assms b(3) [of RR_ok len] show ?case by (simp add: rq_wf_def)
  next
    case (4 len) with assms b(3) [of RR_question len] show ?case by (simp add: rq_wf_def)
  next
    case (5 len) with assms b(4) [of RR_ok len] show ?case by (simp add: rq_wf_def)
  next
    case 6 with assms show ?case by simp
  next
    case (7 len) with assms b(5) [of RR_ok len] show ?case by (simp add: rq_wf_def)
  next
    case (8 len) with assms b(6) [of RR_ok len] show ?case by (simp add: rq_wf_def field_in_def)
  next
    case (9 len) with assms b(7) [of RR_ok len] show ?case by (simp add: rq_wf_def)
  next
    case (10 len) with assms b(8) [of RR_ok len] show ?case
      by (auto simp: rq_wf_def field_in_def value_header_def)
  next
    case (11 len) with assms b(8) [of RR_ok len] show ?case
      by (auto simp: rq_wf_def field_in_def value_header_def)
  next
    case (12 len) with assms b(9) [of RR_ok len] show ?case by (simp add: rq_wf_def)
  next
    case (13 len) with assms b(9) [of RR_endOfHeaders len] show ?case by (simp add: rq_wf_def)
  qed
  show "parse_step r = Inr (res, r') \<Longrightarrow> rq_wf r'"
    by (erule parse_step_InrE) (use assms b(8) in \<open>auto simp: rq_wf_def field_in_def value_header_def\<close>)
qed

section \<open>Termination\<close>

definition parse_stuck :: "http_request \<Rightarrow> bool" where
  "parse_stuck r \<longleftrightarrow> rq_state r = S_urlParameters \<and> fst (readUrlParameters r) \<noteq> RR_ok"

definition parse_continues :: "http_request \<Rightarrow> http_request \<Rightarrow> bool" where
  "parse_continues r r' \<longleftrightarrow> parse_step r = Inl r'"

lemma parse_stuck_step: "parse_stuck r \<Longrightarrow> parse_step r = Inl r"
  by (auto simp: parse_stuck_def parse_step_defs split: prod.splits)

lemma parse_stuck_diverges:
  assumes "parse_stuck r" shows "parseInternal r = None"
proof (rule ccontr)
  assume "parseInternal r \<noteq> None"
  then obtain res r' where "parseInternal r = Some (res, r')" by auto
  then have "False"
    by (rule parseInternal_rule [where I = parse_stuck and Q = "\<lambda>_ _. False"])
      (use assms in \<open>auto simp: parse_stuck_step\<close>)
  then show False .
qed

text \<open>
  Every iteration that does not stand still moves \<open>cur\<close> forward or goes to a later state;
  the only way back, from \<open>S_headerLineBreak\<close> to \<open>S_headerKey\<close>, has consumed a line break.
\<close>

definition at_break :: "http_request \<Rightarrow> bool" where
  "at_break r \<longleftrightarrow> rq_cur r < rq_size r \<and> is_break (rq_data r ! rq_cur r)"

fun state_rank :: "parse_state \<Rightarrow> bool \<Rightarrow> nat" where
  "state_rank S_method b = 11"
| "state_rank S_spaceAfterMethod b = 10"
| "state_rank S_url b = 9"
| "state_rank S_urlParameters b = 8"
| "state_rank S_spaceAfterUrl b = 7"
| "state_rank S_headerKey b = 5"
| "state_rank S_headerSpace b = 4"
| "state_rank S_headerValue b = 3"
| "state_rank S_headerLineBreak b = (if b then 2 else 6)"
| "state_rank S_content b = 1"
| "state_rank S_finishOk b = 0"
| "state_rank S_invalid b = 0"

definition parse_measure :: "(http_request \<times> http_request) set" where
  "parse_measure = measures [\<lambda>r. rq_size r - rq_cur r, \<lambda>r. state_rank (rq_state r) (at_break r)]"

lemma wf_parse_measure: "wf parse_measure"
  by (simp add: parse_measure_def)

lemma parse_continues_decreases:
  assumes "parse_continues r r'" "\<not> parse_stuck r"
  shows "(r', r) \<in> parse_measure"
  using assms(1) unfolding parse_continues_def
proof (cases rule: parse_step_InlE)
  case stuck
  with assms(2) show ?thesis by (simp add: parse_stuck_def)
next
  case (val len)
  then have "at_break r'"
    using scan_stop [of "\<lambda>c. \<not> is_break c" "rq_data r" "rq_cur r"] scan_ge [of "rq_cur r"]
    by (auto simp: at_break_def readHeaderValue_def Let_def split: if_splits)
  with val show ?thesis by (auto simp: parse_measure_def)
next
  case (length_val len)
  then have "at_break r'"
    using scan_stop [of "\<lambda>c. \<not> is_break c" "rq_data r" "rq_cur r"] scan_ge [of "rq_cur r"]
    by (auto simp: at_break_def readHeaderValue_def Let_def split: if_splits)
  with length_val show ?thesis by (auto simp: parse_measure_def)
next
  case (lineBreak len)
  show ?thesis
  proof (cases "at_break r")
    case True
    then have "rq_cur r < scan is_break (rq_data r) (rq_cur r)"
      by (simp add: at_break_def scan.simps [of is_break "rq_data r" "rq_cur r"] less_eq_Suc_le scan_ge)
    with lineBreak True show ?thesis
      by (auto simp: parse_measure_def at_break_def readHeaderLineBreak_def Let_def split: if_splits)
  next
    case False
    with lineBreak show ?thesis by (auto simp: parse_measure_def)
  qed
qed (auto simp: parse_measure_def)

lemma parseInternal_returns:
  "(\<And>s. parse_continues\<^sup>*\<^sup>* r s \<Longrightarrow> \<not> parse_stuck s) \<Longrightarrow> parseInternal r \<noteq> None"
proof (induction r rule: wf_induct_rule [OF wf_parse_measure])
  case (1 r)
  show ?case
  proof (cases "parse_step r")
    case (Inl r1)
    then have c: "parse_continues r r1" by (simp add: parse_continues_def)
    moreover have "\<not> parse_stuck r" using "1.prems" by blast
    ultimately have "(r1, r) \<in> parse_measure" by (rule parse_continues_decreases)
    moreover have "\<not> parse_stuck s" if "parse_continues\<^sup>*\<^sup>* r1 s" for s
      using "1.prems" c that by (meson converse_rtranclp_into_rtranclp)
    ultimately have "parseInternal r1 \<noteq> None" by (rule "1.IH")
    then show ?thesis using Inl by (simp add: parseInternal_Inl)
  next
    case (Inr res)
    then show ?thesis by (simp add: parseInternal_Inr)
  qed
qed

lemma parse_continues_parseInternal:
  "parse_continues\<^sup>*\<^sup>* r s \<Longrightarrow> parseInternal r = parseInternal s"
  by (induction rule: converse_rtranclp_induct) (auto simp: parse_continues_def parseInternal_Inl)

lemma parseInternal_None_iff:
  "parseInternal r = None \<longleftrightarrow> (\<exists>s. parse_continues\<^sup>*\<^sup>* r s \<and> parse_stuck s)"
  using parseInternal_returns parse_stuck_diverges parse_continues_parseInternal by metis

text \<open>Past the request line the parser always returns.\<close>

definition past_url :: "http_request \<Rightarrow> bool" where
  "past_url r \<longleftrightarrow> rq_state r \<notin> {S_method, S_spaceAfterMethod, S_url, S_urlParameters}"

lemma past_url_returns:
  assumes "past_url r" shows "parseInternal r \<noteq> None"
proof -
  have "past_url s" if "parse_continues\<^sup>*\<^sup>* r s" for s
    using that assms
    by induction (auto simp: parse_continues_def past_url_def elim!: parse_step_InlE)
  then show ?thesis
    using parseInternal_returns [of r] by (auto simp: past_url_def parse_stuck_def)
qed

lemma drop_scan: "drop (scan p d i) d = dropWhile p (drop i d)"
  by (simp add: scan_takeWhile dropWhile_eq_drop add.commute)

lemma scan_less_iff: "i \<le> length d \<Longrightarrow> scan p d i < length d \<longleftrightarrow> dropWhile p (drop i d) \<noteq> []"
  using scan_le [of i d p] by (metis drop_scan drop_eq_Nil linorder_not_le)

lemma nth_scan: "scan p d i < length d \<Longrightarrow> d ! scan p d i = hd (dropWhile p (drop i d))"
  by (metis drop_scan hd_drop_conv_nth)

lemma parse_stuck_iff:
  assumes "rq_cur r \<le> rq_size r"
  shows "parse_stuck r \<longleftrightarrow> rq_state r = S_urlParameters \<and> SP \<notin> set (drop (rq_cur r) (rq_data r))"
proof -
  let ?i = "scan (\<lambda>c. c \<noteq> SP) (rq_data r) (rq_cur r)"
  have "?i \<noteq> rq_size r \<Longrightarrow> rq_data r ! ?i = SP"
    using scan_stop [of "\<lambda>c. c \<noteq> SP" "rq_data r" "rq_cur r"] scan_le [OF assms, of "\<lambda>c. c \<noteq> SP"]
    by auto
  moreover have "?i = rq_size r \<longleftrightarrow> SP \<notin> set (drop (rq_cur r) (rq_data r))"
    using scan_less_iff [OF assms, of "\<lambda>c. c \<noteq> SP"] scan_le [OF assms, of "\<lambda>c. c \<noteq> SP"]
    by (auto simp: dropWhile_eq_Nil_conv)
  ultimately show ?thesis
    by (auto simp: parse_stuck_def readUrlParameters_def Let_def)
qed


text \<open>What remains of a request makes the parser hang, seen from each state of the request line.\<close>

definition url_hangs :: "string \<Rightarrow> bool" where
  "url_hangs t \<longleftrightarrow> (let t' = dropWhile readUrlSymbols t
     in t' \<noteq> [] \<and> hd t' = CHR ''?'' \<and> SP \<notin> set t')"

lemma hangs_urlParameters:
  assumes "rq_state r = S_urlParameters" "rq_cur r \<le> rq_size r"
  shows "parseInternal r = None \<longleftrightarrow> SP \<notin> set (drop (rq_cur r) (rq_data r))"
proof (cases "parse_stuck r")
  case True
  then show ?thesis using parse_stuck_diverges parse_stuck_iff [OF assms(2)] by simp
next
  case False
  then obtain len where "readUrlParameters r = (RR_ok, len)"
    using assms(1) by (cases "readUrlParameters r") (auto simp: parse_stuck_def)
  then obtain r' where "parse_step r = Inl r'" "past_url r'"
    using assms(1) by (auto simp: parse_step_defs past_url_def)
  then have "parseInternal r \<noteq> None" using past_url_returns parseInternal_Inl by metis
  then show ?thesis using False assms parse_stuck_iff by simp
qed

lemma hangs_url:
  assumes st: "rq_state r = S_url" and c: "rq_cur r \<le> rq_size r"
  shows "parseInternal r = None \<longleftrightarrow> url_hangs (drop (rq_cur r) (rq_data r))"
proof -
  let ?i = "scan readUrlSymbols (rq_data r) (rq_cur r)"
  let ?t = "dropWhile readUrlSymbols (drop (rq_cur r) (rq_data r))"
  consider (none) "?i \<ge> rq_size r" | (space) "?i < rq_size r" "rq_data r ! ?i = SP"
    | (question) "?i < rq_size r" "rq_data r ! ?i = CHR ''?''"
    | (bad) "?i < rq_size r" "rq_data r ! ?i \<noteq> SP" "rq_data r ! ?i \<noteq> CHR ''?''" by linarith
  then show ?thesis
  proof cases
    case none
    then have "parse_step r = Inr (PR_needMoreData, r)"
      using st by (auto simp: parse_step_defs readUrl_def)
    moreover have "?t = []"
      using none scan_less_iff [OF c, of readUrlSymbols] by simp
    ultimately show ?thesis by (simp add: parseInternal_Inr url_hangs_def)
  next
    case space
    then obtain r' where "parse_step r = Inl r'" "past_url r'"
      using st by (simp add: parse_step_defs readUrl_def past_url_def)
    moreover have "hd ?t = SP" using space by (simp add: nth_scan)
    ultimately show ?thesis
      using past_url_returns by (auto simp: parseInternal_Inl url_hangs_def Let_def)
  next
    case question
    let ?r = "r\<lparr>rq_urlStart := rq_cur r, rq_urlLength := ?i - rq_cur r,
               rq_cur := rq_cur r + (?i - rq_cur r), rq_state := S_urlParameters\<rparr>"
    have "parse_step r = Inl ?r"
      using question st by (simp add: parse_step_defs readUrl_def)
    moreover have "rq_cur ?r = ?i" using scan_ge [of "rq_cur r"] by simp
    moreover have "hd ?t = CHR ''?''" "?t \<noteq> []"
      using question nth_scan scan_less_iff [OF c] by metis+
    ultimately show ?thesis
      using hangs_urlParameters [of ?r] question
      by (simp add: parseInternal_Inl url_hangs_def drop_scan)
  next
    case bad
    then have "parse_step r = Inr (PR_finishInvalid, r)"
      using st by (simp add: parse_step_defs readUrl_def)
    moreover have "hd ?t \<noteq> CHR ''?''" using bad by (simp add: nth_scan)
    ultimately show ?thesis by (simp add: parseInternal_Inr url_hangs_def Let_def)
  qed
qed

lemma hangs_spaceAfterMethod:
  assumes st: "rq_state r = S_spaceAfterMethod" and c: "rq_cur r \<le> rq_size r"
  shows "parseInternal r = None \<longleftrightarrow> url_hangs (dropWhile (\<lambda>c. c = SP) (drop (rq_cur r) (rq_data r)))"
proof -
  let ?i = "scan (\<lambda>c. c = SP) (rq_data r) (rq_cur r)"
  let ?t = "dropWhile (\<lambda>c. c = SP) (drop (rq_cur r) (rq_data r))"
  consider (none) "?i = rq_size r" | (brk) "?i < rq_size r" "is_break (rq_data r ! ?i)"
    | (ok) "?i < rq_size r" "\<not> is_break (rq_data r ! ?i)"
    using scan_le [OF c, of "\<lambda>c. c = SP"] by linarith
  then show ?thesis
  proof cases
    case none
    then have "parse_step r = Inr (PR_needMoreData, r)"
      using st by (auto simp: parse_step_defs readSpaces_def)
    moreover have "?t = []"
      using none scan_less_iff [OF c, of "\<lambda>c. c = SP"] by simp
    ultimately show ?thesis
      by (simp add: parseInternal_Inr url_hangs_def del: dropWhile_eq_Nil_conv)
  next
    case brk
    then have "parse_step r = Inr (PR_finishInvalid, r)"
      using st by (simp add: parse_step_defs readSpaces_def is_break_def)
    moreover have "is_break (hd ?t)" "?t \<noteq> []" using brk nth_scan scan_less_iff [OF c] by metis+
    then have "\<not> url_hangs ?t"
      by (cases ?t) (auto simp: url_hangs_def is_break_def readUrlSymbols_def is_lower_def is_upper_def is_digit_def)
    ultimately show ?thesis by (simp add: parseInternal_Inr)
  next
    case ok
    let ?r = "r\<lparr>rq_cur := rq_cur r + (?i - rq_cur r), rq_state := S_url\<rparr>"
    have "parse_step r = Inl ?r"
      using ok st by (simp add: parse_step_defs readSpaces_def is_break_def)
    moreover have "rq_cur ?r = ?i" using scan_ge [of "rq_cur r"] by simp
    ultimately show ?thesis
      using hangs_url [of ?r] ok by (simp add: parseInternal_Inl drop_scan)
  qed
qed

lemma hangs_method:
  assumes st: "rq_state r = S_method" and c: "rq_cur r \<le> rq_size r"
  shows "parseInternal r = None \<longleftrightarrow>
    (let t = dropWhile is_upper (drop (rq_cur r) (rq_data r))
     in t \<noteq> [] \<and> hd t = SP \<and> url_hangs (dropWhile (\<lambda>c. c = SP) t))"
proof -
  let ?i = "scan is_upper (rq_data r) (rq_cur r)"
  let ?t = "dropWhile is_upper (drop (rq_cur r) (rq_data r))"
  consider (none) "?i \<ge> rq_size r" | (bad) "?i < rq_size r" "rq_data r ! ?i \<noteq> SP"
    | (ok) "?i < rq_size r" "rq_data r ! ?i = SP" by linarith
  then show ?thesis
  proof cases
    case none
    then have "parse_step r = Inr (PR_needMoreData, r)"
      using st by (auto simp: parse_step_defs readMethod_def)
    moreover have "?t = []"
      using none scan_less_iff [OF c, of is_upper] by simp
    ultimately show ?thesis by (simp add: parseInternal_Inr)
  next
    case bad
    then have "parse_step r = Inr (PR_finishInvalid, r)" "hd ?t \<noteq> SP"
      using st by (simp_all add: parse_step_defs readMethod_def nth_scan)
    then show ?thesis by (simp add: parseInternal_Inr)
  next
    case ok
    let ?r = "r\<lparr>rq_methodStart := rq_cur r, rq_methodLength := ?i - rq_cur r,
               rq_cur := rq_cur r + (?i - rq_cur r), rq_state := S_spaceAfterMethod\<rparr>"
    have "parse_step r = Inl ?r"
      using ok st by (simp add: parse_step_defs readMethod_def)
    moreover have "rq_cur ?r = ?i" using scan_ge [of "rq_cur r"] by simp
    moreover have "hd ?t = SP" "?t \<noteq> []" using ok nth_scan scan_less_iff [OF c] by metis+
    ultimately show ?thesis
      using hangs_spaceAfterMethod [of ?r] ok by (simp add: parseInternal_Inl drop_scan Let_def)
  qed
qed

lemma parse_None_iff: "parse d r = None \<longleftrightarrow> parseInternal (r\<lparr>rq_data := d\<rparr>) = None"
  by (auto simp: parse_def split: bind_splits)

text \<open>The inputs that hang the parser, by following its states.\<close>

lemma parse_hang_shape:
  "parse d (rq_reset r) = None \<longleftrightarrow>
     (\<exists>m s u p. d = m @ SP # s @ u @ CHR ''?'' # p \<and> (\<forall>c \<in> set m. is_upper c) \<and> set s \<subseteq> {SP}
        \<and> (\<forall>c \<in> set u. readUrlSymbols c) \<and> SP \<notin> set p)" (is "?L \<longleftrightarrow> ?R")
proof -
  have L: "?L \<longleftrightarrow> (let t = dropWhile is_upper d
     in t \<noteq> [] \<and> hd t = SP \<and> url_hangs (dropWhile (\<lambda>c. c = SP) t))"
    by (simp add: parse_None_iff hangs_method rq_reset_def)
  have sym: "\<not> readUrlSymbols SP" "\<not> readUrlSymbols (CHR ''?'')" "\<not> is_upper SP"
    by (simp_all add: readUrlSymbols_def is_lower_def is_upper_def is_digit_def)
  show ?thesis
  proof
    assume ?L
    define t where "t = dropWhile is_upper d"
    define t1 where "t1 = dropWhile (\<lambda>c. c = SP) t"
    define t2 where "t2 = dropWhile readUrlSymbols t1"
    from \<open>?L\<close> have t: "t \<noteq> []" "hd t = SP" and t2: "t2 \<noteq> []" "hd t2 = CHR ''?''" "SP \<notin> set t2"
      unfolding L by (auto simp: t_def t1_def t2_def url_hangs_def Let_def)
    have "d = takeWhile is_upper d @ t" by (simp add: t_def)
    moreover have "t = takeWhile (\<lambda>c. c = SP) t @ t1" by (simp add: t1_def)
    moreover obtain s where "takeWhile (\<lambda>c. c = SP) t = SP # s" "set s \<subseteq> {SP}"
      using t by (cases t) (auto dest: set_takeWhileD)
    moreover have "t1 = takeWhile readUrlSymbols t1 @ t2" by (simp add: t2_def)
    moreover obtain p where "t2 = CHR ''?'' # p" "SP \<notin> set p" using t2 by (cases t2) auto
    ultimately show ?R
      by (intro exI [of _ "takeWhile is_upper d"] exI [of _ s] exI [of _ "takeWhile readUrlSymbols t1"]
          exI [of _ p]) (auto dest: set_takeWhileD)
  next
    assume ?R
    then obtain m s u p where d: "d = m @ SP # s @ u @ CHR ''?'' # p"
      and ms: "\<forall>c \<in> set m. is_upper c" "set s \<subseteq> {SP}" "\<forall>c \<in> set u. readUrlSymbols c" "SP \<notin> set p"
      by blast
    have "dropWhile is_upper d = SP # s @ u @ CHR ''?'' # p"
      using ms sym by (simp add: d)
    moreover have "dropWhile (\<lambda>c. c = SP) (s @ u @ CHR ''?'' # p) = u @ CHR ''?'' # p"
    proof -
      have "dropWhile (\<lambda>c. c = SP) (s @ x) = dropWhile (\<lambda>c. c = SP) x" for x
        using ms(2) by (intro dropWhile_append2) auto
      moreover have "dropWhile (\<lambda>c. c = SP) (u @ CHR ''?'' # p) = u @ CHR ''?'' # p"
        using ms(3) sym by (cases u) auto
      ultimately show ?thesis by simp
    qed
    moreover have "url_hangs (u @ CHR ''?'' # p)"
      using ms sym by (simp add: url_hangs_def)
    ultimately show ?L by (simp add: L)
  qed
qed

text \<open>
  C12: The parser returns on every input except those whose received bytes end inside the parameters of
  the URL: then its loop never ends.
\<close>

theorem parse_hangs_iff:
  "parse d (rq_reset r) = None \<longleftrightarrow>
     (\<exists>m s u p. d = m @ SP # s @ u @ CHR ''?'' # p \<and> (\<forall>c \<in> set m. is_upper c) \<and> set s \<subseteq> {SP}
        \<and> (\<forall>c \<in> set u. readUrlSymbols c) \<and> SP \<notin> set p)"
  by (rule parse_hang_shape)

section \<open>Parsing in pieces\<close>

text \<open>The request \<open>r\<close> on a buffer that has grown by \<open>e\<close>.\<close>

definition grow :: "string \<Rightarrow> http_request \<Rightarrow> http_request" where
  "grow e r = r\<lparr>rq_data := rq_data r @ e\<rparr>"

lemma grow_sel [simp]:
  "rq_data (grow e r) = rq_data r @ e" "rq_cur (grow e r) = rq_cur r" "rq_state (grow e r) = rq_state r"
  "rq_curKey (grow e r) = rq_curKey r" "rq_headers (grow e r) = rq_headers r"
  "rq_contentLength (grow e r) = rq_contentLength r"
  by (simp_all add: grow_def)

lemma strncasecmp_eq_append: "n \<le> length t \<Longrightarrow> strncasecmp_eq s (t @ e) n = strncasecmp_eq s t n"
proof (induction s t n rule: strncasecmp_eq.induct)
  case (1 s t)
  then show ?case by simp
next
  case (2 s t n)
  then show ?case by (cases t) (auto simp: Let_def cstr_at_def)
qed

lemma is_length_key_grow:
  "field_in (rq_size r) (rq_curKey r) \<Longrightarrow> is_length_key (grow e r) = is_length_key r"
  by (simp add: is_length_key_def field_in_def strncasecmp_eq_append)

lemma mem_read_append: "p + n \<le> length d \<Longrightarrow> mem_read p n (d @ e) = mem_read p n d"
  by (simp add: mem_read_def)

lemma value_header_grow [simp]: "value_header (grow e r) len = value_header r len"
  by (simp add: value_header_def)

lemma content_length_of_grow:
  "field_in (length d) v \<Longrightarrow> content_length_of (d @ e) v = content_length_of d v"
  by (simp add: content_length_of_def field_in_def mem_read_append)

lemma lineBreakCounter_append:
  "i \<le> j \<Longrightarrow> j \<le> length d \<Longrightarrow> lineBreakCounter (d @ e) i j = lineBreakCounter d i j"
  by (simp add: lineBreakCounter_def mem_read_append)

text \<open>A reader that said \<open>ok\<close> says the same, with the same length, on the longer buffer.\<close>

lemma reader_grow:
  assumes c: "rq_cur r \<le> rq_size r"
  shows "readMethod r = (RR_ok, len) \<Longrightarrow> readMethod (grow e r) = (RR_ok, len)"
    "readSpaces r = (RR_ok, len) \<Longrightarrow> readSpaces (grow e r) = (RR_ok, len)"
    "readUrl r = (RR_ok, len) \<Longrightarrow> readUrl (grow e r) = (RR_ok, len)"
    "readUrl r = (RR_question, len) \<Longrightarrow> readUrl (grow e r) = (RR_question, len)"
    "readUrlParameters r = (RR_ok, len) \<Longrightarrow> readUrlParameters (grow e r) = (RR_ok, len)"
    "readHeaderKey r = (RR_ok, len) \<Longrightarrow> readHeaderKey (grow e r) = (RR_ok, len)"
    "readHeaderSpace r = (RR_ok, len) \<Longrightarrow> readHeaderSpace (grow e r) = (RR_ok, len)"
    "readHeaderValue r = (RR_ok, len) \<Longrightarrow> readHeaderValue (grow e r) = (RR_ok, len)"
  using scan_le [OF c, of "\<lambda>c. c = SP"] scan_le [OF c, of "\<lambda>c. c \<noteq> SP"]
  by (auto simp: reader_defs Let_def scan_append nth_append le_less split: if_splits)

lemma readToNextLine_grow:
  assumes c: "rq_cur r \<le> rq_size r" and ok: "readToNextLine r = (RR_ok, len)"
  shows "readToNextLine (grow e r) = (RR_ok, len)"
proof -
  define i where "i = scan (\<lambda>c. \<not> is_break c) (rq_data r) (rq_cur r)"
  define j where "j = scan is_break (rq_data r) i"
  have i: "i < rq_size r"
    using ok scan_le [OF c, of "\<lambda>c. \<not> is_break c"]
    by (auto simp: readToNextLine_def i_def [symmetric] split: if_splits)
  have ij: "i \<le> j" by (simp add: j_def scan_ge)
  have j: "j < rq_size r"
    using ok i scan_le [of i "rq_data r" is_break]
    by (auto simp: readToNextLine_def i_def [symmetric] j_def [symmetric] Let_def split: if_splits)
  from i j have "scan (\<lambda>c. \<not> is_break c) (rq_data r @ e) (rq_cur r) = i"
    "scan is_break (rq_data r @ e) i = j"
    by (simp_all add: i_def j_def scan_append)
  with ok i j ij show ?thesis
    by (auto simp: readToNextLine_def i_def [symmetric] j_def [symmetric] Let_def
        lineBreakCounter_append split: if_splits)
qed

text \<open>
  The end of the headers is where the rule fails: it is recognised at the end of the buffer
  already, and when the next bytes to arrive are line breaks they belong to the run that the
  reader would skip, had it seen them. \<open>settled\<close> excludes this.
\<close>

definition settled :: "string \<Rightarrow> http_request \<Rightarrow> bool" where
  "settled e r \<longleftrightarrow> \<not> (rq_state r = S_content \<and> rq_cur r = rq_size r \<and> e \<noteq> [] \<and> is_break (hd e))"

lemma scan_append_stop:
  assumes "i \<le> length d" and "scan p d i < length d \<or> e = [] \<or> \<not> p (hd e)"
  shows "scan p (d @ e) i = scan p d i"
proof (cases "scan p d i < length d")
  case True
  then show ?thesis by (rule scan_append)
next
  case False
  then have "scan p d i = length d" using scan_le [OF assms(1), of p] by simp
  moreover have "scan p (d @ e) i = length d"
  proof (rule scan_eqI)
    fix k assume "i \<le> k" "k < length d"
    then show "p ((d @ e) ! k)"
      using scan_pass [of i k p d] \<open>scan p d i = length d\<close> by (simp add: nth_append)
  qed (use assms False in \<open>auto simp: nth_append hd_conv_nth\<close>)
  ultimately show ?thesis by simp
qed

lemma readHeaderLineBreak_grow:
  assumes c: "rq_cur r \<le> rq_size r" and ret: "readHeaderLineBreak r = (res, len)"
    and settled: "res = RR_ok \<or> res = RR_endOfHeaders \<and> (rq_cur r + len < rq_size r \<or> e = [] \<or> \<not> is_break (hd e))"
  shows "readHeaderLineBreak (grow e r) = (res, len)"
proof -
  define i where "i = scan is_break (rq_data r) (rq_cur r)"
  have i: "rq_cur r \<le> i" "i \<le> rq_size r" using scan_ge scan_le [OF c] by (simp_all add: i_def)
  have stop: "i < rq_size r \<or> e = [] \<or> \<not> is_break (hd e)"
    using settled ret i
    by (cases "res = RR_ok") (auto simp: readHeaderLineBreak_def i_def [symmetric] Let_def split: if_splits)
  have "scan is_break (rq_data r @ e) (rq_cur r) = i"
    using scan_append_stop [OF c, of is_break e] stop by (simp add: i_def)
  moreover have "i \<noteq> rq_size r" if "res = RR_ok"
    using ret that by (auto simp: readHeaderLineBreak_def i_def [symmetric] Let_def split: if_splits)
  moreover have "res = RR_ok \<or> res = RR_endOfHeaders" using settled by auto
  ultimately show ?thesis
    using ret i
    by (simp add: readHeaderLineBreak_def i_def [symmetric] Let_def lineBreakCounter_append)
      (auto split: if_splits)
qed

lemma parse_step_headerValue:
  "rq_state r = S_headerValue \<Longrightarrow> readHeaderValue r = (RR_ok, len) \<Longrightarrow> \<not> is_length_key r \<Longrightarrow>
     parse_step r = Inl (r\<lparr>rq_headers := rq_headers r @ [value_header r len],
       rq_cur := rq_cur r + len, rq_state := S_headerLineBreak\<rparr>)"
  "rq_state r = S_headerValue \<Longrightarrow> readHeaderValue r = (RR_ok, len) \<Longrightarrow> is_length_key r \<Longrightarrow> len \<le> BUF_CHARS \<Longrightarrow>
     parse_step r = Inl (r\<lparr>rq_headers := rq_headers r @ [value_header r len],
       rq_contentLength := content_length_of (rq_data r) (hdr_value (value_header r len)),
       rq_cur := rq_cur r + len, rq_state := S_headerLineBreak\<rparr>)"
  by (simp_all add: parse_step_defs is_length_key_def value_header_def Let_def)

lemma parse_step_grow:
  assumes wf: "rq_wf r" and st: "parse_step r = Inl r'" and ns: "\<not> parse_stuck r"
    and settled: "settled e r'"
  shows "parse_step (grow e r) = Inl (grow e r')"
proof -
  have c: "rq_cur r \<le> rq_size r" and k: "field_in (rq_size r) (rq_curKey r)"
    using wf by (simp_all add: rq_wf_def)
  note g = reader_grow [OF c, of _ e] readToNextLine_grow [OF c, of _ e]
  from st show ?thesis
  proof (cases rule: parse_step_InlE)
    case (val len)
    then show ?thesis
      using parse_step_headerValue(1) [of "grow e r" len] g(8) is_length_key_grow [OF k, of e]
      by (simp add: grow_def value_header_def)
  next
    case (length_val len)
    have "field_in (rq_size r) (hdr_value (value_header r len))"
      using reader_bounds(8) [OF c length_val(2)] by (simp add: field_in_def value_header_def)
    with length_val show ?thesis
      using parse_step_headerValue(2) [of "grow e r" len] g(8) is_length_key_grow [OF k, of e]
        content_length_of_grow [of "rq_data r" _ e]
      by (simp add: grow_def value_header_def)
  next
    case (lineBreak len)
    with readHeaderLineBreak_grow [OF c lineBreak(2)] show ?thesis
      by (simp add: parse_step_defs grow_def)
  next
    case (toContent len)
    have "readHeaderLineBreak (grow e r) = (RR_endOfHeaders, len)"
      by (rule readHeaderLineBreak_grow [OF c])
        (use toContent settled reader_bounds(9) [OF c, of RR_endOfHeaders len] in
          \<open>auto simp: settled_def\<close>)
    with toContent show ?thesis by (simp add: parse_step_defs grow_def)
  qed (use g ns in \<open>simp_all add: parse_step_defs grow_def parse_stuck_def\<close>)
qed

text \<open>A run that waits in \<open>S_content\<close> got there by the last step that moved.\<close>

lemma content_waits: "rq_state r = S_content \<Longrightarrow> parse_step r \<noteq> Inl r'"
  by (auto elim: parse_step_InlE)

lemma parseInternal_grow:
  assumes ret: "parseInternal r = Some (PR_needMoreData, r1)" and wf: "rq_wf r"
    and settled: "settled e r1"
  shows "parseInternal (grow e r) = parseInternal (grow e r1)"
proof -
  have "parseInternal r = Some x \<longrightarrow> rq_wf r
      \<longrightarrow> fst x = PR_needMoreData \<longrightarrow> settled e (snd x) \<longrightarrow>
      parseInternal (grow e r) = parseInternal (grow e (snd x))"
    if "parseInternal r = Some x" for r x
  proof (rule parseInternal.raw_induct [where P = "\<lambda>r x. parseInternal r = Some x \<longrightarrow> rq_wf r
        \<longrightarrow> fst x = PR_needMoreData \<longrightarrow> settled e (snd x) \<longrightarrow>
        parseInternal (grow e r) = parseInternal (grow e (snd x))", OF _ that])
    fix f r x
    assume IH: "\<And>r x. f r = Some x \<Longrightarrow> parseInternal r = Some x \<longrightarrow> rq_wf r
        \<longrightarrow> fst x = PR_needMoreData \<longrightarrow> settled e (snd x) \<longrightarrow>
        parseInternal (grow e r) = parseInternal (grow e (snd x))"
      and eq: "(case parse_step r of Inl r' \<Rightarrow> f r' | Inr res \<Rightarrow> Some res) = Some x"
    have "parseInternal (grow e r) = parseInternal (grow e (snd x))"
      if px: "parseInternal r = Some x" and wf: "rq_wf r" and more: "fst x = PR_needMoreData"
        and s: "settled e (snd x)"
    proof (cases "parse_step r")
      case (Inl r')
      have ns: "\<not> parse_stuck r" using px parse_stuck_diverges by auto
      have px': "parseInternal r' = Some x" using px Inl by (simp add: parseInternal_Inl)
      have "settled e r'"
      proof (cases "rq_state r' = S_content")
        case True
        then have "parse_step r' = Inr x"
          using px' content_waits [OF True] by (cases "parse_step r'") (auto simp: parseInternal_Inr)
        then have "snd x = r'" using more parse_step_InrD(1) by (metis prod.collapse)
        then show ?thesis using s by simp
      next
        case False
        then show ?thesis by (simp add: settled_def)
      qed
      then have "parse_step (grow e r) = Inl (grow e r')"
        by (rule parse_step_grow [OF wf Inl ns])
      moreover have "parseInternal (grow e r') = parseInternal (grow e (snd x))"
        using IH [of r' x] eq Inl px' parse_step_wf(1) [OF wf Inl] more s by simp
      ultimately show ?thesis by (simp add: parseInternal_Inl)
    next
      case (Inr y)
      with eq have "parse_step r = Inr (PR_needMoreData, snd x)" using more by (cases x) auto
      then show ?thesis using parse_step_InrD(1) by metis
    qed
    then show "parseInternal r = Some x \<longrightarrow> rq_wf r
        \<longrightarrow> fst x = PR_needMoreData \<longrightarrow> settled e (snd x) \<longrightarrow>
        parseInternal (grow e r) = parseInternal (grow e (snd x))" by blast
  qed
  with ret wf settled show ?thesis by fastforce
qed

text \<open>
  Stated for the interface: a call on the first bytes that asks for more, followed by a call on
  all bytes, gives what one call on all bytes gives.
\<close>

lemma parse_data [simp]: "parse d (r\<lparr>rq_data := d'\<rparr>) = parse d r"
  by (simp add: parse_def)

lemma parse_needMore:
  "parse d r = Some (PR_needMoreData, r1) \<longleftrightarrow> parseInternal (r\<lparr>rq_data := d\<rparr>) = Some (PR_needMoreData, r1)"
  by (auto simp: parse_def postParse_def Let_def split: bind_splits if_splits prod.splits)

lemma parseInternal_data:
  "parseInternal r = Some (res, r') \<Longrightarrow> rq_data r' = rq_data r"
  by (erule parseInternal_rule [where I = "\<lambda>s. rq_data s = rq_data r"])
    (auto dest: parse_step_data)

text \<open>
  C9: Parsing the first bytes and then all bytes gives what parsing all bytes at once gives, unless
  the bytes were cut right after the end of the headers and more line breaks follow.
\<close>

theorem parse_incremental:
  assumes "parse d r = Some (PR_needMoreData, r1)" "rq_wf (r\<lparr>rq_data := d\<rparr>)"
    and "settled e r1"
  shows "parse (d @ e) r1 = parse (d @ e) r"
proof -
  let ?r = "r\<lparr>rq_data := d\<rparr>"
  have p: "parseInternal ?r = Some (PR_needMoreData, r1)"
    using assms(1) by (simp add: parse_needMore)
  then have "rq_data r1 = d" using parseInternal_data by fastforce
  then have "grow e ?r = r\<lparr>rq_data := d @ e\<rparr>" "grow e r1 = r1\<lparr>rq_data := d @ e\<rparr>"
    by (simp_all add: grow_def)
  then show ?thesis using parseInternal_grow [OF p assms(2,3)] by (simp add: parse_def)
qed

section \<open>Witnesses\<close>

lemma parse_hangs_iff_witness: "parse ''GET /a?b=1'' (rq_reset rq_init) = None"
proof -
  have "''GET /a?b=1'' = ''GET'' @ SP # [] @ ''/a'' @ CHR ''?'' # ''b=1''" by simp
  moreover have "\<forall>c \<in> set ''GET''. is_upper c" "\<forall>c \<in> set ''/a''. readUrlSymbols c" "SP \<notin> set ''b=1''"
    by code_simp+
  ultimately show ?thesis
    by (subst parse_hangs_iff) (metis empty_set empty_subsetI)
qed

lemma parse_incremental_witness:
  "\<exists>r1. parse ''GET /x HT'' rq_init = Some (PR_needMoreData, r1)
     \<and> parse ''GET /x HTTP/1.1'' r1 = parse ''GET /x HTTP/1.1'' rq_init"
proof -
  have "map_option (\<lambda>(res, r). (res, rq_state r)) (parse ''GET /x HT'' rq_init) = Some (PR_needMoreData, S_spaceAfterUrl)"
    by code_simp
  then obtain r1 where p: "parse ''GET /x HT'' rq_init = Some (PR_needMoreData, r1)" "rq_state r1 = S_spaceAfterUrl"
    by auto
  have wf: "rq_wf (rq_init\<lparr>rq_data := ''GET /x HT''\<rparr>)" by code_simp
  have "settled ''TP/1.1'' r1" by (simp add: settled_def p(2))
  from parse_incremental [OF p(1) wf this] p(1) show ?thesis by auto
qed

end
