(* ===== verification/HttpRequestUrl.thy ===== *)
theory HttpRequestUrl
  imports HttpRequestParse
begin

text \<open>
  What \<open>HttpRequest\<close> does with the URL once the loop has finished: decoding into the URL
  buffer, the check that keeps it inside the served tree, and the prefix test that
  \<open>RequestExecutor\<close> routes by. \<open>url_decode\<close> and \<open>safe_url\<close> say on strings what
  \<open>percentDecode\<close> and \<open>checkUrl\<close> do on buffers.
\<close>

section \<open>Decoding\<close>

text \<open>What \<open>percentDecode\<close> computes, as a function on strings.\<close>

definition hex_pair :: "char \<Rightarrow> char \<Rightarrow> char" where
  "hex_pair a b = char_of (push_bit 4 (nat (hex2int a)) OR nat (hex2int b))"

fun url_decode :: "string \<Rightarrow> string option" where
  "url_decode [] = Some []"
| "url_decode (c # cs) =
     (if c = NUL then Some []
      else if c = CHR ''%'' \<and> 2 \<le> length cs
      then if hex2int (cs ! 0) < 0 \<or> hex2int (cs ! 1) < 0 then None
           else map_option (Cons (hex_pair (cs ! 0) (cs ! 1))) (url_decode (drop 2 cs))
      else map_option (Cons c) (url_decode cs))"

text \<open>
  On buffers: the destination ends with the decoded string and its terminating zero, and it
  needs one byte more than the source has.
\<close>

definition decoded_into :: "nat \<Rightarrow> string \<Rightarrow> string option \<Rightarrow> int \<times> string \<Rightarrow> bool" where
  "decoded_into di dst u res \<longleftrightarrow> (case u of None \<Rightarrow> fst res = -1
     | Some u \<Rightarrow> \<exists>rest. res = (0, take di dst @ u @ NUL # rest) \<and> length (take di dst @ u @ NUL # rest) = length dst)"

lemma decoded_into_Cons:
  assumes "decoded_into (di + 1) (dst[di := c]) u res" "di < length dst"
  shows "decoded_into di dst (map_option (Cons c) u) res"
proof -
  have "take (di + 1) (dst[di := c]) = take di dst @ [c]" using assms(2) by (simp add: take_Suc_conv_app_nth)
  with assms(1) show ?thesis by (auto simp: decoded_into_def split: option.splits)
qed

lemma decoded_into_end: "di < length dst \<Longrightarrow> decoded_into di dst (Some []) (0, dst[di := NUL])"
  by (simp add: decoded_into_def upd_conv_take_nth_drop)

text \<open>One character of the part of the source that is left.\<close>

lemma url_decode_step:
  assumes "n \<le> length src" "si < n" "src ! si \<noteq> NUL"
  shows "url_decode (take (n - si) (drop si src)) =
    (if src ! si = CHR ''%'' \<and> si + 2 < n
     then if hex2int (src ! (si + 1)) < 0 \<or> hex2int (src ! (si + 2)) < 0 then None
          else map_option (Cons (hex_pair (src ! (si + 1)) (src ! (si + 2)))) (url_decode (take (n - (si + 3)) (drop (si + 3) src)))
     else map_option (Cons (src ! si)) (url_decode (take (n - (si + 1)) (drop (si + 1) src))))"
proof -
  let ?t = "take (n - (si + 1)) (drop (si + 1) src)"
  have t: "take (n - si) (drop si src) = src ! si # ?t"
    using assms by (simp add: take_Cons' Cons_nth_drop_Suc [symmetric])
  have nth: "si + 2 < n \<Longrightarrow> ?t ! 0 = src ! (si + 1)" "si + 2 < n \<Longrightarrow> ?t ! 1 = src ! (si + 2)"
    "drop 2 ?t = take (n - (si + 3)) (drop (si + 3) src)"
    using assms by (simp_all add: drop_take numeral_eq_Suc)
  have "2 \<le> length ?t \<longleftrightarrow> si + 2 < n" using assms by auto
  then show ?thesis unfolding t url_decode.simps(2) nth(3) using assms(3) nth(1,2) by (auto cong: if_cong)
qed

lemma percentDecode_loop_decoded:
  assumes "n \<le> length src" "si \<le> n" "di + (n - si) < length dst"
  shows "decoded_into di dst (url_decode (take (n - si) (drop si src))) (percentDecode_loop src n si di dst)"
  using assms
proof (induction src n si di dst rule: percentDecode_loop.induct)
  case (1 src n si di dst)
  have di: "di < length dst" using 1 by simp
  note unf = percentDecode_loop.simps [of src n si di dst]
  consider "\<not> si < n" | (nul) "si < n" "src ! si = NUL"
    | (pct) "si < n" "src ! si \<noteq> NUL" "src ! si = CHR ''%''" "si + 2 < n"
    | (plain) "si < n" "src ! si \<noteq> NUL" "\<not> (src ! si = CHR ''%'' \<and> si + 2 < n)" by blast
  then show ?case
  proof cases
    case 1
    then have "percentDecode_loop src n si di dst = (0, dst[di := NUL])" by (simp add: unf)
    then show ?thesis using 1 decoded_into_end [OF di] "1.prems" by simp
  next
    case nul
    then have "url_decode (take (n - si) (drop si src)) = Some []"
      using "1.prems" by (simp add: take_Cons' Cons_nth_drop_Suc [symmetric])
    then show ?thesis using nul decoded_into_end [OF di] by (simp add: unf)
  next
    case pct
    have "decoded_into (di + 1) (dst[di := hex_pair (src ! (si + 1)) (src ! (si + 2))])
        (url_decode (take (n - (si + 3)) (drop (si + 3) src)))
        (percentDecode_loop src n (si + 3) (di + 1) (dst[di := hex_pair (src ! (si + 1)) (src ! (si + 2))]))"
      if "\<not> hex2int (src ! (si + 1)) < 0" "\<not> hex2int (src ! (si + 2)) < 0"
      unfolding hex_pair_def by (rule "1.IH"(1)) (use pct that "1.prems" in auto)
    from decoded_into_Cons [OF this di] show ?thesis
      using url_decode_step [OF "1.prems"(1) pct(1,2)] pct
      by (auto simp: unf Let_def decoded_into_def [of _ _ None] hex_pair_def)
  next
    case plain
    have "decoded_into (di + 1) (dst[di := src ! si]) (url_decode (take (n - (si + 1)) (drop (si + 1) src)))
        (percentDecode_loop src n (si + 1) (di + 1) (dst[di := src ! si]))"
      by (rule "1.IH"(2)) (use plain "1.prems" in auto)
    from decoded_into_Cons [OF this di] show ?thesis
      using url_decode_step [OF "1.prems"(1) plain(1,2)] plain by (auto simp: unf)
  qed
qed

lemmas percentDecode_loop_spec = percentDecode_loop_decoded [unfolded decoded_into_def]

text \<open>Every byte can be written as an escape, and reads back.\<close>

definition hex_digit :: "nat \<Rightarrow> char" where
  "hex_digit n = char_of (if n < 10 then 48 + n else 55 + n)"

definition percent_encode :: "string \<Rightarrow> string" where
  "percent_encode u = concat (map (\<lambda>c. [CHR ''%'', hex_digit (of_char c div 16), hex_digit (of_char c mod 16)]) u)"

lemma hex2int_digit: "n < 16 \<Longrightarrow> hex2int (hex_digit n) = int n"
proof -
  have "\<forall>n \<in> set [0..<16]. hex2int (hex_digit n) = int n" by code_simp
  then show "n < 16 \<Longrightarrow> hex2int (hex_digit n) = int n" by simp
qed

lemma hex_pair_digits: "n < 256 \<Longrightarrow> hex_pair (hex_digit (n div 16)) (hex_digit (n mod 16)) = char_of n"
proof -
  assume n: "n < 256"
  have "push_bit 4 (n div 16) OR n mod 16 = n"
  proof -
    have "n div 16 = drop_bit 4 n" "n mod 16 = take_bit 4 n"
      by (simp_all add: drop_bit_eq_div take_bit_eq_mod)
    moreover have "push_bit 4 (drop_bit 4 n) OR take_bit 4 n = n"
      by (rule bit_eqI) (auto simp: bit_simps)
    ultimately show ?thesis by simp
  qed
  then show ?thesis using n by (simp add: hex_pair_def hex2int_digit)
qed

lemma url_decode_encode: "url_decode (percent_encode u) = Some u"
proof (induction u)
  case (Cons c u)
  have c: "of_char c < (256 :: nat)" using mod_less_divisor [of 256 "of_char c"] by (simp only: of_char_mod_256)
  then have "of_char c div 16 < (16 :: nat)" by (intro less_mult_imp_div_less) simp
  then have "\<not> hex2int (hex_digit (of_char c div 16)) < 0" "\<not> hex2int (hex_digit (of_char c mod 16)) < 0"
    by (simp_all add: hex2int_digit)
  with c Cons hex_pair_digits [of "of_char c"] show ?case
    by (simp add: percent_encode_def)
qed (simp add: percent_encode_def)

section \<open>Checking\<close>

lemma cstr_Cons: "cstr (c # cs) = (if c = NUL then [] else c # cstr cs)"
  by (simp add: cstr_def)

lemma cstr_append_NUL: "cstr (u @ NUL # rest) = cstr u"
  by (induction u) (auto simp: cstr_def)

lemma cstr_no_NUL: "NUL \<notin> set u \<Longrightarrow> cstr u = u"
  by (auto simp: cstr_def takeWhile_eq_all_conv)

lemma NUL_notin_cstr: "NUL \<notin> set (cstr u)"
  by (auto simp: cstr_def dest: set_takeWhileD)

lemma dotdot_Cons: "sublist ''..'' (c # cs) \<longleftrightarrow> c = CHR ''.'' \<and> cs \<noteq> [] \<and> hd cs = CHR ''.'' \<or> sublist ''..'' cs"
  by (cases cs) (auto simp: sublist_Cons_right)

lemma checkUrl_loop_iff:
  "checkUrl_loop pc s = 0 \<longleftrightarrow> (\<forall>c \<in> set (cstr s). checkUrlSymbols c)
     \<and> \<not> (pc = CHR ''.'' \<and> cstr s \<noteq> [] \<and> hd (cstr s) = CHR ''.'') \<and> \<not> sublist ''..'' (cstr s)"
proof (induction pc s rule: checkUrl_loop.induct)
  case (1 pc)
  then show ?case by (simp add: cstr_def)
next
  case (2 pc c cs)
  then show ?case by (auto simp: cstr_Cons dotdot_Cons)
qed

definition safe_url :: "string \<Rightarrow> bool" where
  "safe_url u \<longleftrightarrow> (\<forall>c \<in> set u. checkUrlSymbols c) \<and> \<not> sublist ''..'' u"

lemma checkUrl_iff: "checkUrl r = 0 \<longleftrightarrow> safe_url (cstr (urlBuffer_mem r))"
  by (auto simp: checkUrl_def checkUrl_loop_iff safe_url_def)

section \<open>After the parser's loop\<close>

definition buffer_ok :: "http_request \<Rightarrow> bool" where
  "buffer_ok r \<longleftrightarrow> length (urlBuffer_mem r) = rq_urlBufferSize r"

definition raw_url :: "http_request \<Rightarrow> string" where
  "raw_url r = mem_read (rq_urlStart r) (rq_urlLength r) (rq_data r)"

lemma decodeUrl_spec:
  assumes "buffer_ok r" "rq_state r = S_finishOk" "rq_urlStart r + rq_urlLength r \<le> rq_size r"
    and n: "rq_urlLength r > 0" and dec: "decodeUrl r = (code, r')"
  shows "buffer_ok r'" "r' = r\<lparr>rq_urlBuffer := rq_urlBuffer r', rq_urlBufferSize := rq_urlBufferSize r'\<rparr>"
    "case url_decode (raw_url r) of None \<Rightarrow> code = -1
     | Some u \<Rightarrow> code = 0 \<and> rq_urlBuffer r' \<noteq> None \<and> cstr (urlBuffer_mem r') = cstr u"
proof -
  let ?n = "rq_urlLength r"
  define r1 where "r1 = (if rq_urlBufferSize r < ?n + 1
                  then r\<lparr>rq_urlBuffer := Some (replicate (?n + 1) NUL), rq_urlBufferSize := ?n + 1\<rparr> else r)"
  have r1: "rq_urlLength r1 = ?n" "rq_urlStart r1 = rq_urlStart r" "rq_data r1 = rq_data r"
    by (simp_all add: r1_def)
  have b1: "length (urlBuffer_mem r1) = rq_urlBufferSize r1" "?n < length (urlBuffer_mem r1)"
    using assms(1) by (auto simp: r1_def buffer_ok_def urlBuffer_mem_def)
  then obtain b where b: "rq_urlBuffer r1 = Some b"
    by (cases "rq_urlBuffer r1") (auto simp: urlBuffer_mem_def)
  obtain c dst where l: "percentDecode_loop (drop (rq_urlStart r) (rq_data r)) ?n 0 0 (urlBuffer_mem r1) = (c, dst)"
    by fastforce
  have r': "r' = r1\<lparr>rq_urlBuffer := Some dst\<rparr>" and code: "code = (if c \<noteq> 0 then -1 else 0)"
  proof -
    have "decodeUrl r = (let (c, dst) = percentDecode (drop (rq_urlStart r1) (rq_data r1)) (urlBuffer_mem r1)
        (rq_urlLength r1); r2 = r1\<lparr>rq_urlBuffer := map_option (\<lambda>_. dst) (rq_urlBuffer r1)\<rparr>
        in if c \<noteq> 0 then (-1, r2) else (0, r2))"
      unfolding decodeUrl_def r1_def using n assms(2) by (simp only: Let_def if_True not_True_eq_False if_False simp_thms)
    then show "r' = r1\<lparr>rq_urlBuffer := Some dst\<rparr>" "code = (if c \<noteq> 0 then -1 else 0)"
      using dec l b r1 by (auto simp: percentDecode_def Let_def Let_def split: if_splits)
  qed
  show "r' = r\<lparr>rq_urlBuffer := rq_urlBuffer r', rq_urlBufferSize := rq_urlBufferSize r'\<rparr>"
    by (auto simp: r' r1_def)
  have spec: "case url_decode (raw_url r) of
      None \<Rightarrow> c = -1
    | Some u \<Rightarrow> \<exists>rest. (c, dst) = (0, u @ NUL # rest) \<and> length (u @ NUL # rest) = length (urlBuffer_mem r1)"
    using percentDecode_loop_spec [of ?n "drop (rq_urlStart r) (rq_data r)" 0 0 "urlBuffer_mem r1"] b1 assms(3) l
    by (auto simp: raw_url_def mem_read_def split: option.splits)
  then show "case url_decode (raw_url r) of None \<Rightarrow> code = -1
     | Some u \<Rightarrow> code = 0 \<and> rq_urlBuffer r' \<noteq> None \<and> cstr (urlBuffer_mem r') = cstr u"
    by (auto simp: code r' urlBuffer_mem_def cstr_append_NUL split: option.splits)
  have "length dst = length (urlBuffer_mem r1)"
  proof -
    have "length (snd (percentDecode_loop s n si di d)) = length d" for s n si di d
      by (induction s n si di d rule: percentDecode_loop.induct)
        (simp add: percentDecode_loop.simps Let_def)
    from this [of "drop (rq_urlStart r) (rq_data r)" ?n 0 0 "urlBuffer_mem r1"] l show ?thesis by simp
  qed
  then show "buffer_ok r'" using b1 by (simp add: buffer_ok_def r' urlBuffer_mem_def)
qed


section \<open>Parse results\<close>

lemma parse_finish:
  assumes "parse d r = Some (PR_finishOk, r')"
  obtains r1 where "parseInternal (r\<lparr>rq_data := d\<rparr>) = Some (PR_finishOk, r1)" "decodeUrl r1 = (0, r')"
    "checkUrl r' = 0"
  using assms
  by (auto simp: parse_def postParse_def Let_def split: bind_splits if_splits prod.splits)

lemma parseInternal_buffer:
  "parseInternal r = Some (res, r') \<Longrightarrow> rq_urlBuffer r' = rq_urlBuffer r \<and> rq_urlBufferSize r' = rq_urlBufferSize r"
  by (erule parseInternal_rule [where I = "\<lambda>s. rq_urlBuffer s = rq_urlBuffer r \<and> rq_urlBufferSize s = rq_urlBufferSize r"])
    (auto elim!: parse_step_InlE parse_step_InrE)

lemma parseInternal_wf: "parseInternal r = Some (res, r') \<Longrightarrow> rq_wf r \<Longrightarrow> rq_wf r'"
  by (erule parseInternal_rule [where I = rq_wf]) (auto dest: parse_step_wf)

lemma parseInternal_finish: "parseInternal r = Some (PR_finishOk, r') \<Longrightarrow> rq_state r' = S_finishOk"
proof -
  assume p: "parseInternal r = Some (PR_finishOk, r')"
  have "PR_finishOk = PR_finishOk \<longrightarrow> rq_state r' = S_finishOk"
    by (rule parseInternal_rule [OF p, where I = "\<lambda>_. True" and Q = "\<lambda>res r. res = PR_finishOk \<longrightarrow> rq_state r = S_finishOk"])
      (auto dest: parse_step_InrD)
  then show ?thesis by simp
qed

lemma decodeUrl_urlLength: "decodeUrl r = (0, r') \<Longrightarrow> rq_urlLength r > 0"
  by (auto simp: decodeUrl_def split: if_splits)

text \<open>
  C6: A request that parses has a URL that is the decoding of the URL received, made of harmless
  characters only and without two dots in a row, so that no path component is '..'.
\<close>

theorem parse_url_safe:
  assumes "parse d r = Some (PR_finishOk, r')" "rq_wf (r\<lparr>rq_data := d\<rparr>)" "buffer_ok r"
  shows "\<exists>u. getUrl r' = Some u \<and> url_decode (raw_url r') \<noteq> None
    \<and> u = cstr (the (url_decode (raw_url r'))) \<and> (\<forall>c \<in> set u. checkUrlSymbols c) \<and> \<not> sublist ''..'' u"
proof -
  from parse_finish [OF assms(1)] obtain r1 where
    p: "parseInternal (r\<lparr>rq_data := d\<rparr>) = Some (PR_finishOk, r1)" and dec: "decodeUrl r1 = (0, r')"
    and chk: "checkUrl r' = 0" .
  have wf: "rq_wf r1" and b: "buffer_ok r1" and st: "rq_state r1 = S_finishOk"
    using parseInternal_wf [OF p assms(2)] parseInternal_buffer [OF p] parseInternal_finish [OF p] assms(3)
    by (simp_all add: buffer_ok_def urlBuffer_mem_def)
  have "rq_urlStart r1 + rq_urlLength r1 \<le> rq_size r1" using wf by (simp add: rq_wf_def)
  note spec = decodeUrl_spec [OF b st this decodeUrl_urlLength [OF dec] dec]
  have raw: "raw_url r' = raw_url r1" "rq_state r' = S_finishOk"
    by (subst spec(2), simp add: raw_url_def st)+
  from spec(3) obtain u where u: "url_decode (raw_url r1) = Some u" "rq_urlBuffer r' \<noteq> None"
    "cstr (urlBuffer_mem r') = cstr u" by (auto split: option.splits)
  then have "getUrl r' = Some (cstr u)" using raw by (auto simp: getUrl_def urlBuffer_mem_def)
  then show ?thesis using u raw chk by (simp add: checkUrl_iff safe_url_def)
qed

section \<open>URL prefixes\<close>

lemma cstr_at_drop: "i \<le> length s \<Longrightarrow> cstr_at s (i + k) = cstr_at (drop i s) k"
  by (auto simp: cstr_at_def)

lemma cstr_at_NUL: "NUL \<notin> set s \<Longrightarrow> i \<le> length s \<Longrightarrow> cstr_at s i = NUL \<longleftrightarrow> i = length s"
  by (auto simp: cstr_at_def) (metis nth_mem)

lemma prefix_loop_spec:
  assumes "NUL \<notin> set u" "NUL \<notin> set p" "i \<le> length u" "j \<le> length p"
  shows "\<exists>c a b. drop i u = c @ a \<and> drop j p = c @ b \<and> prefix_loop u p i j = (i + length c, j + length c)
    \<and> (a = [] \<or> b = [] \<or> hd a \<noteq> hd b)"
  using assms
proof (induction u p i j rule: prefix_loop.induct)
  case (1 u p i j)
  show ?case
  proof (cases "i < length u \<and> j < length p \<and> u ! i = p ! j")
    case True
    then have c: "cstr_at u i \<noteq> NUL \<and> cstr_at p j \<noteq> NUL \<and> cstr_at u i = cstr_at p j"
      using 1 nth_mem [of i u] nth_mem [of j p] by (auto simp: cstr_at_def)
    then obtain c a b where "drop (i + 1) u = c @ a" "drop (j + 1) p = c @ b"
      "prefix_loop u p (i + 1) (j + 1) = (i + 1 + length c, j + 1 + length c)" "a = [] \<or> b = [] \<or> hd a \<noteq> hd b"
      using 1 True by fastforce
    moreover have "drop i u = u ! i # drop (i + 1) u" "drop j p = u ! i # drop (j + 1) p"
      using True Cons_nth_drop_Suc [of i u] Cons_nth_drop_Suc [of j p] by simp_all
    ultimately show ?thesis
      using c by (intro exI [of _ "u ! i # c"] exI [of _ a] exI [of _ b]) (simp add: prefix_loop.simps [of u p i j])
  next
    case False
    then have "prefix_loop u p i j = (i, j)"
      using 1 by (auto simp: prefix_loop.simps [of u p i j] cstr_at_def)
    moreover have "drop i u = [] \<or> drop j p = [] \<or> hd (drop i u) \<noteq> hd (drop j p)"
      using False by (auto simp: hd_drop_conv_nth)
    ultimately show ?thesis by (intro exI [of _ "[]"] exI [of _ "drop i u"] exI [of _ "drop j p"]) simp
  qed
qed

definition drop_slashes :: "string \<Rightarrow> string" where
  "drop_slashes = dropWhile (\<lambda>c. c = CHR ''/'')"

lemma drop_scan_slashes: "drop (scan (\<lambda>c. c = CHR ''/'') s 0) s = drop_slashes s"
  by (simp add: scan_takeWhile drop_slashes_def dropWhile_eq_drop)

text \<open>
  The characters before the two heads when the whole prefix has been matched: \<open>c\<close> is what the loop has passed, \<open>i\<close> and
  \<open>j\<close> the slashes skipped before it.
\<close>

lemma slashes_before_heads:
  fixes u p c a defines "i \<equiv> scan (\<lambda>c. c = CHR ''/'') u 0" and "j \<equiv> scan (\<lambda>c. c = CHR ''/'') p 0"
  assumes u: "drop i u = c @ a" and p: "drop j p = c"
  shows "0 < j + length c \<and> 0 < i + length c \<and> cstr_at p (j + length c - 1) = CHR ''/''
      \<and> cstr_at u (i + length c - 1) = CHR ''/''
    \<longleftrightarrow> p \<noteq> [] \<and> last p = CHR ''/'' \<and> (c = [] \<longrightarrow> u \<noteq> [] \<and> hd u = CHR ''/'')"
proof -
  have ij: "i \<le> length u" "j \<le> length p" using scan_le [of 0] by (simp_all add: i_def j_def)
  have len: "length p = j + length c" using arg_cong [OF p, of length] ij by simp
  show ?thesis
  proof (cases "c = []")
    case c: True
    have "0 < i \<longleftrightarrow> u \<noteq> [] \<and> hd u = CHR ''/''" by (cases u) (auto simp: i_def scan_takeWhile)
    moreover have "0 < i \<Longrightarrow> cstr_at u (i - 1) = CHR ''/''"
      using scan_pass [of 0 "i - 1" "\<lambda>c. c = CHR ''/''" u] ij by (simp add: i_def [symmetric] cstr_at_def)
    ultimately show ?thesis using c len by (cases "p = []") (auto simp: cstr_at_def last_conv_nth)
  next
    case c: False
    have "cstr_at (c @ a) (length c - 1) = last c"
      using c by (cases c rule: rev_cases) (simp_all add: cstr_at_def nth_append)
    then have "cstr_at u (i + (length c - 1)) = last c" using cstr_at_drop [OF ij(1), of "length c - 1"] u by simp
    moreover have "p = take j p @ c" using p append_take_drop_id [of j p] by simp
    then have "last p = last c" using c by (metis last_appendR)
    moreover have "0 < length c" using c by simp
    ultimately show ?thesis using c len by (cases "p = []") (auto simp: cstr_at_def last_conv_nth)
  qed
qed

text \<open>The result from what the loop has passed, \<open>c\<close>, and what is left of the two strings.\<close>

lemma url_has_prefix_split:
  assumes u: "NUL \<notin> set u" and p: "NUL \<notin> set p"
  obtains c a b where "drop_slashes u = c @ a" "drop_slashes p = c @ b" "a = [] \<or> b = [] \<or> hd a \<noteq> hd b"
    "url_has_prefix u p \<longleftrightarrow>
      (if b = [] then a = [] \<or> hd a = CHR ''/'' \<or> p \<noteq> [] \<and> last p = CHR ''/'' \<and> (c = [] \<longrightarrow> u \<noteq> [] \<and> hd u = CHR ''/'')
       else hd b = CHR ''/'' \<and> a = [])"
proof -
  define i where "i = scan (\<lambda>c. c = CHR ''/'') u 0"
  define j where "j = scan (\<lambda>c. c = CHR ''/'') p 0"
  have ij: "i \<le> length u" "j \<le> length p" using scan_le [of 0] by (simp_all add: i_def j_def)
  have dr: "drop i u = drop_slashes u" "drop j p = drop_slashes p"
    by (simp_all add: i_def j_def drop_scan_slashes)
  obtain c a b where cab: "drop i u = c @ a" "drop j p = c @ b"
    "prefix_loop u p i j = (i + length c, j + length c)" "a = [] \<or> b = [] \<or> hd a \<noteq> hd b"
    using prefix_loop_spec [OF u p ij] by blast
  have at: "cstr_at u (i + length c) = (if a = [] then NUL else hd a)"
    "cstr_at p (j + length c) = (if b = [] then NUL else hd b)"
    using cstr_at_drop [of i u "length c"] cstr_at_drop [of j p "length c"] ij
    by (auto simp: cab(1,2) cstr_at_def nth_append hd_conv_nth)
  have nz: "a \<noteq> [] \<Longrightarrow> hd a \<noteq> NUL" "b \<noteq> [] \<Longrightarrow> hd b \<noteq> NUL"
    using u p cab(1,2) by (metis Un_iff hd_in_set in_set_dropD set_append)+
  have "url_has_prefix u p \<longleftrightarrow>
    (if b = [] then a = [] \<or> hd a = CHR ''/'' \<or> j + length c > 0 \<and> i + length c > 0
        \<and> cstr_at p (j + length c - 1) = CHR ''/'' \<and> cstr_at u (i + length c - 1) = CHR ''/''
     else hd b = CHR ''/'' \<and> a = [])"
    using nz by (auto simp: url_has_prefix_def i_def [symmetric] j_def [symmetric] cab(3) at)
  with that [of c a b] cab dr slashes_before_heads [of u c a p, folded i_def j_def] show thesis by simp
qed

text \<open>
  C36: When isUrlPrefix says yes, as a statement on the two strings: a component-wise prefix, or,
  unexpectedly, a URL that is shorter than the prefix.
\<close>

theorem url_has_prefix_iff:
  assumes u: "NUL \<notin> set u" and p: "NUL \<notin> set p"
  shows "url_has_prefix u p \<longleftrightarrow>
    (\<exists>w. drop_slashes u = drop_slashes p @ w
       \<and> (w = [] \<or> hd w = CHR ''/''
          \<or> p \<noteq> [] \<and> last p = CHR ''/'' \<and> (drop_slashes p = [] \<longrightarrow> u \<noteq> [] \<and> hd u = CHR ''/'')))
    \<or> (\<exists>w. drop_slashes p = drop_slashes u @ CHR ''/'' # w)"
proof -
  obtain c a b where cab: "drop_slashes u = c @ a" "drop_slashes p = c @ b" "a = [] \<or> b = [] \<or> hd a \<noteq> hd b"
    and has: "url_has_prefix u p \<longleftrightarrow>
      (if b = [] then a = [] \<or> hd a = CHR ''/'' \<or> p \<noteq> [] \<and> last p = CHR ''/'' \<and> (c = [] \<longrightarrow> u \<noteq> [] \<and> hd u = CHR ''/'')
       else hd b = CHR ''/'' \<and> a = [])"
    by (rule url_has_prefix_split [OF u p])
  show ?thesis
  proof (cases "b = []")
    case True
    then show ?thesis using has cab(1,2) by simp
  next
    case False
    then have "\<not> (\<exists>w. a = b @ w)" using cab(3) by auto
    moreover have "(\<exists>w. b = a @ CHR ''/'' # w) \<longleftrightarrow> a = [] \<and> hd b = CHR ''/''"
      using cab(3) False by (cases a; cases b) auto
    ultimately show ?thesis using has False cab(1,2) by auto
  qed
qed

section \<open>Witnesses\<close>

lemma parse_url_safe_witness:
  "\<exists>r'. parse (''GET /a%2Eb HTTP/1.1'' @ [CR, LF] @ ''H: x'' @ [CR, LF, CR, LF]) rq_init = Some (PR_finishOk, r')
     \<and> getUrl r' = Some ''/a.b''"
proof -
  let ?d = "''GET /a%2Eb HTTP/1.1'' @ [CR, LF] @ ''H: x'' @ [CR, LF, CR, LF]"
  have "map_option (\<lambda>(res, r). (res, url_decode (raw_url r))) (parse ?d rq_init) = Some (PR_finishOk, Some ''/a.b'')"
    by code_simp
  then obtain r' where p: "parse ?d rq_init = Some (PR_finishOk, r')" "url_decode (raw_url r') = Some ''/a.b''"
    by auto
  have "rq_wf (rq_init\<lparr>rq_data := ?d\<rparr>)" "buffer_ok rq_init" by code_simp+
  from parse_url_safe [OF p(1) this] p show ?thesis by (simp add: cstr_def)
qed

lemma url_has_prefix_iff_witness:
  "url_has_prefix ''/app/x'' ''app'' \<and> url_has_prefix ''/app'' ''/app/admin'' \<and> \<not> url_has_prefix ''/apple'' ''/app''"
proof -
  have n: "NUL \<notin> set ''/app/x''" "NUL \<notin> set ''app''" "NUL \<notin> set ''/app''" "NUL \<notin> set ''/app/admin''"
    "NUL \<notin> set ''/apple''" by simp_all
  show ?thesis
    unfolding url_has_prefix_iff [OF n(1,2)] url_has_prefix_iff [OF n(3,4)] url_has_prefix_iff [OF n(5,3)]
    by (simp add: drop_slashes_def)
qed

end
