(* ===== verification/RequestExecutor.thy ===== *)
theory RequestExecutor
  imports Executor HttpRequestUrl
begin

text \<open>
  \<open>src/executors/RequestExecutor.cpp\<close>: collects a request in the connection's buffer, parses
  it each time bytes arrive, and hands the connection to the executor that answers: a proxy
  when the URL has the prefix of one, the file executor otherwise. \<open>readFd0\<close> is the virtual
  transfer and \<open>up\<close> the virtual start of the next executor.

  \<open>HttpRequest::parse\<close> does not return on some inputs (\<open>parse_hangs_iff\<close>); a handler that calls
  it does not either. Results are therefore options, \<open>None\<close> for a call that never returns.

  \<open>fileNameBuffer\<close> is a C array of \<open>MAX_FILE_NAME + 1\<close> bytes and a string without a bound here:
  where the source appends without a check the string gets as long as the text, and
  \<open>file_name_bound\<close> says when it fits the array.
\<close>

datatype parse_request_result = PQR_again | PQR_file | PQR_proxy | PQR_invalid

definition RequestExecutor_up :: "'w os \<Rightarrow> nat \<Rightarrow> ('w poll_loop, int) state" where
  "RequestExecutor_up os a = do {
     upd a (\<lambda>d. d\<lparr>ed_removeOnTimeout := True\<rparr>);
     upd a (\<lambda>d. d\<lparr>ed_connectionType := CT_clear\<rparr>);
     buf_init a REQUEST_BUFFER_SIZE;
     upd a (\<lambda>d. d\<lparr>ed_request := rq_reset (ed_request d)\<rparr>);
     d \<leftarrow> exec a;
     rc \<leftarrow> addPollFd os a (ed_fd0 d) EPOLLIN;
     if rc \<noteq> 0 then State_Monad.return (-1)
     else do { set_state a ES_readRequest; State_Monad.return 0 }
   }"

definition readRequest :: "(nat \<Rightarrow> nat \<Rightarrow> nat \<Rightarrow> ('w poll_loop, int \<times> int) state) \<Rightarrow> nat
    \<Rightarrow> ('w poll_loop, int) state" where
  "readRequest readFd0 a = do {
     r \<leftarrow> buf_startWrite a;
     (case r of (ok, p, sz) \<Rightarrow>
       if ok then do {
         r \<leftarrow> readFd0 a p sz;
         (case r of (rd, errorCode) \<Rightarrow>
           if rd \<le> 0 then
             if errorCode \<noteq> EWOULDBLOCK \<and> errorCode \<noteq> EAGAIN \<and> errorCode \<noteq> EINTR
             then State_Monad.return (-1)
             else do { retry_inc a; State_Monad.return 0 }
           else do { buf_endWrite a (nat rd); retry_reset a; State_Monad.return 0 })
       }
       else State_Monad.return (-1))
   }"

text \<open>The index of the first proxy whose prefix the URL has.\<close>

fun findProxy_loop :: "http_request \<Rightarrow> proxy_parameters list \<Rightarrow> nat \<Rightarrow> nat option" where
  "findProxy_loop r [] i = None"
| "findProxy_loop r (px # pxs) i =
     (if isUrlPrefix r (px_prefix px) then Some i else findProxy_loop r pxs (i + 1))"

definition findProxy :: "http_request \<Rightarrow> proxy_parameters list \<Rightarrow> nat option" where
  "findProxy r proxies = findProxy_loop r proxies 0"

text \<open>
  The file a URL names: the new content of \<open>fileNameBuffer\<close>, and whether the request is valid.
\<close>

definition file_of_url :: "nat \<Rightarrow> string \<Rightarrow> string \<Rightarrow> string \<times> parse_request_result" where
  "file_of_url rootFolderLength fileName url =
     (let root = take rootFolderLength fileName
      in if url = ''/'' then (root @ ''index.html'', PQR_file)
         else if rootFolderLength + length url \<le> MAX_FILE_NAME then (root @ url, PQR_file)
         else (root, PQR_invalid))"

definition set_fileName :: "string \<Rightarrow> ('w poll_loop, unit) state" where
  "set_fileName f = modify (\<lambda>s. s\<lparr>pl_fileNameBuffer := f\<rparr>)"

definition parseRequest :: "nat \<Rightarrow> ('w poll_loop, parse_request_result option) state" where
  "parseRequest a = do {
     r \<leftarrow> buf_startRead a;
     (case r of (ok, p, sz) \<Rightarrow>
       if ok then do {
         bytes \<leftarrow> buf_mem a p sz;
         d \<leftarrow> exec a;
         (case parse bytes (ed_request d) of
            None \<Rightarrow> State_Monad.return None
          | Some (result, request) \<Rightarrow> do {
              upd a (\<lambda>d. d\<lparr>ed_request := request\<rparr>);
              if result = PR_finishOk then do {
                proxies \<leftarrow> gets (\<lambda>s. sp_proxies (pl_parameters s));
                case findProxy request proxies of
                  Some i \<Rightarrow>
                    if ed_connectionType d AND px_connectionType (proxies ! i) = 0
                    then State_Monad.return (Some PQR_invalid)
                    else do {
                      upd a (\<lambda>d. d\<lparr>ed_proxy := Some i\<rparr>);
                      State_Monad.return (Some PQR_proxy)
                    }
                | None \<Rightarrow>
                    (case getUrl request of
                       None \<Rightarrow> State_Monad.return (Some PQR_invalid)
                     | Some url \<Rightarrow> do {
                         root \<leftarrow> gets pl_rootFolderLength;
                         name \<leftarrow> gets pl_fileNameBuffer;
                         set_fileName (fst (file_of_url root name url));
                         State_Monad.return (Some (snd (file_of_url root name url)))
                       })
              }
              else if result = PR_needMoreData then State_Monad.return (Some PQR_again)
              else State_Monad.return (Some PQR_invalid)
            })
       }
       else State_Monad.return (Some PQR_again))
   }"

definition setExecutor :: "(executor \<Rightarrow> nat \<Rightarrow> ('w poll_loop, int) state) \<Rightarrow> nat \<Rightarrow> executor
    \<Rightarrow> ('w poll_loop, process_result) state" where
  "setExecutor vup a x = do {
     upd a (\<lambda>d. d\<lparr>ed_pExecutor := Some x\<rparr>);
     rc \<leftarrow> vup x a;
     if rc \<noteq> 0 then State_Monad.return PRES_removeExecutorError else State_Monad.return PRES_ok
   }"

text \<open>
  \<open>process_readRequest\<close>, with the types of the two executors it goes on with
  (\<open>SslRequestExecutor\<close> overrides the function to name its own two).
\<close>

definition process_readRequest :: "(nat \<Rightarrow> nat \<Rightarrow> nat \<Rightarrow> ('w poll_loop, int \<times> int) state)
    \<Rightarrow> (executor \<Rightarrow> nat \<Rightarrow> ('w poll_loop, int) state) \<Rightarrow> executor_type \<Rightarrow> executor_type \<Rightarrow> nat
    \<Rightarrow> ('w poll_loop, process_result option) state" where
  "process_readRequest readFd0 vup fileType proxyType a = do {
     rc \<leftarrow> readRequest readFd0 a;
     if rc \<noteq> 0 then State_Monad.return (Some PRES_removeExecutorError)
     else do {
       parseResult \<leftarrow> parseRequest a;
       case parseResult of
         None \<Rightarrow> State_Monad.return None
       | Some pr \<Rightarrow>
           if pr = PQR_file then do {
             res \<leftarrow> setExecutor vup a (getExecutor fileType);
             State_Monad.return (Some res)
           }
           else if pr = PQR_proxy then do {
             res \<leftarrow> setExecutor vup a (getExecutor proxyType);
             State_Monad.return (Some res)
           }
           else if pr = PQR_invalid then State_Monad.return (Some PRES_removeExecutorError)
           else State_Monad.return (Some PRES_ok)
     }
   }"

definition RequestExecutor_process :: "'w os \<Rightarrow> (executor \<Rightarrow> nat \<Rightarrow> ('w poll_loop, int) state)
    \<Rightarrow> nat \<Rightarrow> int \<Rightarrow> 32 word \<Rightarrow> ('w poll_loop, process_result option) state" where
  "RequestExecutor_process os vup a fd events = do {
     d \<leftarrow> exec a;
     if ed_state d = ES_readRequest \<and> fd = ed_fd0 d \<and> has events EPOLLIN
     then process_readRequest (Executor_readFd0 os) vup ET_file ET_proxy a
     else State_Monad.return (Some PRES_removeExecutorError)
   }"

section \<open>Routing\<close>

lemma findProxy_loop_spec:
  "findProxy_loop r pxs i = (if \<exists>px \<in> set pxs. isUrlPrefix r (px_prefix px)
     then Some (i + length (takeWhile (\<lambda>px. \<not> isUrlPrefix r (px_prefix px)) pxs)) else None)"
  by (induction pxs arbitrary: i) auto

lemma findProxy_None: "findProxy r pxs = None \<longleftrightarrow> (\<forall>px \<in> set pxs. \<not> isUrlPrefix r (px_prefix px))"
  by (auto simp: findProxy_def findProxy_loop_spec)

lemma findProxy_Some:
  assumes "findProxy r pxs = Some i"
  shows "i < length pxs" "isUrlPrefix r (px_prefix (pxs ! i))" "j < i \<Longrightarrow> \<not> isUrlPrefix r (px_prefix (pxs ! j))"
proof -
  let ?t = "takeWhile (\<lambda>px. \<not> isUrlPrefix r (px_prefix px)) pxs"
  from assms have i: "i = length ?t" and ex: "\<exists>px \<in> set pxs. isUrlPrefix r (px_prefix px)"
    by (auto simp: findProxy_def findProxy_loop_spec split: if_splits)
  have ne: "?t \<noteq> pxs" using ex by (metis takeWhile_eq_all_conv)
  then show l: "i < length pxs" using i length_takeWhile_le [of _ pxs]
    by (metis le_neq_implies_less takeWhile_eq_take take_all_iff order_refl)
  show "isUrlPrefix r (px_prefix (pxs ! i))"
    using nth_length_takeWhile [of _ pxs] l i by blast
  show "j < i \<Longrightarrow> \<not> isUrlPrefix r (px_prefix (pxs ! j))"
    using i nth_mem [of j ?t] by (metis set_takeWhileD takeWhile_nth)
qed

text \<open>The name of the file is the root folder followed by a safe path.\<close>

lemma parse_safe: "parse bs r = Some (PR_finishOk, r') \<Longrightarrow> getUrl r' = Some u \<Longrightarrow> safe_url u"
  by (erule parse_finish) (auto simp: checkUrl_iff getUrl_def urlBuffer_mem_def split: if_splits option.splits)

lemma safe_index: "safe_url ''index.html''"
  by (simp add: safe_url_def checkUrlSymbols_def is_lower_def is_upper_def is_digit_def dotdot_Cons)

lemma file_of_url_safe:
  assumes "safe_url url"
  shows "\<exists>u. fst (file_of_url n name url) = take n name @ u \<and> safe_url u"
  using assms safe_index by (auto simp: file_of_url_def Let_def safe_url_def intro: exI [of _ "[]"])

text \<open>
  The bound of the array is kept when the root folder leaves room for \<open>index.html\<close>, which the source
  appends without a check.
\<close>

lemma file_name_bound:
  "n + length ''index.html'' \<le> MAX_FILE_NAME \<Longrightarrow> length (fst (file_of_url n name url)) \<le> MAX_FILE_NAME"
  by (auto simp: file_of_url_def Let_def)

section \<open>The loop's data\<close>

lemma loop_rep_fileName [simp]: "loop_rep us (s\<lparr>pl_fileNameBuffer := f\<rparr>) = loop_rep us s"
  by (simp add: loop_rep_def)

lemma wp_set_fileName [loop_rules]:
  "at us a d s \<Longrightarrow> (\<And>s'. at us a d s' \<Longrightarrow> Q () s') \<Longrightarrow> wp (set_fileName f) Q s"
  by (simp add: set_fileName_def wp_simps at_def)

lemma RequestExecutor_up_at:
  assumes "at us a d s" "ed_pExecutor d \<noteq> None" "ed_pollData1 d = None"
  shows "wp (RequestExecutor_up os a) (\<lambda>r s'. \<exists>d'. at us a d' s' \<and> (r = 0 \<longrightarrow>
     ed_state d' = ES_readRequest \<and> ed_pollData0 d' \<noteq> None \<and> rb_content (ed_buffer d') = []
     \<and> rb_straight (ed_buffer d') \<and> ed_removeOnTimeout d')) s"
  using assms unfolding RequestExecutor_up_def wp_simps
  apply -
  apply (intro conjI impI allI | rule loop_rules free_upds at_exI | assumption
      | (auto simp: linked_poll_def; fail))+
  done

lemma readRequest_at:
  assumes r: "read_ok rd" and s: "at us a d s"
  shows "wp (readRequest rd a) (\<lambda>r s'. \<exists>d'. at us a d' s' \<and> ed_pExecutor d' = ed_pExecutor d
     \<and> ed_pollData1 d' = ed_pollData1 d \<and> (ed_pollData0 d' = None \<longleftrightarrow> ed_pollData0 d = None)
     \<and> prefix (rb_content (ed_buffer d)) (rb_content (ed_buffer d'))) s"
proof -
  note b = exec_fields_buffer [OF at_fields [OF s]]
  have w: "rb_content (rb_endWrite (length bs) (rb_store p bs q)) = rb_content (ed_buffer d) @ bs"
    if "rb_startWrite (ed_buffer d) = ((True, p, n), q)" "length bs \<le> n" for p bs q n
    using rb_write [OF b that] by simp
  show ?thesis
    using s unfolding readRequest_def wp_simps
    by - (intro conjI impI allI | rule read_okD [OF r] loop_rules at_exI | assumption
      | (auto simp: rb_endWrite_def; fail) | (auto simp: w; fail))+
qed

lemma file_of_url_result: "snd (file_of_url n name url) \<noteq> PQR_proxy"
  by (simp add: file_of_url_def Let_def)

lemma parseRequest_at:
  assumes s: "at us a d s"
  shows "wp (parseRequest a) (\<lambda>r s'. \<exists>d'. at us a d' s' \<and> ed_pExecutor d' = ed_pExecutor d
     \<and> ed_pollData1 d' = ed_pollData1 d \<and> ed_pollData0 d' = ed_pollData0 d \<and> ed_buffer d' = ed_buffer d
     \<and> (r = Some PQR_proxy \<longrightarrow> ed_proxy d' \<noteq> None)) s"
  using s unfolding parseRequest_def wp_simps
  by - (intro conjI impI allI | rule loop_rules free_upds at_exI | assumption
    | (auto simp: file_of_url_result; fail))+

text \<open>
  \<open>process_readRequest\<close> keeps the loop's data in order if the \<open>up\<close> of the two executors it may
  go on with does.
\<close>

definition up_safe :: "(executor \<Rightarrow> nat \<Rightarrow> ('w poll_loop, int) state) \<Rightarrow> executor \<Rightarrow> bool" where
  "up_safe vup x \<longleftrightarrow> (\<forall>us a d s. at us a d s \<longrightarrow> ed_pExecutor d = Some x \<longrightarrow> ed_pollData1 d = None \<longrightarrow>
     wp (vup x a) (\<lambda>_ s'. \<exists>d'. at us a d' s') s)"

lemma setExecutor_at:
  assumes up: "up_safe vup x" and s: "at us a d s" "ed_pollData1 d = None"
  shows "wp (setExecutor vup a x) (\<lambda>_ s'. \<exists>d'. at us a d' s') s"
proof -
  have u: "wp (vup x a) (\<lambda>_ s'. \<exists>d'. at us a d' s') t" if "at us a (d\<lparr>ed_pExecutor := Some x\<rparr>) t" for t
    using up that s(2) unfolding up_safe_def by force
  show ?thesis
    unfolding setExecutor_def wp_simps
    by (rule wp_upd_executor [OF s]) (rule wp_mono [OF u], auto)
qed

lemma process_readRequest_at:
  assumes r: "read_ok rd" and up: "up_safe vup (getExecutor ft)" "up_safe vup (getExecutor pt)"
    and s: "at us a d s" "ed_pollData1 d = None"
  shows "wp (process_readRequest rd vup ft pt a) (\<lambda>_ s'. \<exists>d'. at us a d' s') s"
  unfolding process_readRequest_def wp_simps
  apply (rule wp_mono [OF readRequest_at [OF r s(1)]], elim exE conjE, intro conjI impI)
  subgoal by auto
  subgoal for rc s1 d1
    apply (rule wp_mono [OF parseRequest_at], assumption, elim exE conjE, intro conjI impI allI)
    subgoal by auto
    subgoal for pr s2 d2 y by (rule wp_mono [OF setExecutor_at [OF up(1), of us a d2]]) (use s(2) in auto)
    subgoal for pr s2 d2 y by (rule wp_mono [OF setExecutor_at [OF up(2), of us a d2]]) (use s(2) in auto)
    by auto
  done

end
