(* ===== verification/SslRequestExecutor.thy ===== *)
theory SslRequestExecutor
  imports RequestExecutor
begin

text \<open>
  \<open>src/executors/SslRequestExecutor.cpp\<close>: a request over TLS. The handshake comes first, and
  \<open>readFd0\<close> reads through OpenSSL; the rest is \<open>RequestExecutor\<close>'s.
\<close>

definition sslInit :: "'w os \<Rightarrow> nat \<Rightarrow> ('w poll_loop, int) state" where
  "sslInit os a = do {
     new \<leftarrow> sys (os_SSL_new os);
     case new of
       None \<Rightarrow> State_Monad.return (-1)
     | Some ssl \<Rightarrow> do {
         d \<leftarrow> exec a;
         rc \<leftarrow> sys (os_SSL_set_fd os ssl (ed_fd0 d));
         if rc = 0 then do {
           sys (os_SSL_shutdown os ssl);
           sys (os_SSL_free os ssl);
           State_Monad.return (-1)
         }
         else do {
           sys (os_SSL_set_accept_state os ssl);
           upd a (\<lambda>d. d\<lparr>ed_ssl := Some ssl\<rparr>);
           State_Monad.return 0
         }
       }
   }"

datatype handshake_result = HHR_ok | HHR_error | HHR_again

definition handleHandshake :: "'w os \<Rightarrow> nat \<Rightarrow> bool \<Rightarrow> ('w poll_loop, handshake_result) state" where
  "handleHandshake os a firstTime = do {
     d \<leftarrow> exec a;
     ret \<leftarrow> sys (os_SSL_do_handshake os (ed_ssl d));
     if ret = 1 then State_Monad.return HHR_ok
     else do {
       err \<leftarrow> sys (os_SSL_get_error os (ed_ssl d) ret);
       if err = SSL_ERROR_WANT_WRITE then do {
         (if firstTime then addPollFd os a (ed_fd0 d) EPOLLOUT else editPollFd os a (ed_fd0 d) EPOLLOUT);
         State_Monad.return HHR_again
       }
       else if err = SSL_ERROR_WANT_READ then do {
         (if firstTime then addPollFd os a (ed_fd0 d) EPOLLIN else editPollFd os a (ed_fd0 d) EPOLLIN);
         State_Monad.return HHR_again
       }
       else State_Monad.return HHR_error
     }
   }"

definition SslRequestExecutor_up :: "'w os \<Rightarrow> nat \<Rightarrow> ('w poll_loop, int) state" where
  "SslRequestExecutor_up os a = do {
     upd a (\<lambda>d. d\<lparr>ed_removeOnTimeout := True\<rparr>);
     upd a (\<lambda>d. d\<lparr>ed_connectionType := CT_ssl\<rparr>);
     buf_init a REQUEST_BUFFER_SIZE;
     upd a (\<lambda>d. d\<lparr>ed_request := rq_reset (ed_request d)\<rparr>);
     rc \<leftarrow> sslInit os a;
     if rc \<noteq> 0 then State_Monad.return (-1)
     else do {
       result \<leftarrow> handleHandshake os a True;
       if result = HHR_ok then do {
         d \<leftarrow> exec a;
         rc \<leftarrow> addPollFd os a (ed_fd0 d) EPOLLIN;
         if rc \<noteq> 0 then State_Monad.return (-1)
         else do { set_state a ES_readRequest; State_Monad.return 0 }
       }
       else if result = HHR_again then do { set_state a ES_sslHandshake; State_Monad.return 0 }
       else State_Monad.return (-1)
     }
   }"

definition SslRequestExecutor_readFd0 :: "'w os \<Rightarrow> nat \<Rightarrow> nat \<Rightarrow> nat \<Rightarrow> ('w poll_loop, int \<times> int) state" where
  "SslRequestExecutor_readFd0 os a p count = do {
     d \<leftarrow> exec a;
     r \<leftarrow> sys (os_SSL_read os (ed_ssl d) count);
     (case r of (result, bs) \<Rightarrow>
       if result > 0 then do { buf_store a p bs; State_Monad.return (result, 0) }
       else do {
         error \<leftarrow> sys (os_SSL_get_error os (ed_ssl d) result);
         if error = SSL_ERROR_WANT_READ then State_Monad.return (result, EAGAIN)
         else if error = SSL_ERROR_WANT_WRITE then do {
           rc \<leftarrow> editPollFd os a (ed_fd0 d) (EPOLLIN OR EPOLLOUT);
           State_Monad.return (result, if rc = 0 then EAGAIN else EINVAL)
         }
         else State_Monad.return (result, EINVAL)
       })
   }"

definition process_handshake :: "'w os \<Rightarrow> nat \<Rightarrow> ('w poll_loop, process_result) state" where
  "process_handshake os a = do {
     result \<leftarrow> handleHandshake os a False;
     if result = HHR_ok then do {
       d \<leftarrow> exec a;
       rc \<leftarrow> editPollFd os a (ed_fd0 d) EPOLLIN;
       if rc \<noteq> 0 then State_Monad.return PRES_removeExecutorError
       else do { set_state a ES_readRequest; State_Monad.return PRES_ok }
     }
     else if result = HHR_again then do { retry_inc a; State_Monad.return PRES_ok }
     else State_Monad.return PRES_removeExecutorError
   }"

text \<open>The function of \<open>RequestExecutor\<close> with the transfer and the next executors of TLS connections.\<close>

definition SslRequestExecutor_process_readRequest :: "'w os \<Rightarrow> (executor \<Rightarrow> nat \<Rightarrow> ('w poll_loop, int) state)
    \<Rightarrow> nat \<Rightarrow> ('w poll_loop, process_result option) state" where
  "SslRequestExecutor_process_readRequest os vup =
     process_readRequest (SslRequestExecutor_readFd0 os) vup ET_sslFile ET_sslProxy"

definition SslRequestExecutor_process :: "'w os \<Rightarrow> (executor \<Rightarrow> nat \<Rightarrow> ('w poll_loop, int) state)
    \<Rightarrow> nat \<Rightarrow> int \<Rightarrow> 32 word \<Rightarrow> ('w poll_loop, process_result option) state" where
  "SslRequestExecutor_process os vup a fd events = do {
     d \<leftarrow> exec a;
     if ed_state d = ES_sslHandshake \<and> fd = ed_fd0 d
     then do { res \<leftarrow> process_handshake os a; State_Monad.return (Some res) }
     else if ed_state d = ES_readRequest \<and> fd = ed_fd0 d \<and> events = EPOLLIN
     then SslRequestExecutor_process_readRequest os vup a
     else State_Monad.return (Some PRES_removeExecutorError)
   }"

section \<open>The loop's data\<close>

lemma wp_os_SSL_read:
  fixes s :: "'w poll_loop"
  assumes "io_ok os" "at us a d s"
    and "\<And>r bs s'. r \<le> int n \<Longrightarrow> (0 < r \<Longrightarrow> r = int (length bs)) \<Longrightarrow> at us a d s' \<Longrightarrow> Q (r, bs) s'"
  shows "wp (sys (os_SSL_read os ssl n)) Q s"
proof (rule wp_sys_at [OF assms(2)])
  fix r w and s' :: "'w poll_loop"
  assume r: "os_SSL_read os ssl n (pl_world s) = (r, w)" and s': "at us a d s'"
  obtain r1 bs where r1: "r = (r1, bs)" by fastforce
  then show "Q r s'" using io_okD(4,5) [OF assms(1)] r s' assms(3) by metis
qed

lemma read_ok_ssl: "io_ok os \<Longrightarrow> read_ok (SslRequestExecutor_readFd0 os)"
  unfolding read_ok_def SslRequestExecutor_readFd0_def wp_simps
  apply (intro allI impI)
  subgoal premises p for us a d s pos n Q
  proof (rule wp_exec [OF p(2)], rule wp_os_SSL_read [OF p(1,2)], intro conjI impI)
    fix r and bs :: string and s' :: "'a poll_loop"
    assume r: "r \<le> int n" "0 < r \<Longrightarrow> r = int (length bs)" and s': "at us a d s'"
    show "wp (buf_store a pos (snd (r, bs))) (\<lambda>_. Q (fst (r, bs), 0)) s'" if "0 < fst (r, bs)"
    proof -
      from r that have l: "r = int (length bs)" "length bs \<le> n" by simp_all
      show ?thesis
        by (rule wp_buf_store [OF s']) (use p(3) p(5) [rule_format, of r bs] l that in auto)
    qed
    show "wp (sys (os_SSL_get_error os (ed_ssl d) (fst (r, bs)))) (\<lambda>error s.
         (error = SSL_ERROR_WANT_READ \<longrightarrow> Q (fst (r, bs), EAGAIN) s) \<and>
         (error \<noteq> SSL_ERROR_WANT_READ \<longrightarrow>
          (error = SSL_ERROR_WANT_WRITE \<longrightarrow>
           wp (editPollFd os a (ed_fd0 d) (EPOLLIN OR EPOLLOUT))
            (\<lambda>rc. Q (fst (r, bs), if rc = 0 then EAGAIN else EINVAL)) s) \<and>
          (error \<noteq> SSL_ERROR_WANT_WRITE \<longrightarrow> Q (fst (r, bs), EINVAL) s))) s'" if "\<not> 0 < fst (r, bs)"
      using s' that p(4) by - (intro conjI impI allI | rule loop_rules | assumption | (auto; fail))+
  qed
  done

lemma handleHandshake_at:
  assumes "at us a d s" "ed_pExecutor d \<noteq> None" "ed_pollData1 d = None"
  shows "wp (handleHandshake os a firstTime) (\<lambda>_ s'. \<exists>d'. at us a d' s' \<and> ed_pExecutor d' \<noteq> None
     \<and> ed_pollData1 d' = None) s"
  using assms unfolding handleHandshake_def wp_simps
  by - (intro conjI impI allI | rule loop_rules at_exI | assumption | (auto simp: linked_poll_def; fail))+

lemma wp_sslInit:
  assumes "at us a d s" "\<And>r x s'. at us a (d\<lparr>ed_ssl := x\<rparr>) s' \<Longrightarrow> Q r s'" "\<And>s'. at us a d s' \<Longrightarrow> Q (-1) s'"
  shows "wp (sslInit os a) Q s"
  using assms unfolding sslInit_def wp_simps
  by - (intro conjI impI allI | rule loop_rules free_upds | assumption | (auto; fail))+

lemma SslRequestExecutor_up_at:
  assumes "at us a d s" "ed_pExecutor d \<noteq> None" "ed_pollData1 d = None"
  shows "wp (SslRequestExecutor_up os a) (\<lambda>_ s'. \<exists>d'. at us a d' s') s"
proof -
  have H: "wp (handleHandshake os a True) (\<lambda>r s'. (r = HHR_ok \<longrightarrow> wp (exec a) (\<lambda>d. wp (addPollFd os a (ed_fd0 d) EPOLLIN)
        (\<lambda>rc s. (rc \<noteq> 0 \<longrightarrow> (\<exists>d'. at us a d' s)) \<and> (\<not> rc \<noteq> 0 \<longrightarrow> wp (set_state a ES_readRequest) (\<lambda>_ s'. \<exists>d'. at us a d' s') s))) s')
      \<and> (r \<noteq> HHR_ok \<longrightarrow> (r = HHR_again \<longrightarrow> wp (set_state a ES_sslHandshake) (\<lambda>_ s'. \<exists>d'. at us a d' s') s')
        \<and> (r \<noteq> HHR_again \<longrightarrow> (\<exists>d'. at us a d' s')))) t"
    if "at us a c t" "ed_pExecutor c \<noteq> None" "ed_pollData1 c = None" for c t
    by (rule wp_mono [OF handleHandshake_at [OF that]], elim exE conjE)
      (intro conjI impI allI exI | rule loop_rules | assumption | (auto simp: linked_poll_def; fail))+
  show ?thesis
    using assms unfolding SslRequestExecutor_up_def wp_simps
    by - (intro conjI impI allI | rule H wp_sslInit loop_rules free_upds | assumption | (auto; fail))+
qed

lemma SslRequestExecutor_process_at:
  assumes os: "os_ok os" and up: "up_safe vup X_sslFile" "up_safe vup X_sslProxy"
    and s: "at us a d s" "ed_pExecutor d \<noteq> None" "ed_pollData1 d = None"
  shows "wp (SslRequestExecutor_process os vup a fd ev) (\<lambda>_ s'. \<exists>d'. at us a d' s') s"
proof -
  have io: "io_ok os" using os by (simp add: os_ok_def)
  have R: "wp (process_readRequest (SslRequestExecutor_readFd0 os) vup ET_sslFile ET_sslProxy a) (\<lambda>_ s'. \<exists>d'. at us a d' s') s"
    by (rule process_readRequest_at [OF read_ok_ssl [OF io] _ _ s(1,3)]) (simp_all add: up)
  have H: "wp (process_handshake os a) (\<lambda>_ s'. \<exists>d'. at us a d' s') s"
    unfolding process_handshake_def wp_simps
    by (rule wp_mono [OF handleHandshake_at [OF s]], elim exE conjE)
      (intro conjI impI allI exI | rule loop_rules | assumption | (auto; fail))+
  show ?thesis
    unfolding SslRequestExecutor_process_def SslRequestExecutor_process_readRequest_def wp_simps
    by (rule wp_exec [OF s(1)]) (use s(1) in \<open>auto intro: R H\<close>)
qed

end
