(* ===== verification/ServerExecutor.thy ===== *)
theory ServerExecutor
  imports Executor NetworkUtils
begin

text \<open>
  \<open>src/executors/ServerExecutor.cpp\<close>, \<open>SslServerExecutor.cpp\<close> and \<open>NewFdExecutor.cpp\<close>: the executors
  that never time out. The first two listen on a port and hand every accepted connection to
  \<open>PollLoopBase::createRequestExecutor\<close>; the third waits on the event descriptor by which other
  threads announce connections. The virtual functions of the loop are arguments.
\<close>

section \<open>Listening\<close>

definition ServerExecutor_up :: "'w os \<Rightarrow> nat \<Rightarrow> ('w poll_loop, int) state" where
  "ServerExecutor_up os a = do {
     upd a (\<lambda>d. d\<lparr>ed_removeOnTimeout := False\<rparr>);
     set_state a ES_ok;
     d \<leftarrow> exec a;
     fd0 \<leftarrow> socketListen os (ed_port d);
     upd a (\<lambda>d. d\<lparr>ed_fd0 := fd0\<rparr>);
     if fd0 < 0 then State_Monad.return (-1)
     else do {
       rc \<leftarrow> addPollFd os a fd0 EPOLLIN;
       if rc \<noteq> 0 then State_Monad.return (-1) else State_Monad.return 0
     }
   }"

definition ServerExecutor_process :: "'w os \<Rightarrow> (int \<Rightarrow> executor_type \<Rightarrow> ('w poll_loop, int) state)
    \<Rightarrow> nat \<Rightarrow> int \<Rightarrow> 32 word \<Rightarrow> ('w poll_loop, process_result) state" where
  "ServerExecutor_process os createRequestExecutor a fd events = do {
     d \<leftarrow> exec a;
     if fd \<noteq> ed_fd0 d then State_Monad.return PRES_ok
     else do {
       clientSockFd \<leftarrow> sys (os_accept4 os (ed_fd0 d));
       if clientSockFd = -1 then State_Monad.return PRES_shutdown
       else do {
         createRequestExecutor clientSockFd ET_request;
         State_Monad.return PRES_ok
       }
     }
   }"

definition SslServerExecutor_up :: "'w os \<Rightarrow> nat \<Rightarrow> ('w poll_loop, int) state" where
  "SslServerExecutor_up os a = do {
     upd a (\<lambda>d. d\<lparr>ed_removeOnTimeout := False\<rparr>);
     set_state a ES_ok;
     d \<leftarrow> exec a;
     fd0 \<leftarrow> socketListen os (ed_port d);
     upd a (\<lambda>d. d\<lparr>ed_fd0 := fd0\<rparr>);
     if fd0 < 0 then State_Monad.return (-1)
     else do {
       rc \<leftarrow> addPollFd os a fd0 EPOLLIN;
       if rc \<noteq> 0 then State_Monad.return (-1) else State_Monad.return 0
     }
   }"

definition SslServerExecutor_process :: "'w os \<Rightarrow> (int \<Rightarrow> executor_type \<Rightarrow> ('w poll_loop, int) state)
    \<Rightarrow> nat \<Rightarrow> int \<Rightarrow> 32 word \<Rightarrow> ('w poll_loop, process_result) state" where
  "SslServerExecutor_process os createRequestExecutor a fd events = do {
     d \<leftarrow> exec a;
     if fd \<noteq> ed_fd0 d then State_Monad.return PRES_ok
     else do {
       clientSockFd \<leftarrow> sys (os_accept4 os (ed_fd0 d));
       if clientSockFd = -1 then State_Monad.return PRES_shutdown
       else do {
         createRequestExecutor clientSockFd ET_requestSsl;
         State_Monad.return PRES_ok
       }
     }
   }"

section \<open>New connections from other threads\<close>

definition NewFdExecutor_up :: "nat \<Rightarrow> ('w poll_loop, int) state" where
  "NewFdExecutor_up a = do {
     upd a (\<lambda>d. d\<lparr>ed_removeOnTimeout := False\<rparr>);
     set_state a ES_ok;
     State_Monad.return 0
   }"

text \<open>\<open>checkNewFd\<close> is the loop's function, \<open>None\<close> if it does not return.\<close>

definition NewFdExecutor_process :: "'w os \<Rightarrow> ('w poll_loop, int option) state \<Rightarrow> nat \<Rightarrow> int \<Rightarrow> 32 word
    \<Rightarrow> ('w poll_loop, process_result option) state" where
  "NewFdExecutor_process os checkNewFd a fd events = do {
     rc \<leftarrow> sys (os_eventfd_read os fd);
     if rc \<noteq> 0 then State_Monad.return (Some PRES_shutdown)
     else do {
       r \<leftarrow> checkNewFd;
       State_Monad.return (case r of None \<Rightarrow> None | Some _ \<Rightarrow> Some PRES_ok)
     }
   }"

section \<open>The loop's data\<close>

text \<open>A descriptor 0 may be replaced while nothing is registered.\<close>

lemma wp_upd_fd0:
  "at us a d s \<Longrightarrow> ed_pollData0 d = None \<Longrightarrow> ed_pollData1 d = None \<Longrightarrow>
     (\<And>s'. at us a (d\<lparr>ed_fd0 := fd\<rparr>) s' \<Longrightarrow> Q () s') \<Longrightarrow> wp (upd a (\<lambda>d. d\<lparr>ed_fd0 := fd\<rparr>)) Q s"
  by (rule wp_upd, assumption; use at_fields in \<open>fastforce simp: keeps_links_def exec_fields_ok_def\<close>)

lemma Ssl_server_server:
  "SslServerExecutor_up os = ServerExecutor_up os"
  by (simp add: SslServerExecutor_up_def ServerExecutor_up_def fun_eq_iff)

lemma ServerExecutor_up_at:
  assumes "at us a d s" "ed_pExecutor d \<noteq> None" "ed_pollData0 d = None" "ed_pollData1 d = None"
  shows "wp (ServerExecutor_up os a) (\<lambda>r s'. \<exists>d'. at us a d' s' \<and> \<not> ed_removeOnTimeout d'
     \<and> (r = 0 \<longrightarrow> ed_pollData0 d' \<noteq> None \<and> 0 \<le> ed_fd0 d' \<and> ed_state d' = ES_ok)) s"
  using assms unfolding ServerExecutor_up_def wp_simps
  by - (intro conjI impI allI | rule wp_upd_fd0 loop_rules network_rules free_upds at_exI
    | assumption | (auto simp: linked_poll_def; fail))+

lemma NewFdExecutor_up_at:
  assumes "at us a d s" "ed_pExecutor d \<noteq> None"
  shows "wp (NewFdExecutor_up a) (\<lambda>r s'. r = 0 \<and> at us a (d\<lparr>ed_removeOnTimeout := False, ed_state := ES_ok\<rparr>) s') s"
  using assms unfolding NewFdExecutor_up_def wp_simps
  by - (intro conjI impI allI | rule loop_rules free_upds | assumption | (auto; fail))+

text \<open>Whatever creates executors only adds to those in use.\<close>

definition creates_safe :: "(int \<Rightarrow> executor_type \<Rightarrow> ('w poll_loop, int) state) \<Rightarrow> bool" where
  "creates_safe create \<longleftrightarrow> (\<forall>fd t us s. loop_rep us s \<longrightarrow> wp (create fd t) (\<lambda>_ s'. \<exists>bs. loop_rep (bs @ us) s') s)"

lemma creates_in_loop:
  assumes "creates_safe create" "at us a d s"
  shows "wp (create fd t) (\<lambda>_. in_loop us a) s"
proof -
  have "wp (create fd t) (\<lambda>_ s'. \<exists>bs. loop_rep (bs @ us) s') s"
    using assms by (auto simp: creates_safe_def at_def)
  then show ?thesis
    by (rule wp_mono) (use assms(2) in \<open>auto simp: in_loop_def at_def\<close>)
qed

lemma ServerExecutor_process_in:
  assumes c: "creates_safe create" and s: "at us a d s"
  shows "wp (ServerExecutor_process os create a fd ev) (\<lambda>_. in_loop us a) s"
    "wp (SslServerExecutor_process os create a fd ev) (\<lambda>_. in_loop us a) s"
  unfolding ServerExecutor_process_def SslServerExecutor_process_def wp_simps
  by (rule wp_exec [OF s], intro conjI impI, rule in_loopI [OF s], rule wp_sys_at [OF s],
      intro conjI impI, erule in_loopI, rule creates_in_loop [OF c], assumption)+

end
