(* ===== verification/PollLoop.thy ===== *)
theory PollLoop
  imports SslFileExecutor SslProxyExecutor ProxyExecutorSplice SslRequestExecutor ServerExecutor
begin

text \<open>
  \<open>src/PollLoop.cpp\<close>: the event loop of one thread. It dispatches on \<open>pExecutor\<close>, creates and
  removes executors, times them out and runs until it is stopped. What its data rest on
  (\<open>addPollFd\<close> and the other operations the executors call) is in \<open>PollLoopBase\<close>.

  A call that never returns has the result \<open>None\<close>. \<open>logStats\<close> only writes text and is left out.
\<close>

section \<open>Virtual calls\<close>

fun executor_up :: "'w os \<Rightarrow> executor \<Rightarrow> nat \<Rightarrow> ('w poll_loop, int) state" where
  "executor_up os X_newFd a = NewFdExecutor_up a"
| "executor_up os X_server a = ServerExecutor_up os a"
| "executor_up os X_request a = RequestExecutor_up os a"
| "executor_up os X_file a = FileExecutor_up os a"
| "executor_up os X_proxy a = ProxyExecutorSplice_up os a"
| "executor_up os X_sslServer a = SslServerExecutor_up os a"
| "executor_up os X_sslRequest a = SslRequestExecutor_up os a"
| "executor_up os X_sslFile a = FileExecutor_up os a"
| "executor_up os X_sslProxy a = ProxyExecutorReadWrite_up os a"

section \<open>Executors for new connections\<close>

text \<open>
  \<open>createExecutorData\<close> never gives a null pointer (\<open>wp_createExecutorData\<close>); \<open>listenPort\<close> and
  \<open>createEventFd\<close> do not test for one, and the branch \<open>None\<close> stands for that dereference.
\<close>

definition createRequestExecutorInternal :: "'w os \<Rightarrow> int \<Rightarrow> executor_type \<Rightarrow> ('w poll_loop, int) state" where
  "createRequestExecutorInternal os fd execType = do {
     data \<leftarrow> createExecutorData os;
     case data of
       None \<Rightarrow> State_Monad.return (-1)
     | Some a \<Rightarrow> do {
         upd a (\<lambda>d. d\<lparr>ed_pExecutor := Some (getExecutor execType)\<rparr>);
         upd a (\<lambda>d. d\<lparr>ed_fd0 := fd\<rparr>);
         rc \<leftarrow> executor_up os (getExecutor execType) a;
         if rc \<noteq> 0 then do { removeExecutorData os a; State_Monad.return (-1) }
         else State_Monad.return 0
       }
   }"

definition createRequestExecutor :: "'w os \<Rightarrow> int \<Rightarrow> executor_type \<Rightarrow> ('w poll_loop, int) state" where
  "createRequestExecutor os fd execType = do {
     params \<leftarrow> gets pl_parameters;
     if sp_threadCount params = 1 then createRequestExecutorInternal os fd execType
     else sys (os_srv_createRequestExecutor os fd execType)
   }"

definition listenPort :: "'w os \<Rightarrow> int \<Rightarrow> executor_type \<Rightarrow> ('w poll_loop, int) state" where
  "listenPort os port execType = do {
     data \<leftarrow> createExecutorData os;
     case data of
       None \<Rightarrow> State_Monad.return (-1)
     | Some a \<Rightarrow> do {
         upd a (\<lambda>d. d\<lparr>ed_pExecutor := Some (getExecutor execType)\<rparr>);
         upd a (\<lambda>d. d\<lparr>ed_port := port\<rparr>);
         rc \<leftarrow> executor_up os (getExecutor execType) a;
         if rc \<noteq> 0 then do { removeExecutorData os a; State_Monad.return (-1) }
         else State_Monad.return 0
       }
   }"

text \<open>One turn of the loop in \<open>checkNewFd\<close>: \<open>False\<close> when the queue is empty.\<close>

definition checkNewFd_body :: "'w os \<Rightarrow> ('w poll_loop, bool) state" where
  "checkNewFd_body os = do {
     item \<leftarrow> sys (os_queue_pop os);
     case item of
       None \<Rightarrow> State_Monad.return False
     | Some (fd, execType) \<Rightarrow> do {
         rc \<leftarrow> createRequestExecutorInternal os fd execType;
         (if rc \<noteq> 0 then do { sys (os_close os fd); State_Monad.return True }
          else State_Monad.return True)
       }
   }"

partial_function (option) checkNewFd_loop :: "'w os \<Rightarrow> 'w poll_loop \<Rightarrow> 'w poll_loop option" where
  "checkNewFd_loop os s =
     (case run_state (checkNewFd_body os) s of (again, s') \<Rightarrow>
        if again then checkNewFd_loop os s' else Some s')"

definition checkNewFd :: "'w os \<Rightarrow> ('w poll_loop, int option) state" where
  "checkNewFd os = State (\<lambda>s. case checkNewFd_loop os s of None \<Rightarrow> (None, s) | Some s' \<Rightarrow> (Some 0, s'))"

text \<open>Called by other threads.\<close>

definition enqueueClientFd :: "'w os \<Rightarrow> int \<Rightarrow> executor_type \<Rightarrow> ('w poll_loop, int) state" where
  "enqueueClientFd os fd execType = do {
     pushed \<leftarrow> sys (os_queue_push os (fd, execType));
     if \<not> pushed then State_Monad.return (-1)
     else do {
       ef \<leftarrow> gets pl_eventFd;
       sys (os_eventfd_write os ef);
       State_Monad.return 0
     }
   }"

definition PollLoop_stop :: "'w os \<Rightarrow> ('w poll_loop, unit) state" where
  "PollLoop_stop os = do {
     sys (os_runFlag_store os False);
     ef \<leftarrow> gets pl_eventFd;
     sys (os_eventfd_write os ef);
     State_Monad.return ()
   }"

definition numberOfPollFds :: "'w poll_loop \<Rightarrow> int" where
  "numberOfPollFds s = pl_numOfPollFds s"

section \<open>Dispatch\<close>

fun executor_process :: "'w os \<Rightarrow> executor \<Rightarrow> nat \<Rightarrow> int \<Rightarrow> 32 word
    \<Rightarrow> ('w poll_loop, process_result option) state" where
  "executor_process os X_newFd a fd ev = NewFdExecutor_process os (checkNewFd os) a fd ev"
| "executor_process os X_request a fd ev = RequestExecutor_process os (executor_up os) a fd ev"
| "executor_process os X_sslRequest a fd ev = SslRequestExecutor_process os (executor_up os) a fd ev"
| "executor_process os X_server a fd ev =
     do { r \<leftarrow> ServerExecutor_process os (createRequestExecutor os) a fd ev; State_Monad.return (Some r) }"
| "executor_process os X_sslServer a fd ev =
     do { r \<leftarrow> SslServerExecutor_process os (createRequestExecutor os) a fd ev; State_Monad.return (Some r) }"
| "executor_process os X_file a fd ev =
     do { r \<leftarrow> FileExecutor_process os a fd ev; State_Monad.return (Some r) }"
| "executor_process os X_proxy a fd ev =
     do { r \<leftarrow> ProxyExecutorSplice_process os a fd ev; State_Monad.return (Some r) }"
| "executor_process os X_sslFile a fd ev =
     do { r \<leftarrow> SslFileExecutor_process os a fd ev; State_Monad.return (Some r) }"
| "executor_process os X_sslProxy a fd ev =
     do { r \<leftarrow> SslProxyExecutor_process os a fd ev; State_Monad.return (Some r) }"

section \<open>Destruction\<close>

text \<open>
  \<open>delete\<close> on a block runs the destructor of its items, last to first, which is \<open>down()\<close>.
\<close>

definition close_member :: "'w os \<Rightarrow> ('w poll_loop \<Rightarrow> int) \<Rightarrow> ('w poll_loop, int) state" where
  "close_member os member = do {
     fd \<leftarrow> gets member;
     sys (close_positive os fd)
   }"

definition destroy_items :: "'w os \<Rightarrow> ('w poll_loop, unit) state" where
  "destroy_items os = do {
     blocks \<leftarrow> gets (\<lambda>s. bs_blocks (pl_execDatas s));
     for_each (\<lambda>a. do { d \<leftarrow> exec a; d' \<leftarrow> sys (ed_down os d); upd a (\<lambda>_. d') })
       (concat (map (\<lambda>base. rev [base..<base + BLOCK_SIZE]) blocks))
   }"

definition destroy :: "'w os \<Rightarrow> ('w poll_loop, unit) state" where
  "destroy os = do {
     destroy_items os;
     modify (\<lambda>s. s\<lparr>pl_execDatas := bs_destroy (pl_execDatas s)\<rparr>);
     modify (\<lambda>s. s\<lparr>pl_pollDatas := bs_destroy (pl_pollDatas s)\<rparr>);
     ep \<leftarrow> close_member os pl_epollFd;
     modify (\<lambda>s. s\<lparr>pl_epollFd := ep\<rparr>);
     ef \<leftarrow> close_member os pl_eventFd;
     modify (\<lambda>s. s\<lparr>pl_eventFd := ef\<rparr>)
   }"

section \<open>Initialisation\<close>

definition createEventFd :: "'w os \<Rightarrow> ('w poll_loop, int) state" where
  "createEventFd os = do {
     ef \<leftarrow> sys (os_eventfd os);
     modify (\<lambda>s. s\<lparr>pl_eventFd := ef\<rparr>);
     if ef < 0 then do { destroy os; State_Monad.return (-1) }
     else do {
       data \<leftarrow> createExecutorData os;
       case data of
         None \<Rightarrow> State_Monad.return (-1)
       | Some a \<Rightarrow> do {
           upd a (\<lambda>d. d\<lparr>ed_fd0 := ef\<rparr>);
           upd a (\<lambda>d. d\<lparr>ed_pExecutor := Some X_newFd\<rparr>);
           d \<leftarrow> exec a;
           rc \<leftarrow> addPollFd os a (ed_fd0 d) EPOLLIN;
           if rc \<noteq> 0 then do { removeExecutorData os a; State_Monad.return (-1) }
           else do { executor_up os X_newFd a; State_Monad.return 0 }
         }
     }
   }"

text \<open>\<open>snprintf\<close> into \<open>MAX_FILE_NAME\<close> bytes stores one character less.\<close>

definition root_name :: "server_parameters \<Rightarrow> string" where
  "root_name params = take (MAX_FILE_NAME - 1) (cstr (sp_rootFolder params) @ ''/'')"

definition initDataStructs :: "server_parameters \<Rightarrow> ('w poll_loop, int) state" where
  "initDataStructs params = State_Monad.return 0"

definition PollLoop_init :: "'w os \<Rightarrow> server_parameters \<Rightarrow> ('w poll_loop, int) state" where
  "PollLoop_init os params = do {
     modify (\<lambda>s. s\<lparr>pl_parameters := params\<rparr>);
     modify (\<lambda>s. s\<lparr>pl_numOfPollFds := 0\<rparr>);
     modify (\<lambda>s. s\<lparr>pl_fileNameBuffer := root_name params\<rparr>);
     modify (\<lambda>s. s\<lparr>pl_rootFolderLength := length (pl_fileNameBuffer s)\<rparr>);
     rc \<leftarrow> initDataStructs params;
     if rc \<noteq> 0 then do { destroy os; State_Monad.return (-1) }
     else do {
       ep \<leftarrow> sys (os_epoll_create1 os);
       modify (\<lambda>s. s\<lparr>pl_epollFd := ep\<rparr>);
       if ep = -1 then do { destroy os; State_Monad.return (-1) }
       else do {
         rc \<leftarrow> createEventFd os;
         if rc \<noteq> 0 then do { destroy os; State_Monad.return (-1) } else State_Monad.return 0
       }
     }
   }"

lemma initDataStructs_succeeds: "do { rc \<leftarrow> initDataStructs params; if rc \<noteq> 0 then m else n } = n"
  by (simp add: initDataStructs_def)

section \<open>Time-outs\<close>

definition timed_out :: "int \<Rightarrow> int \<Rightarrow> executor_data \<Rightarrow> bool" where
  "timed_out executorTimeoutMillis curMillis d \<longleftrightarrow> ed_removeOnTimeout d
     \<and> (curMillis - ed_lastProcessTime d > executorTimeoutMillis
        \<or> curMillis - ed_createTime d > MAX_TIME_TO_LIVE_MILLIS)"

definition checkTimeout :: "'w os \<Rightarrow> int \<Rightarrow> ('w poll_loop, unit option) state" where
  "checkTimeout os curMillis = do {
     items \<leftarrow> gets (\<lambda>s. pool_walk bs_next_item (pl_execDatas s) (bs_head (pl_execDatas s)));
     case items of
       None \<Rightarrow> State_Monad.return None
     | Some items \<Rightarrow> do {
         removeExecDatas \<leftarrow> gets (\<lambda>s. [a \<leftarrow> items.
           timed_out (sp_executorTimeoutMillis (pl_parameters s)) curMillis (pl_execs s a)]);
         for_each (removeExecutorData os) removeExecDatas;
         modify (\<lambda>s. s\<lparr>pl_lastCheckTimeoutMillis := curMillis\<rparr>);
         State_Monad.return (Some ())
       }
   }"

section \<open>The loop\<close>

definition MAX_EPOLL_EVENTS :: nat where "MAX_EPOLL_EVENTS = 1000"

text \<open>
  What follows a handler that has returned \<open>r\<close>: the executor is removed, or stays with the time of
  the event. \<open>Some False\<close> is the result after a shutdown.
\<close>

definition finish_event :: "'w os \<Rightarrow> int \<Rightarrow> nat \<Rightarrow> process_result \<Rightarrow> ('w poll_loop, bool option) state" where
  "finish_event os curMillis a r =
     (if r = PRES_removeExecutorOk
      then do { removeExecutorData os a; State_Monad.return (Some True) }
      else if r = PRES_removeExecutorError
      then do { removeExecutorData os a; State_Monad.return (Some True) }
      else if r = PRES_shutdown then do { destroy os; State_Monad.return (Some False) }
      else do {
        d \<leftarrow> exec a;
        if ed_retryCounter d > MAX_RETRY_COUNTER
        then do { removeExecutorData os a; State_Monad.return (Some True) }
        else do {
          upd a (\<lambda>d. d\<lparr>ed_lastProcessTime := curMillis\<rparr>);
          State_Monad.return (Some True)
        }
      })"

text \<open>
  One event. The result is \<open>None\<close> if the handler does not return. The pointer of an executor that
  is not invalid is set (\<open>exec_fields_ok\<close>); the branch \<open>None\<close> of its case is the call through a null
  pointer.
\<close>

definition process_event :: "'w os \<Rightarrow> int \<Rightarrow> 32 word \<times> nat \<Rightarrow> ('w poll_loop, bool option) state" where
  "process_event os curMillis event =
     (case event of (events, p) \<Rightarrow> do {
        pollData \<leftarrow> gets (\<lambda>s. pl_polls s p);
        case pd_execData pollData of
          None \<Rightarrow> State_Monad.return (Some True)
        | Some a \<Rightarrow> do {
            d \<leftarrow> exec a;
            if ed_state d \<noteq> ES_invalid then
              if (has events EPOLLRDHUP \<or> has events EPOLLERR) \<and> pd_fd pollData = ed_fd0 d
              then do { removeExecutorData os a; State_Monad.return (Some True) }
              else
                (case ed_pExecutor d of
                   None \<Rightarrow> State_Monad.return None
                 | Some x \<Rightarrow> do {
                     result \<leftarrow> executor_process os x a (pd_fd pollData) events;
                     case result of
                       None \<Rightarrow> State_Monad.return None
                     | Some r \<Rightarrow> finish_event os curMillis a r
                   })
            else State_Monad.return (Some True)
          }
      })"

fun process_events :: "'w os \<Rightarrow> int \<Rightarrow> (32 word \<times> nat) list \<Rightarrow> ('w poll_loop, bool option) state" where
  "process_events os curMillis [] = State_Monad.return (Some True)"
| "process_events os curMillis (e # es) = do {
     r \<leftarrow> process_event os curMillis e;
     if r = Some True then process_events os curMillis es else State_Monad.return r
   }"

datatype turn = T_continue | T_break | T_return int | T_hang

definition run_body :: "'w os \<Rightarrow> ('w poll_loop, turn) state" where
  "run_body os = do {
     ep \<leftarrow> gets pl_epollFd;
     params \<leftarrow> gets pl_parameters;
     r \<leftarrow> sys (os_epoll_wait os ep MAX_EPOLL_EVENTS (sp_executorTimeoutMillis params));
     (case r of (nEvents, events) \<Rightarrow>
       if nEvents = -1 then do {
         e \<leftarrow> errno os;
         if e = EINTR then State_Monad.return T_continue
         else do { destroy os; State_Monad.return (T_return (-1)) }
       }
       else do {
         runFlag \<leftarrow> sys (os_runFlag_load os);
         if \<not> runFlag then State_Monad.return T_break
         else do {
           curMillis \<leftarrow> sys (os_getMilliseconds os);
           handled \<leftarrow> process_events os curMillis (take (nat nEvents) events);
           case handled of
             None \<Rightarrow> State_Monad.return T_hang
           | Some ok \<Rightarrow>
               if \<not> ok then State_Monad.return (T_return (-1))
               else do {
                 last \<leftarrow> gets pl_lastCheckTimeoutMillis;
                 if curMillis - last \<ge> sp_executorTimeoutMillis params then do {
                   checked \<leftarrow> checkTimeout os curMillis;
                   State_Monad.return (if checked = None then T_hang else T_continue)
                 }
                 else State_Monad.return T_continue
               }
         }
       })
   }"

partial_function (option) run_loop :: "'w os \<Rightarrow> 'w poll_loop \<Rightarrow> (int \<times> 'w poll_loop) option" where
  "run_loop os s =
     (if pl_epollFd s > 0
      then case run_state (sys (os_runFlag_load os)) s of (runFlag, s1) \<Rightarrow>
        if runFlag
        then case run_state (run_body os) s1 of (t, s2) \<Rightarrow>
          (case t of
             T_continue \<Rightarrow> run_loop os s2
           | T_break \<Rightarrow> Some (0, snd (run_state (destroy os) s2))
           | T_return rc \<Rightarrow> Some (rc, s2)
           | T_hang \<Rightarrow> None)
        else Some (0, snd (run_state (destroy os) s1))
      else Some (0, snd (run_state (destroy os) s)))"

definition run :: "'w os \<Rightarrow> 'w poll_loop \<Rightarrow> (int \<times> 'w poll_loop) option" where
  "run os s = run_loop os (snd (run_state (sys (os_runFlag_store os True)) s))"

end
