(* ===== verification/PollLoopDispatch.thy ===== *)
theory PollLoopDispatch
  imports PollLoop
begin

text \<open>
  Every executor the loop dispatches to satisfies the contract \<open>executor\<close> of theory \<open>Executor\<close>: the
  interpretations that need the loop's own functions stand here, those of the file and proxy
  executors with their code. \<open>executor_process_in\<close> is what the event loop uses of them.
\<close>

section \<open>Every executor keeps the loop's data in order\<close>

text \<open>An executor object is started on data that name it and that nothing is registered for.\<close>

definition fresh_for :: "executor \<Rightarrow> executor_data \<Rightarrow> bool" where
  "fresh_for x d \<longleftrightarrow> ed_pExecutor d = Some x \<and> ed_pollData0 d = None \<and> ed_pollData1 d = None"

lemma executor_up_at:
  assumes s: "at us a d s" and f: "ed_pExecutor d = Some x" "ed_pollData1 d = None"
    and z: "x \<in> {X_server, X_sslServer} \<Longrightarrow> ed_pollData0 d = None"
  shows "wp (executor_up os x a) (\<lambda>_ s'. \<exists>d'. at us a d' s') s"
proof (cases x)
  case X_newFd
  then show ?thesis by (simp, intro wp_mono [OF NewFdExecutor_up_at [OF s]]) (use f in auto)
next
  case X_server
  then show ?thesis by (simp, intro wp_mono [OF ServerExecutor_up_at [OF s]]) (use f z in auto)
next
  case X_request
  then show ?thesis by (simp, intro wp_mono [OF RequestExecutor_up_at [OF s]]) (use f in auto)
next
  case X_file
  then show ?thesis by (simp, intro wp_mono [OF FileExecutor_up_at [OF s]]) (use f in auto)
next
  case X_proxy
  then show ?thesis
    by (simp add: Splice_up_ReadWrite_up, intro wp_mono [OF proxy_up_at [OF s]]) (use f in \<open>auto simp: is_proxy_def\<close>)
next
  case X_sslServer
  then show ?thesis
    by (simp add: Ssl_server_server, intro wp_mono [OF ServerExecutor_up_at [OF s]]) (use f z in auto)
next
  case X_sslRequest
  then show ?thesis by (simp, intro wp_mono [OF SslRequestExecutor_up_at [OF s]]) (use f in auto)
next
  case X_sslFile
  then show ?thesis by (simp, intro wp_mono [OF FileExecutor_up_at [OF s]]) (use f in auto)
next
  case X_sslProxy
  then show ?thesis
    by (simp, intro wp_mono [OF proxy_up_at [OF s]]) (use f in \<open>auto simp: is_proxy_def\<close>)
qed

lemma up_safe_executor_up:
  "x \<notin> {X_server, X_sslServer} \<Longrightarrow> up_safe (executor_up os) x"
  unfolding up_safe_def by (intro allI impI executor_up_at) auto

text \<open>A new executor is added to those in use, or none is.\<close>

lemma wp_start_executor:
  fixes s :: "'w poll_loop"
  assumes del: "epoll_del_ok os" and s: "at (b # us) b d s" and f: "fresh_for x d"
    and ok: "\<And>s'. loop_rep (b # us) s' \<Longrightarrow> Q 0 s'" and fail: "\<And>s'. loop_rep us s' \<Longrightarrow> Q (-1) s'"
  shows "wp (do { rc \<leftarrow> executor_up os x b;
      if rc \<noteq> 0 then do { removeExecutorData os b; State_Monad.return (-1) } else State_Monad.return 0 }) Q s"
proof -
  have u: "wp (executor_up os x b) (\<lambda>_ s'. \<exists>d'. at (b # us) b d' s') s"
    by (rule executor_up_at [OF s]) (use f in \<open>auto simp: fresh_for_def\<close>)
  show ?thesis
    unfolding wp_simps
  proof (rule wp_mono [OF u], elim exE, intro conjI impI)
    fix r d' and s1 :: "'w poll_loop"
    assume s1: "at (b # us) b d' s1"
    show "wp (removeExecutorData os b) (\<lambda>_. Q (- 1)) s1"
      by (rule wp_removeExecutorData [OF s1 del]) (simp add: fail)
    show "Q 0 s1" using s1 by (intro ok) (auto simp: at_def)
  qed
qed

lemma createRequestExecutorInternal_rep:
  assumes del: "epoll_del_ok os" and s: "loop_rep us s"
    and Q: "\<And>r bs s'. loop_rep (bs @ us) s' \<Longrightarrow> (r = 0 \<longleftrightarrow> bs \<noteq> []) \<Longrightarrow> length bs \<le> 1 \<Longrightarrow> Q r s'"
  shows "wp (createRequestExecutorInternal os fd t) Q s"
proof -
  have ok: "loop_rep (b # us) s' \<Longrightarrow> Q 0 s'" and fail: "loop_rep us s' \<Longrightarrow> Q (-1) s'" for b s'
    using Q [of "[b]" s' 0] Q [of "[]" s' "-1"] by simp_all
  show ?thesis
    unfolding createRequestExecutorInternal_def wp_bind
    apply (rule wp_createExecutorData [OF s])
    apply (simp only: option.case wp_bind)
    apply (rule wp_upd_executor, assumption, simp add: ed_dead_def)
    apply (rule wp_upd_fd0, assumption, simp add: ed_dead_def, simp add: ed_dead_def)
    apply (rule wp_start_executor [OF del, unfolded wp_bind], assumption)
    by (auto simp: fresh_for_def ed_dead_def intro: ok fail)
qed

lemma creates_safe_loop: "epoll_del_ok os \<Longrightarrow> creates_safe (createRequestExecutor os)"
  unfolding creates_safe_def createRequestExecutor_def wp_simps
  by (intro allI impI conjI createRequestExecutorInternal_rep wp_sys) (auto intro: exI [of _ "[]"])

lemma listenPort_rep:
  assumes del: "epoll_del_ok os" and s: "loop_rep us s"
    and Q: "\<And>r bs s'. loop_rep (bs @ us) s' \<Longrightarrow> (r = 0 \<longleftrightarrow> bs \<noteq> []) \<Longrightarrow> Q r s'"
  shows "wp (listenPort os port t) Q s"
proof -
  have ok: "loop_rep (b # us) s' \<Longrightarrow> Q 0 s'" and fail: "loop_rep us s' \<Longrightarrow> Q (-1) s'" for b s'
    using Q [of "[b]" s' 0] Q [of "[]" s' "-1"] by simp_all
  show ?thesis
    unfolding listenPort_def wp_bind
    apply (rule wp_createExecutorData [OF s])
    apply (simp only: option.case wp_bind)
    apply (rule wp_upd_executor, assumption, simp add: ed_dead_def)
    apply (rule wp_upd_free, assumption, rule free_upds)
    apply (rule wp_start_executor [OF del, unfolded wp_bind], assumption)
    by (auto simp: fresh_for_def ed_dead_def intro: ok fail)
qed

text \<open>\<open>checkNewFd\<close>, if it returns.\<close>

lemma checkNewFd_body_rep:
  "epoll_del_ok os \<Longrightarrow> loop_rep us s \<Longrightarrow> wp (checkNewFd_body os) (\<lambda>_ s'. \<exists>bs. loop_rep (bs @ us) s') s"
  unfolding checkNewFd_body_def wp_simps
  apply (rule wp_sys)
  apply (intro conjI impI allI)
  subgoal by (auto intro: exI [of _ "[]"])
  subgoal
    apply (rule createRequestExecutorInternal_rep, assumption, simp)
    subgoal for r bs s' by (intro conjI impI wp_sys exI [of _ bs]) simp_all
    done
  done

lemma checkNewFd_loop_rep:
  assumes "checkNewFd_loop os s = Some s'" "epoll_del_ok os" "loop_rep us s"
  shows "\<exists>bs. loop_rep (bs @ us) s'"
proof -
  have "\<forall>us. epoll_del_ok os \<longrightarrow> loop_rep us s \<longrightarrow> (\<exists>bs. loop_rep (bs @ us) s')"
  proof (rule checkNewFd_loop.raw_induct [OF _ assms(1)], intro allI impI)
    fix loop and os :: "'a os" and s s' us
    assume IH: "\<And>os s s'. loop os s = Some s' \<Longrightarrow> \<forall>us. epoll_del_ok os \<longrightarrow> loop_rep us s \<longrightarrow> (\<exists>bs. loop_rep (bs @ us) s')"
      and eq: "(case run_state (checkNewFd_body os) s of (again, s') \<Rightarrow> if again then loop os s' else Some s') = Some s'"
      and del: "epoll_del_ok os" and s: "loop_rep us s"
    obtain again s1 where b: "run_state (checkNewFd_body os) s = (again, s1)" by fastforce
    obtain bs where bs: "loop_rep (bs @ us) s1"
      using wp_run [OF checkNewFd_body_rep [OF del s] b] by blast
    show "\<exists>bs. loop_rep (bs @ us) s'"
    proof (cases again)
      case True
      then have "loop os s1 = Some s'" using eq b by simp
      from IH [OF this] del bs obtain cs where "loop_rep (cs @ bs @ us) s'" by blast
      then show ?thesis by (metis append.assoc)
    qed (use eq b bs in auto)
  qed
  then show ?thesis using assms by blast
qed

lemma checkNewFd_rep:
  assumes "epoll_del_ok os" "loop_rep us s"
  shows "wp (checkNewFd os) (\<lambda>_ s'. \<exists>bs. loop_rep (bs @ us) s') s"
  using checkNewFd_loop_rep [OF _ assms] assms(2)
  by (auto simp: checkNewFd_def wp_def split: option.split intro: exI [of _ "[]"])

section \<open>Dispatch\<close>

interpretation request_exec: executor os "RequestExecutor_up os" "RequestExecutor_process os (executor_up os)"
    "fresh_for X_request" "\<lambda>d. ed_pExecutor d = Some X_request"
  for os
proof (unfold_locales, goal_cases)
  case (1 us a d s)
  then show ?case by (intro wp_mono [OF RequestExecutor_up_at]) (auto simp: fresh_for_def)
next
  case (2 us a d s fd ev)
  have p1: "ed_pollData1 d = None"
    using at_fields [OF 2(2)] 2(3) by (auto simp: exec_fields_ok_def is_proxy_def)
  have "wp (process_readRequest (Executor_readFd0 os) (executor_up os) ET_file ET_proxy a) (\<lambda>_ s'. \<exists>d'. at us a d' s') s"
    using 2 p1 by (intro process_readRequest_at read_ok_Executor up_safe_executor_up) (auto simp: os_ok_def)
  then show ?case
    unfolding RequestExecutor_process_def wp_simps
    by (intro wp_exec [OF 2(2)] conjI impI) (auto elim!: wp_mono intro: in_loopI in_loopI [OF 2(2)])
qed

interpretation ssl_request_exec: executor os "SslRequestExecutor_up os" "SslRequestExecutor_process os (executor_up os)"
    "fresh_for X_sslRequest" "\<lambda>d. ed_pExecutor d = Some X_sslRequest"
  for os
proof (unfold_locales, goal_cases)
  case (1 us a d s)
  then show ?case by (intro SslRequestExecutor_up_at) (auto simp: fresh_for_def)
next
  case (2 us a d s fd ev)
  have p1: "ed_pollData1 d = None"
    using at_fields [OF 2(2)] 2(3) by (auto simp: exec_fields_ok_def is_proxy_def)
  then show ?case
    using 2 by (intro wp_mono [OF SslRequestExecutor_process_at [OF 2(1) _ _ 2(2)]] up_safe_executor_up)
      (auto intro: in_loopI)
qed

interpretation server_exec: executor os "ServerExecutor_up os" "ServerExecutor_process os (createRequestExecutor os)"
    "fresh_for X_server" "\<lambda>d. ed_pExecutor d = Some X_server"
  for os
  by unfold_locales
    (auto simp: fresh_for_def os_ok_def intro: wp_mono [OF ServerExecutor_up_at] ServerExecutor_process_in creates_safe_loop)

interpretation ssl_server_exec: executor os "SslServerExecutor_up os" "SslServerExecutor_process os (createRequestExecutor os)"
    "fresh_for X_sslServer" "\<lambda>d. ed_pExecutor d = Some X_sslServer"
  for os
  by unfold_locales
    (auto simp: fresh_for_def os_ok_def Ssl_server_server
      intro: wp_mono [OF ServerExecutor_up_at] ServerExecutor_process_in creates_safe_loop)

interpretation new_fd_exec: executor os "NewFdExecutor_up" "NewFdExecutor_process os (checkNewFd os)"
    "\<lambda>d. ed_pExecutor d = Some X_newFd" "\<lambda>d. ed_pExecutor d = Some X_newFd"
  for os
proof (unfold_locales, goal_cases)
  case (1 us a d s)
  then show ?case by (intro wp_mono [OF NewFdExecutor_up_at]) auto
next
  case (2 us a d s fd ev)
  have "wp (checkNewFd os) (\<lambda>_. in_loop us a) t" if "at us a d t" for t
  proof (rule wp_mono [OF checkNewFd_rep])
    show "epoll_del_ok os" "loop_rep us t" using 2(1) that by (simp_all add: os_ok_def at_def)
  qed (use that in \<open>auto simp: in_loop_def at_def\<close>)
  then show ?case
    unfolding NewFdExecutor_process_def wp_simps
    by (intro wp_sys_at [OF 2(2)] conjI impI) (auto intro: in_loopI)
qed

text \<open>The dispatch, by the contract of each executor.\<close>

lemma executor_process_in:
  assumes os: "os_ok os" and s: "at us a d s" and x: "ed_pExecutor d = Some x"
  shows "wp (executor_process os x a fd ev) (\<lambda>_. in_loop us a) s"
proof (cases x)
  case X_newFd with assms show ?thesis by (simp add: new_fd_exec.process_in)
next
  case X_server with assms show ?thesis by (simp add: wp_simps server_exec.process_in)
next
  case X_request with assms show ?thesis by (simp add: request_exec.process_in)
next
  case X_file with assms show ?thesis by (simp add: wp_simps file_exec.process_in)
next
  case X_proxy with assms show ?thesis by (simp add: wp_simps proxy_exec.process_in)
next
  case X_sslServer with assms show ?thesis by (simp add: wp_simps ssl_server_exec.process_in)
next
  case X_sslRequest with assms show ?thesis by (simp add: ssl_request_exec.process_in)
next
  case X_sslFile with assms show ?thesis by (simp add: wp_simps ssl_file_exec.process_in)
next
  case X_sslProxy with assms show ?thesis by (simp add: wp_simps ssl_proxy_exec.process_in)
qed

end
