(* ===== verification/PollLoopFrame.thy ===== *)
theory PollLoopFrame
  imports PollLoop
begin

text \<open>
  What a handler cannot touch. \<open>exec_frame\<close> is the interface: any invariant with the stated
  independence is kept by every operation on one executor. It is interpreted for the data of all
  other executors and for the name of the file that is served next.
\<close>

section \<open>The frame of a handler\<close>

text \<open>
  An invariant that does not depend on the data of executor \<open>a\<close>, on the poll data, on the pools or
  on the world, and that survives the file name of a safe URL, is kept by everything the loop does
  for \<open>a\<close>.
\<close>

locale exec_frame =
  fixes P :: "'w poll_loop \<Rightarrow> bool" and a :: nat
  assumes P_world: "P s \<Longrightarrow> P (s\<lparr>pl_world := w\<rparr>)"
    and P_polls: "P s \<Longrightarrow> P (s\<lparr>pl_polls := polls\<rparr>)"
    and P_pools: "P s \<Longrightarrow> P (s\<lparr>pl_pollDatas := b\<rparr>)" "P s \<Longrightarrow> P (s\<lparr>pl_execDatas := b\<rparr>)"
    and P_count: "P s \<Longrightarrow> P (s\<lparr>pl_numOfPollFds := n\<rparr>)"
    and P_exec: "P s \<Longrightarrow> P (s\<lparr>pl_execs := (pl_execs s)(a := d)\<rparr>)"
    and P_name: "P s \<Longrightarrow> safe_url url \<Longrightarrow>
      P (s\<lparr>pl_fileNameBuffer := fst (file_of_url (pl_rootFolderLength s) (pl_fileNameBuffer s) url)\<rparr>)"
begin

lemma stable_ops:
  "stable P (sys f)" "stable P (errno os)" "stable P (exec a)" "stable P (upd a g)" "stable P (upd_poll p h)"
  "stable P allocate_poll" "stable P (free_poll p)" "stable P (free_exec p)" "stable P (count_poll n)"
  "stable P allocate_exec"
  by (auto simp: stable_def wp_poll_ops errno_def P_world P_polls P_pools P_count P_exec)

lemmas base = stable_intros stable_ops

lemma stable_poll_fd:
  "stable P (addPollFd os a fd ev)" "stable P (editPollFd os a fd ev)" "stable P (removePollFd os a fd)"
  unfolding addPollFd_def editPollFd_def removePollFd_def by (intro base)+

lemma stable_closeFd: "stable P (closeFd os a fd)"
  unfolding closeFd_def by (intro base stable_poll_fd)

lemma stable_removeExecutorData: "stable P (removeExecutorData os a)"
  unfolding removeExecutorData_def by (intro base stable_poll_fd)

lemma stable_buffer:
  "stable P (buf_startWrite a)" "stable P (buf_startRead a)" "stable P (buf_store a p bs)"
  "stable P (buf_endWrite a n)" "stable P (buf_endRead a n)" "stable P (buf_clear a)" "stable P (buf_init a n)"
  "stable P (buf_mem a p n)" "stable P (retry_inc a)" "stable P (retry_reset a)" "stable P (set_state a st)"
  unfolding buf_startWrite_def buf_startRead_def buf_store_def buf_endWrite_def buf_endRead_def buf_clear_def
    buf_init_def buf_mem_def retry_inc_def retry_reset_def set_state_def
  by (intro base)+

lemmas basic = base stable_poll_fd stable_closeFd stable_buffer

lemma stable_transfer:
  "stable P (Executor_readFd0 os a p n)" "stable P (Executor_writeFd0 os a bs)" "stable P (sslWriteFd0 os a bs)"
  "stable P (SslRequestExecutor_readFd0 os a p n)"
  unfolding Executor_readFd0_def Executor_writeFd0_def sslWriteFd0_def SslRequestExecutor_readFd0_def
  by (intro basic)+

lemma stable_network:
  "stable P (socketConnectNonBlock os address port)" "stable P (socketConnectUnixNonBlock os path)"
  "stable P (socketConnectNonBlockCheck os fd)" "stable P (socketListen os port)"
  unfolding socketConnectNonBlock_def socketConnectUnixNonBlock_def socketConnectNonBlockCheck_def
    socketListen_def
  by (intro basic)+

lemma stable_responses:
  "stable P (createOkResponse os a t)" "stable P (createResponse a c)"
  unfolding createOkResponse_def createResponse_def finish_response_def
  by (auto split: http_code.split intro!: basic)

lemma stable_up:
  "stable P (NewFdExecutor_up a)" "stable P (ServerExecutor_up os a)" "stable P (RequestExecutor_up os a)"
  "stable P (FileExecutor_up os a)" "stable P (ProxyExecutorReadWrite_up os a)"
  "stable P (SslRequestExecutor_up os a)"
  unfolding NewFdExecutor_up_def ServerExecutor_up_def RequestExecutor_up_def FileExecutor_up_def
    ProxyExecutorReadWrite_up_def SslRequestExecutor_up_def sslInit_def handleHandshake_def
  by (intro basic stable_network stable_responses)+

lemma stable_executor_up: "stable P (executor_up os x a)"
  by (cases x) (simp_all add: stable_up Splice_up_ReadWrite_up Ssl_server_server)

lemma stable_file_name:
  "safe_url url \<Longrightarrow> stable P (do {
     root \<leftarrow> gets pl_rootFolderLength;
     name \<leftarrow> gets pl_fileNameBuffer;
     set_fileName (fst (file_of_url root name url));
     State_Monad.return (Some (snd (file_of_url root name url)))
   })"
  by (simp add: stable_def wp_simps set_fileName_def P_name)

lemma stable_parseRequest: "stable P (parseRequest a)"
  unfolding parseRequest_def
  by (intro basic stable_option_eq stable_prod_eq stable_if_eq stable_file_name) (auto dest: parse_safe)

lemma stable_process_readRequest:
  "stable P (process_readRequest (Executor_readFd0 os) (executor_up os) ft pt a)"
  "stable P (process_readRequest (SslRequestExecutor_readFd0 os) (executor_up os) ft pt a)"
  unfolding process_readRequest_def readRequest_def setExecutor_def
  by (intro basic stable_transfer stable_parseRequest stable_executor_up)+

lemma stable_request_process:
  "stable P (RequestExecutor_process os (executor_up os) a fd ev)"
  "stable P (SslRequestExecutor_process os (executor_up os) a fd ev)"
  unfolding RequestExecutor_process_def SslRequestExecutor_process_def SslRequestExecutor_process_readRequest_def process_handshake_def handleHandshake_def
  by (intro basic stable_process_readRequest)+

lemma stable_file_process:
  "stable P (FileExecutor_process os a fd ev)" "stable P (SslFileExecutor_process os a fd ev)"
  unfolding FileExecutor_process_def SslFileExecutor_process_def FileExecutor_dispatch_def
    process_sendHeaders_def process_sendFile_def SslFileExecutor_process_sendFile_def
    sslFile_read_def sslFile_write_def
  by (intro basic stable_transfer)+

lemma stable_ReadWrite:
  "stable P (process_forwardRequest os a)" "stable P (process_forwardResponseWrite os (sslWriteFd0 os) a)"
  "stable P (process_forwardResponseRead os (sslWriteFd0 os) a)"
  unfolding process_forwardResponseRead_def process_forwardRequest_def process_forwardResponseWrite_def
  by (intro basic stable_transfer)+

lemma stable_Splice:
  "stable P (Splice_forwardRequest os a)" "stable P (Splice_forwardResponseWrite os a)"
  "stable P (Splice_forwardResponseRead os a)"
  unfolding Splice_forwardResponseRead_def Splice_forwardRequest_def Splice_forwardResponseWrite_def openPipe_def
  by (intro basic)+

lemma stable_waitConnect: "stable P (forward a) \<Longrightarrow> stable P (process_waitConnect os forward a)"
  unfolding process_waitConnect_def by (intro basic stable_network)

lemma stable_proxy_process:
  "stable P (SslProxyExecutor_process os a fd ev)" "stable P (ProxyExecutorSplice_process os a fd ev)"
  unfolding SslProxyExecutor_process_def ProxyExecutorReadWrite_process_def ProxyExecutorSplice_process_def Splice_waitConnect_def
  by (intro basic stable_ReadWrite stable_Splice stable_waitConnect)+

text \<open>All handlers but those that create executors.\<close>

lemma stable_process:
  "x \<notin> {X_newFd, X_server, X_sslServer} \<Longrightarrow> stable P (executor_process os x a fd ev)"
  by (cases x) (auto intro: base stable_request_process stable_file_process stable_proxy_process)

end

text \<open>Other executors: a handler works on its own data only.\<close>

interpretation others: exec_frame "\<lambda>s. \<forall>b. b \<noteq> a \<longrightarrow> pl_execs s b = f b" a for a f
  by unfold_locales auto

text \<open>The file name: the root folder and a safe path in it.\<close>

definition name_ok :: "string \<Rightarrow> 'w poll_loop \<Rightarrow> bool" where
  "name_ok root s \<longleftrightarrow> pl_rootFolderLength s = length root
     \<and> (\<exists>u. safe_url u \<and> pl_fileNameBuffer s = root @ u)"

lemma name_ok_start: "pl_rootFolderLength s = length root \<Longrightarrow> pl_fileNameBuffer s = root \<Longrightarrow> name_ok root s"
  by (auto simp: name_ok_def safe_url_def intro!: exI [of _ "[]"])

interpretation name: exec_frame "name_ok root" a for root a
proof (unfold_locales, goal_cases)
  case (7 s url)
  then show ?case using file_of_url_safe [OF 7(2), of "length root" "pl_fileNameBuffer s"]
    by (auto simp: name_ok_def)
qed (auto simp: name_ok_def)

end
