(* ===== verification/PollLoopEvents.thy ===== *)
theory PollLoopEvents
  imports PollLoopDispatch PollLoopFrame
begin

text \<open>
  The event loop's turns keep the loop's data in order, whatever events \<open>epoll_wait\<close> delivers, and the
  time-out check removes exactly the executors that are due.
\<close>

section \<open>Events\<close>

text \<open>
  Any event, also one for poll data that an earlier event of the same batch freed or gave to another
  executor, keeps the loop's data in order, unless it shuts the loop down.
\<close>

definition in_order :: "'w poll_loop \<Rightarrow> bool" where
  "in_order s \<longleftrightarrow> (\<exists>us. loop_rep us s)"

lemma in_orderI: "loop_rep us s \<Longrightarrow> in_order s"
  by (auto simp: in_order_def)

lemma in_loop_order: "in_loop us a s \<Longrightarrow> in_order s"
  by (auto simp: in_loop_def at_def in_order_def)

lemma removeExecutorData_order:
  assumes "epoll_del_ok os" "in_loop us a s"
  shows "wp (removeExecutorData os a) (\<lambda>_. in_order) s"
proof -
  obtain bs d where "at (bs @ us) a d s" using assms(2) by (auto simp: in_loop_def)
  then show ?thesis by (rule wp_removeExecutorData [OF _ assms(1)]) (rule in_orderI)
qed

lemma wp_exec_in_loop:
  "in_loop us a s \<Longrightarrow> (\<And>bs d. at (bs @ us) a d s \<Longrightarrow> Q d s) \<Longrightarrow> wp (exec a) Q s"
  by (auto simp: in_loop_def intro: wp_exec)

text \<open>What \<open>destroy\<close> leaves: no items, no descriptors, and every executor as \<open>down\<close> leaves it.\<close>

definition loop_down :: "'w poll_loop \<Rightarrow> bool" where
  "loop_down s \<longleftrightarrow> bs_head (pl_execDatas s) = None \<and> bs_head (pl_pollDatas s) = None
     \<and> pl_epollFd s \<le> 0 \<and> pl_eventFd s \<le> 0"

definition all_dead :: "'w poll_loop \<Rightarrow> bool" where
  "all_dead s \<longleftrightarrow> (\<forall>a. ed_dead (pl_execs s a))"

lemma destroy_down: "wp (destroy os) (\<lambda>_. loop_down) s"
proof -
  have "wp (destroy_items os) (\<lambda>_ _. True) s" by simp
  then show ?thesis
    unfolding destroy_def close_member_def wp_simps
    by (rule wp_mono) (auto intro!: wp_sys simp: loop_down_def bs_head_def bs_destroy_def close_positive_def split: if_splits)
qed

lemma all_dead_fields [simp]:
  "all_dead (s\<lparr>pl_execDatas := x\<rparr>) = all_dead s" "all_dead (s\<lparr>pl_pollDatas := x\<rparr>) = all_dead s"
  "all_dead (s\<lparr>pl_epollFd := n\<rparr>) = all_dead s" "all_dead (s\<lparr>pl_eventFd := n\<rparr>) = all_dead s"
  "all_dead (s\<lparr>pl_world := w\<rparr>) = all_dead s"
  by (simp_all add: all_dead_def)

lemma wp_down_item:
  assumes "rb_inv (ed_buffer (pl_execs s a))"
    and "\<And>d w. ed_dead d \<Longrightarrow> Q () (s\<lparr>pl_world := w, pl_execs := (pl_execs s)(a := d)\<rparr>)"
  shows "wp (do { d \<leftarrow> exec a; d' \<leftarrow> sys (ed_down os d); upd a (\<lambda>_. d') }) Q s"
proof -
  have "ed_dead r" if "ed_down os (pl_execs s a) w = (r, w')" for w r w' using ed_down_dead [OF assms(1), of os w] that by simp
  then show ?thesis unfolding exec_def upd_def wp_simps wp_sys_iff using assms(2) by auto
qed

lemma down_items:
  assumes "\<forall>a. rb_inv (ed_buffer (pl_execs s a))" "\<forall>a. a \<notin> set as \<longrightarrow> ed_dead (pl_execs s a)"
  shows "wp (for_each (\<lambda>a. do { d \<leftarrow> exec a; d' \<leftarrow> sys (ed_down os d); upd a (\<lambda>_. d') }) as) (\<lambda>_. all_dead) s"
  using assms
proof (induction as arbitrary: s)
  case (Cons a as)
  show ?case
    unfolding for_each.simps wp_bind [of _ "\<lambda>_. for_each _ _"]
    by (rule wp_down_item) (use Cons.prems in \<open>auto intro!: Cons.IH simp: ed_dead_def\<close>)
qed (auto simp: wp_simps all_dead_def)

lemma destroy_all_dead:
  assumes "in_order s" shows "wp (destroy os) (\<lambda>_ s'. loop_down s' \<and> all_dead s') s"
proof -
  from assms obtain us ps where e: "bs_used BLOCK_SIZE (pl_execDatas s) us" and l: "loop_links us ps (pl_execs s) (pl_polls s)"
    by (auto simp: in_order_def loop_rep_def)
  let ?as = "concat (map (\<lambda>base. rev [base..<base + BLOCK_SIZE]) (bs_blocks (pl_execDatas s)))"
  have "set us \<subseteq> set ?as" using e by (auto simp: bs_used_def bs_rep_def bs_items_def)
  moreover have "rb_inv (ed_buffer (pl_execs s a))" for a
    using l by (cases "a \<in> set us") (auto simp: loop_links_def exec_fields_ok_def ed_dead_def)
  moreover have "ed_dead (pl_execs s a)" if "a \<notin> set us" for a using l that by (simp add: loop_links_def)
  ultimately have "wp (destroy_items os) (\<lambda>_. all_dead) s"
    unfolding destroy_items_def wp_bind wp_gets by (intro down_items) blast+
  then have "wp (destroy os) (\<lambda>_. all_dead) s"
    unfolding destroy_def close_member_def wp_simps by (rule wp_mono) (auto intro!: wp_sys)
  with destroy_down show ?thesis by (simp add: wp_conj)
qed

text \<open>What holds after an event, from its result.\<close>

definition after_event :: "bool option \<Rightarrow> 'w poll_loop \<Rightarrow> bool" where
  "after_event r s \<longleftrightarrow> (r = Some True \<longrightarrow> in_order s) \<and> (r = Some False \<longrightarrow> loop_down s \<and> all_dead s)"

lemma after_event_simps [simp]:
  "after_event None = (\<lambda>_. True)" "after_event (Some True) = in_order" "after_event (Some False) = (\<lambda>s. loop_down s \<and> all_dead s)"
  by (auto simp: after_event_def)

lemma finish_event_order:
  fixes s :: "'w poll_loop"
  assumes del: "epoll_del_ok os" and s: "in_loop us a s"
  shows "wp (finish_event os curMillis a res) after_event s"
proof -
  have upd: "wp (upd a (\<lambda>d. d\<lparr>ed_lastProcessTime := curMillis\<rparr>)) (\<lambda>_. in_order) s"
    if "at (bs @ us) a d s" for bs d
    by (rule wp_upd_free [OF that]) (auto simp: at_def in_order_def intro: free_upds)
  show ?thesis
    unfolding finish_event_def wp_simps
    using removeExecutorData_order [OF del s] destroy_all_dead [OF in_loop_order [OF s]]
    by (auto intro!: wp_exec_in_loop [OF s] upd)
qed

lemma poll_data_exec:
  assumes "loop_rep us s" "pd_execData (pl_polls s p) = Some a"
  shows "at us a (pl_execs s a) s" "owns (pl_execs s a) p"
proof -
  from assms(1) obtain ps where l: "loop_links us ps (pl_execs s) (pl_polls s)" by (auto simp: loop_rep_def)
  then have "p \<in> set ps" using assms(2) by (auto simp: loop_links_def)
  then have "a \<in> set us" "owns (pl_execs s a) p" using l assms(2) by (auto simp: loop_links_def)
  then show "at us a (pl_execs s a) s" "owns (pl_execs s a) p" using assms(1) by (simp_all add: at_def)
qed

lemma process_event_order:
  fixes s :: "'w poll_loop"
  assumes os: "os_ok os" and s: "in_order s"
  shows "wp (process_event os curMillis e) after_event s"
proof -
  have del: "epoll_del_ok os" using os by (simp add: os_ok_def)
  from s obtain us where us: "loop_rep us s" by (auto simp: in_order_def)
  obtain events p where e: "e = (events, p)" by fastforce
  show ?thesis
  proof (cases "pd_execData (pl_polls s p)")
    case None
    with s show ?thesis by (simp add: process_event_def e wp_simps)
  next
    case (Some a)
    note d = poll_data_exec(1) [OF us Some]
    have P: "wp (executor_process os x a fd events) (\<lambda>r s'. \<forall>y. r = Some y \<longrightarrow> wp (finish_event os curMillis a y) after_event s') s"
      if "ed_pExecutor (pl_execs s a) = Some x" for x fd
      by (rule wp_mono [OF executor_process_in [OF os d that]]) (auto intro: finish_event_order [OF del])
    have R: "wp (removeExecutorData os a) (\<lambda>_. in_order) s"
      using removeExecutorData_order [OF del in_loopI [OF d]] .
    show ?thesis
      unfolding process_event_def e prod.case wp_simps
      using Some s R P by (auto simp: wp_simps intro!: wp_exec [OF d] elim!: wp_mono)
  qed
qed

lemma process_events_order:
  assumes "os_ok os" "in_order s"
  shows "wp (process_events os curMillis es) after_event s"
  using assms(2)
proof (induction es arbitrary: s)
  case (Cons e es)
  show ?case
    unfolding process_events.simps wp_simps
    by (rule wp_mono [OF process_event_order [OF assms(1) Cons.prems]]) (use Cons.IH in auto)
qed (simp add: wp_simps)

section \<open>Time-outs\<close>

lemma removeExecutorData_at:
  assumes s: "loop_rep us s" "a \<in> set us" and del: "epoll_del_ok os"
  shows "wp (removeExecutorData os a) (\<lambda>_ s'. loop_rep (remove1 a us) s'
     \<and> (\<forall>b. b \<noteq> a \<longrightarrow> pl_execs s' b = pl_execs s b)) s"
proof -
  have d: "at us a (pl_execs s a) s" using s by (simp add: at_def)
  have "wp (removeExecutorData os a) (\<lambda>_ s'. loop_rep (remove1 a us) s') s"
    by (rule wp_removeExecutorData [OF d del])
  moreover have "wp (removeExecutorData os a) (\<lambda>_ s'. \<forall>b. b \<noteq> a \<longrightarrow> pl_execs s' b = pl_execs s b) s"
    by (rule stableD [OF others.stable_removeExecutorData]) simp
  ultimately show ?thesis by (simp add: wp_conj)
qed

lemma remove_all_at:
  assumes del: "epoll_del_ok os" and s: "loop_rep us s" and xs: "distinct xs" "set xs \<subseteq> set us"
  shows "wp (for_each (removeExecutorData os) xs) (\<lambda>_ s'. loop_rep (filter (\<lambda>a. a \<notin> set xs) us) s'
     \<and> (\<forall>a. a \<notin> set xs \<longrightarrow> pl_execs s' a = pl_execs s a)) s"
  using s xs
proof (induction xs arbitrary: us s)
  case Nil
  then show ?case by (simp add: wp_simps)
next
  case (Cons x xs)
  have dist: "distinct us" using Cons.prems(1) bs.used_distinct by (auto simp: loop_rep_def)
  have f: "filter (\<lambda>a. a \<notin> set xs) (remove1 x us) = filter (\<lambda>a. a \<notin> set (x # xs)) us"
    using dist by (auto simp: distinct_remove1_removeAll removeAll_filter_not_eq intro!: filter_cong)
  have "wp (for_each (removeExecutorData os) xs) (\<lambda>_ s'. loop_rep (filter (\<lambda>a. a \<notin> set (x # xs)) us) s'
      \<and> (\<forall>a. a \<notin> set (x # xs) \<longrightarrow> pl_execs s' a = pl_execs s a)) t"
    if "loop_rep (remove1 x us) t" "\<forall>b. b \<noteq> x \<longrightarrow> pl_execs t b = pl_execs s b" for t
    by (rule wp_mono [OF Cons.IH [OF that(1)]]) (use Cons.prems(2,3) that(2) dist f in \<open>auto simp: set_remove1_eq\<close>)
  then show ?case
    unfolding for_each.simps wp_simps
    by (intro wp_mono [OF removeExecutorData_at [OF Cons.prems(1) _ del]]) (use Cons.prems(3) in auto)
qed

text \<open>
  The check returns, removes exactly the executors that are due, and leaves the others as they are.
\<close>

lemma checkTimeout_at:
  assumes del: "epoll_del_ok os" and s: "loop_rep us s"
  shows "wp (checkTimeout os curMillis) (\<lambda>r s'. r = Some ()
     \<and> loop_rep (filter (\<lambda>a. \<not> timed_out (sp_executorTimeoutMillis (pl_parameters s)) curMillis (pl_execs s a)) us) s'
     \<and> (\<forall>a \<in> set us. \<not> timed_out (sp_executorTimeoutMillis (pl_parameters s)) curMillis (pl_execs s a) \<longrightarrow>
          pl_execs s' a = pl_execs s a)
     \<and> pl_lastCheckTimeoutMillis s' = curMillis) s"
proof -
  let ?due = "\<lambda>a. timed_out (sp_executorTimeoutMillis (pl_parameters s)) curMillis (pl_execs s a)"
  have ue: "bs_used BLOCK_SIZE (pl_execDatas s) us" using s by (simp add: loop_rep_def)
  have w: "pool_walk bs_next_item (pl_execDatas s) (bs_head (pl_execDatas s)) = Some us"
    by (rule bs.walk_used [OF ue])
  have f: "filter (\<lambda>a. a \<notin> set (filter ?due us)) us = filter (\<lambda>a. \<not> ?due a) us"
    by (intro filter_cong) auto
  show ?thesis
    unfolding checkTimeout_def wp_simps w option.case
    by (rule wp_mono [OF remove_all_at [OF del s, of "filter ?due us"]])
      (use bs.used_distinct [OF ue] f in \<open>auto simp: loop_rep_def\<close>)
qed

end
