(* ===== verification/FileDelivery.thy ===== *)
theory FileDelivery
  imports Relay PollLoopEvents
begin

text \<open>
  A file on its way to the client, over \<open>src/executors/FileExecutor.cpp\<close> and the dispatch of events in
  \<open>src/PollLoop.cpp\<close>: what the client has got after any sequence of events of the connection, from
  the record of the traffic that theory \<open>Relay\<close> keeps.
\<close>

section \<open>A delivery under way\<close>

text \<open>
  \<open>phase hdr content k d\<close>: with \<open>k\<close> bytes of the response \<open>hdr @ content\<close> out, the executor's data say
  what is left.
\<close>

definition phase :: "string \<Rightarrow> string \<Rightarrow> nat \<Rightarrow> executor_data \<Rightarrow> bool" where
  "phase hdr content k d \<longleftrightarrow>
     (ed_state d = ES_sendHeaders \<and> k < length hdr \<and> rb_straight (ed_buffer d)
        \<and> rb_content (ed_buffer d) = drop k hdr
        \<and> ed_filePosition d = 0 \<and> ed_bytesToSend d = int (length content))
   \<or> (ed_state d = ES_sendFile \<and> length hdr \<le> k \<and> ed_filePosition d = int (k - length hdr)
        \<and> int k + ed_bytesToSend d = int (length (hdr @ content)) \<and> 0 \<le> ed_bytesToSend d
        \<and> (content \<noteq> [] \<longrightarrow> 0 < ed_bytesToSend d))"

text \<open>The connection is that of descriptor \<open>c\<close>; \<open>old\<close> had been written to it before.\<close>

definition client_got :: "int \<Rightarrow> string \<Rightarrow> ('w \<times> traffic) poll_loop \<Rightarrow> bool" where
  "client_got c bs s \<longleftrightarrow> tr_put (snd (pl_world s)) c = bs"

definition connected :: "nat \<Rightarrow> nat \<Rightarrow> int \<Rightarrow> string \<Rightarrow> ('w \<times> traffic) poll_loop \<Rightarrow> bool" where
  "connected a p c content s \<longleftrightarrow> ed_pExecutor (pl_execs s a) = Some X_file \<and> ed_pollData0 (pl_execs s a) = Some p
     \<and> ed_fd0 (pl_execs s a) = c \<and> tr_files (snd (pl_world s)) (ed_fd1 (pl_execs s a)) = content"

definition sending :: "string \<Rightarrow> string \<Rightarrow> string \<Rightarrow> nat \<Rightarrow> nat \<Rightarrow> int \<Rightarrow> nat \<Rightarrow> ('w \<times> traffic) poll_loop \<Rightarrow> bool" where
  "sending old hdr content a p c k s \<longleftrightarrow> connected a p c content s \<and> phase hdr content k (pl_execs s a)
     \<and> client_got c (old @ take k (hdr @ content)) s"

text \<open>The connection is over, with \<open>k\<close> bytes out.\<close>

definition closed :: "string \<Rightarrow> string \<Rightarrow> nat \<Rightarrow> nat \<Rightarrow> int \<Rightarrow> nat \<Rightarrow> ('w \<times> traffic) poll_loop \<Rightarrow> bool" where
  "closed old response a p c k s \<longleftrightarrow> ed_dead (pl_execs s a) \<and> pd_execData (pl_polls s p) = None
     \<and> client_got c (old @ take k response) s"

text \<open>Whenever something is left to write to \<open>c\<close>, a call moves some of it.\<close>

definition moves :: "'w os \<Rightarrow> int \<Rightarrow> bool" where
  "moves os c \<longleftrightarrow> (\<forall>bs w r w'. os_write os c bs w = (r, w') \<longrightarrow> bs \<noteq> [] \<longrightarrow> 0 < r)
     \<and> (\<forall>f off n w r off' w'. os_sendfile os c f off n w = ((r, off'), w') \<longrightarrow> 0 < n \<longrightarrow> 0 < r)"

text \<open>What a handler leaves, from its result.\<close>

definition handled :: "'w os \<Rightarrow> string \<Rightarrow> string \<Rightarrow> string \<Rightarrow> nat \<Rightarrow> nat \<Rightarrow> int \<Rightarrow> nat \<Rightarrow> process_result
    \<Rightarrow> ('w \<times> traffic) poll_loop \<Rightarrow> bool" where
  "handled os old hdr content a p c k r s \<longleftrightarrow> (\<exists>k' \<ge> k. connected a p c content s
     \<and> client_got c (old @ take k' (hdr @ content)) s \<and> r \<noteq> PRES_shutdown
     \<and> (r = PRES_ok \<longrightarrow> phase hdr content k' (pl_execs s a))
     \<and> (r = PRES_removeExecutorOk \<longrightarrow> k' = length (hdr @ content))
     \<and> (moves os c \<and> content \<noteq> [] \<longrightarrow> k < k' \<and> r \<noteq> PRES_removeExecutorError
          \<and> ed_retryCounter (pl_execs s a) = 0))"

lemma handledI:
  assumes "k \<le> k'" "connected a p c content s" "client_got c (old @ take k' (hdr @ content)) s" "r \<noteq> PRES_shutdown"
    and "r = PRES_ok \<Longrightarrow> phase hdr content k' (pl_execs s a)"
    and "r = PRES_removeExecutorOk \<Longrightarrow> k' = length (hdr @ content)"
    and "moves os c \<Longrightarrow> content \<noteq> [] \<Longrightarrow> k < k' \<and> r \<noteq> PRES_removeExecutorError \<and> ed_retryCounter (pl_execs s a) = 0"
  shows "handled os old hdr content a p c k r s"
  using assms unfolding handled_def by blast

lemma sendHeaders_handled:
  assumes io: "io_ok os" and inv: "rb_inv (ed_buffer (pl_execs s a))" and s: "sending old hdr content a p c k s"
    and st: "ed_state (pl_execs s a) = ES_sendHeaders"
  shows "wp (process_sendHeaders (Executor_writeFd0 (logged os)) a) (handled os old hdr content a p c k) s"
proof -
  let ?d = "pl_execs s a" and ?b = "ed_buffer (pl_execs s a)"
  obtain w t where w: "pl_world s = (w, t)" by fastforce
  have ph: "k < length hdr" "rb_straight ?b" "rb_content ?b = drop k hdr" "ed_filePosition ?d = 0"
    "ed_bytesToSend ?d = int (length content)" and con: "connected a p c content s"
    and got: "tr_put t c = old @ take k (hdr @ content)"
    using s st w by (auto simp: sending_def phase_def client_got_def)
  obtain ok q n where sr: "rb_startRead ?b = (ok, q, n)" by (metis prod.exhaust)
  have ok: "ok" using rb_startRead_ok [OF inv sr] ph by auto
  have n: "n = length hdr - k" using rb_straight_read [OF inv ph(2)] sr ok ph(3) by auto
  have m: "mem_read q n (rb_buf ?b) = drop k hdr"
    using rb_startRead_region [OF inv] sr ok n ph(3) by simp
  have rd: "rb_content (rb_endRead j ?b) = drop (k + j) hdr" "rb_straight (rb_endRead j ?b)" if "j \<le> n" for j
    using rb_read [OF inv _ that] rb_straight_endRead [OF inv ph(2) _ that] sr ok ph(3) by (auto simp: add.commute)
  have tk: "take k (hdr @ content) @ take j (drop k hdr) = take (k + j) (hdr @ content)" if "j \<le> n" for j
    using that n ph(1) by (simp add: take_add)
  have r: "r \<le> int n" "moves os c \<Longrightarrow> 0 < r" if "os_write os c (drop k hdr) w = (r, w')" for r w'
  proof -
    show "r \<le> int n" using io_okD(3) [OF io that] ph(1) n by simp
    assume "moves os c"
    then have "drop k hdr \<noteq> [] \<longrightarrow> 0 < r" using that unfolding moves_def by blast
    then show "0 < r" using ph(1) by simp
  qed
  have r': "nat r \<le> length hdr - k" "k + nat r \<le> length hdr" "r \<noteq> int (length hdr) - int k \<Longrightarrow> k + nat r < length hdr"
    if "os_write os c (drop k hdr) w = (r, w')" "0 < r" for r w'
    using r(1) [OF that(1)] that(2) ph(1) unfolding n by linarith+
  have fd: "ed_fd0 ?d = c" using con by (auto simp: connected_def)
  show ?thesis
    unfolding process_sendHeaders_def buf_startRead_def buf_mem_def buf_endRead_def buf_clear_def Executor_writeFd0_def
      retry_inc_def retry_reset_def set_state_def errno_def wp_poll_ops
    apply (simp add: sr ok m w fd recorded_eq st)
    apply (intro allI impI conjI)
    subgoal for r w'
      by (rule handledI [of _ "k + n"])
        (use w con got n ph tk [of n] r in \<open>auto simp: connected_def client_got_def phase_def\<close>)
    subgoal for r w'
      by (rule handledI [of _ "k + nat r"])
        (use w con got n ph tk [of "nat r"] rd [of "nat r"] r' [of r w'] st in \<open>auto simp: connected_def client_got_def phase_def\<close>)
    by (rule handledI [of _ k]; use w con got n ph r st in \<open>auto simp: connected_def client_got_def phase_def\<close>)+
qed

lemma sendFile_handled:
  assumes sf: "sendfile_ok os" and s: "sending old hdr content a p c k s" and st: "ed_state (pl_execs s a) = ES_sendFile"
  shows "wp (process_sendFile (logged os) a) (handled os old hdr content a p c k) s"
proof -
  let ?d = "pl_execs s a"
  obtain w t where w: "pl_world s = (w, t)" by fastforce
  have ph: "length hdr \<le> k" "ed_filePosition ?d = int (k - length hdr)" "0 \<le> ed_bytesToSend ?d"
    "int k + ed_bytesToSend ?d = int (length (hdr @ content))" "content \<noteq> [] \<Longrightarrow> 0 < ed_bytesToSend ?d"
    and con: "connected a p c content s" and got: "tr_put t c = old @ take k (hdr @ content)"
    using s st w by (auto simp: sending_def phase_def client_got_def)
  have fd: "ed_fd0 ?d = c" "tr_files t (ed_fd1 ?d) = content" using con w by (auto simp: connected_def)
  have tk: "take k (hdr @ content) @ take j (drop (k - length hdr) content) = take (k + j) (hdr @ content)" for j
    using ph(1) take_add [of "k - length hdr" j content] by (simp add: add.commute)
  have r: "r \<le> ed_bytesToSend ?d" "off' = ed_filePosition ?d + max 0 r" "moves os c \<Longrightarrow> content \<noteq> [] \<Longrightarrow> 0 < r"
    if "os_sendfile os c (ed_fd1 ?d) (int (k - length hdr)) (ed_bytesToSend ?d) w = ((r, off'), w')" for r off' w'
  proof -
    show "r \<le> ed_bytesToSend ?d" "off' = ed_filePosition ?d + max 0 r"
      using sendfile_okD [OF sf that] ph(2) by simp_all
    assume "moves os c" "content \<noteq> []"
    then show "0 < r" using that ph(5) unfolding moves_def by blast
  qed
  show ?thesis
    unfolding process_sendFile_def retry_inc_def retry_reset_def errno_def wp_poll_ops
    apply (simp add: w fd ph(2) recorded_eq st)
    apply (intro allI impI conjI)
    prefer 4
    subgoal for r off' w'
      by (rule handledI [of _ "k + nat r"])
        (use w con fd got ph tk [of "nat r"] r [of r off' w'] in \<open>auto simp: connected_def client_got_def phase_def\<close>)
    prefer 4
    subgoal for r off' w'
      by (rule handledI [of _ "k + nat r"])
        (use w con fd got ph tk [of "nat r"] r [of r off' w'] st in \<open>auto simp: connected_def client_got_def phase_def\<close>)
    by (rule handledI [of _ k]; use w con fd got ph r st in \<open>auto simp: connected_def client_got_def phase_def\<close>)+
qed


section \<open>The end of a connection\<close>

lemma recorded_quiet: "unrecorded g (w, t) = (r, wt') \<Longrightarrow> snd wt' = t"
  by (auto simp: recorded_eq)

lemma close_positive_quiet: "close_positive (logged os) fd wt = (r, wt') \<Longrightarrow> snd wt' = snd wt"
  by (cases wt) (auto simp: close_positive_def recorded_def split: if_splits prod.splits)

lemma snd_recorded [simp]: "snd (snd (unrecorded g wt)) = snd wt"
  by (simp add: recorded_def split: prod.split)

lemma ed_down_quiet: "ed_down (logged os) d wt = (d', wt') \<Longrightarrow> snd wt' = snd wt"
  by (cases "ed_ssl d")
    (auto simp: ed_down_def Let_def dest!: close_positive_quiet split: prod.splits)

lemma client_got_world: "snd w = snd (pl_world s) \<Longrightarrow> client_got c bs (s\<lparr>pl_world := w\<rparr>) = client_got c bs s"
  by (simp add: client_got_def)

lemma stable_client_got:
  "stable (client_got c bs) (upd a f)" "stable (client_got c bs) (upd_poll p h)" "stable (client_got c bs) (free_poll p)"
  "stable (client_got c bs) (free_exec p)" "stable (client_got c bs) (count_poll n)" "stable (client_got c bs) (exec a)"
  "stable (client_got c bs) (sys (os_epoll_del (logged os) ep fd))" "stable (client_got c bs) (sys (os_close (logged os) fd))"
  "stable (client_got c bs) (sys (ed_down (logged os) d))"
  by (auto simp: stable_def wp_poll_ops client_got_def recorded_def dest: ed_down_quiet split: prod.splits)

lemma stable_remove: "stable (client_got c bs) (removeExecutorData (logged os) a)"
  unfolding removeExecutorData_def removePollFd_def by (intro stable_intros stable_client_got)

lemma owner_polls:
  assumes "loop_rep us s" "a \<in> set us" "owns (pl_execs s a) p"
  shows "pd_execData (pl_polls s p) = Some a"
proof -
  obtain ps where "exec_links_ok (pl_polls s) (set ps) a (pl_execs s a)"
    using assms(1,2) by (auto simp: loop_rep_def loop_links_def)
  then show ?thesis using assms(3) by (auto simp: exec_links_ok_def owns_def)
qed

lemma remove_closed:
  assumes s: "at us a d s" and del: "epoll_del_ok os" and p: "owns d p" and got: "client_got c bs s"
  shows "wp (removeExecutorData (logged os) a) (\<lambda>_ s'. ed_dead (pl_execs s' a) \<and> pd_execData (pl_polls s' p) = None
     \<and> client_got c bs s') s"
proof -
  have r: "wp (removeExecutorData (logged os) a) (\<lambda>_ s'. loop_rep (remove1 a us) s'
     \<and> (\<forall>b. b \<noteq> a \<longrightarrow> pl_execs s' b = pl_execs s b)) s"
    by (rule removeExecutorData_at) (use s del in \<open>auto simp: at_def\<close>)
  have "ed_dead (pl_execs s' a) \<and> pd_execData (pl_polls s' p) = None"
    if l: "loop_rep (remove1 a us) s'" and e: "\<forall>b. b \<noteq> a \<longrightarrow> pl_execs s' b = pl_execs s b" for s'
  proof -
    have us: "distinct us" "loop_rep us s" "a \<in> set us" "pl_execs s a = d"
      using s bs.used_distinct by (auto simp: at_def loop_rep_def)
    have "ed_dead (pl_execs s' a)" using l us(1) by (auto simp: loop_rep_def loop_links_def)
    moreover have False if "pd_execData (pl_polls s' p) = Some b" for b
    proof -
      have b: "b \<in> set us" "b \<noteq> a" "owns (pl_execs s' b) p"
        using poll_data_exec [OF l that] us(1) by (auto simp: at_def)
      with e have "owns (pl_execs s b) p" by simp
      then show False using owner_polls [OF us(2) b(1), of p] owner_polls [OF us(2,3), of p] p b(2) us(4) by simp
    qed
    ultimately show ?thesis by (meson not_None_eq)
  qed
  with r have "wp (removeExecutorData (logged os) a) (\<lambda>_ s'. ed_dead (pl_execs s' a) \<and> pd_execData (pl_polls s' p) = None) s"
    by (auto elim!: wp_mono)
  with stableD [OF stable_remove got] show ?thesis by (auto simp: wp_conj)
qed

end
