(* ===== verification/PollLoopReachable.thy ===== *)
theory PollLoopReachable
  imports PollLoopEvents
begin

text \<open>
  The reachable states of a poll loop and their invariant, by rule induction: the data are in order,
  and the name of the file served next is a safe path under the root folder.
\<close>

section \<open>Initialisation\<close>

lemma loop_rep_fields [simp]:
  "loop_rep us (s\<lparr>pl_eventFd := n\<rparr>) = loop_rep us s" "loop_rep us (s\<lparr>pl_epollFd := n\<rparr>) = loop_rep us s"
  "loop_rep us (s\<lparr>pl_parameters := q\<rparr>) = loop_rep us s"
  "loop_rep us (s\<lparr>pl_rootFolderLength := k\<rparr>) = loop_rep us s"
  "loop_rep us (s\<lparr>pl_lastCheckTimeoutMillis := n\<rparr>) = loop_rep us s"
  by (simp_all add: loop_rep_def)

lemma loop_rep_empty: "loop_rep [] (pl_empty params w)"
proof -
  have "bs_used BLOCK_SIZE bs_empty []"
    using bs_empty_rep [of BLOCK_SIZE] by (auto simp: bs_used_def BLOCK_SIZE_def)
  then show ?thesis
    by (auto simp: loop_rep_def pl_empty_def loop_links_def ed_dead_default pd_default_def)
qed

lemma createEventFd_order:
  assumes del: "epoll_del_ok os" and s: "loop_rep us s"
  shows "wp (createEventFd os) (\<lambda>r s'. r = 0 \<longrightarrow> in_order s') s"
proof -
  have N: "wp (NewFdExecutor_up b) (\<lambda>_. in_order) t"
    if "at us a d t" "b = a" "ed_pExecutor d \<noteq> None" for b us a d t
    unfolding that(2) by (rule wp_mono [OF NewFdExecutor_up_at [OF that(1,3)]]) (auto simp: at_def in_order_def)
  show ?thesis
    unfolding createEventFd_def wp_bind wp_return wp_modify wp_if wp_gets executor_up.simps
    apply (rule wp_sys, intro conjI impI)
    subgoal by simp
    subgoal for ef w
      apply (rule wp_createExecutorData [of us], simp add: s)
      apply (simp only: option.case wp_bind wp_if wp_return)
      apply (rule wp_upd_fd0, assumption, simp add: ed_dead_def, simp add: ed_dead_def)
      apply (rule wp_upd_executor, assumption, simp add: ed_dead_def)
      apply (rule wp_exec, assumption)
      apply (rule wp_addPollFd, assumption, simp)
      subgoal by simp
      subgoal by simp (rule N, assumption, simp, simp add: linked_poll_def)
      done
    done
qed

lemma PollLoop_init_order:
  assumes "epoll_del_ok os"
  shows "wp (PollLoop_init os params) (\<lambda>r s'. r = 0 \<longrightarrow> in_order s') (pl_empty params0 w)"
proof -
  show ?thesis
    unfolding PollLoop_init_def initDataStructs_succeeds wp_simps
    by (rule wp_sys) (use loop_rep_empty [of params0 w] in
      \<open>auto simp: loop_rep_def pl_empty_def intro!: createEventFd_order [OF assms, of "[]"]\<close>)
qed

section \<open>Reachable states\<close>

text \<open>
  The states between two turns of the loop of a poll loop that was initialised and that listens on
  any number of ports. Between turns the world changes in any way: the kernel's state, the
  queue of new connections and the stop flag, which other threads write.
\<close>

inductive reachable :: "'w os \<Rightarrow> server_parameters \<Rightarrow> 'w poll_loop \<Rightarrow> bool" for os params where
  initialised: "run_state (PollLoop_init os params) (pl_empty params0 w) = (0, s) \<Longrightarrow> reachable os params s"
| listening: "reachable os params s \<Longrightarrow> run_state (listenPort os port t) s = (rc, s') \<Longrightarrow> reachable os params s'"
| turned: "reachable os params s \<Longrightarrow> run_state (run_body os) s = (T_continue, s') \<Longrightarrow> reachable os params s'"
| environment: "reachable os params s \<Longrightarrow> reachable os params (s\<lparr>pl_world := w\<rparr>)"

fun after_turn :: "turn \<Rightarrow> 'w poll_loop \<Rightarrow> bool" where
  "after_turn T_continue = in_order"
| "after_turn T_break = in_order"
| "after_turn (T_return rc) = (\<lambda>s. rc = -1 \<and> loop_down s \<and> all_dead s)"
| "after_turn T_hang = (\<lambda>_. True)"

lemma run_body_order:
  fixes s :: "'w poll_loop"
  assumes os: "os_ok os" and s: "in_order s"
  shows "wp (run_body os) after_turn s"
proof -
  have del: "epoll_del_ok os" using os by (simp add: os_ok_def)
  have w: "in_order (s\<lparr>pl_world := w\<rparr>) = in_order s" for s :: "'w poll_loop" and w by (simp add: in_order_def)
  have T: "wp (checkTimeout os c) (\<lambda>r. after_turn (if r = None then T_hang else T_continue)) t" if "in_order t" for c t
  proof -
    from that obtain us where "loop_rep us t" by (auto simp: in_order_def)
    from checkTimeout_at [OF del this] show ?thesis by (rule wp_mono) (auto simp: in_order_def)
  qed
  have E: "wp (process_events os c es) (\<lambda>r s'. (r = None \<longrightarrow> after_turn T_hang s')
      \<and> (\<forall>y. r = Some y \<longrightarrow> (\<not> y \<longrightarrow> after_turn (T_return (-1)) s')
        \<and> (\<not> \<not> y \<longrightarrow> (n \<le> c - pl_lastCheckTimeoutMillis s' \<longrightarrow>
              wp (checkTimeout os c) (\<lambda>r. after_turn (if r = None then T_hang else T_continue)) s')
            \<and> (\<not> n \<le> c - pl_lastCheckTimeoutMillis s' \<longrightarrow> after_turn T_continue s')))) t"
    if "in_order t" for c es n t
    by (rule wp_mono [OF process_events_order [OF os that]]) (auto intro: T)
  have D: "wp (destroy os) (\<lambda>_. after_turn (T_return (-1))) t" if "in_order t" for t
    using destroy_all_dead [OF that] by simp
  show ?thesis
    unfolding run_body_def wp_simps errno_def
    by (intro conjI impI allI wp_sys E D) (auto simp: w s)
qed

text \<open>The file name.\<close>

lemma name_ops:
  "stable (name_ok root) (modify (\<lambda>s. s\<lparr>pl_eventFd := n\<rparr>))" "stable (name_ok root) (modify (\<lambda>s. s\<lparr>pl_epollFd := n\<rparr>))"
  "stable (name_ok root) (modify (\<lambda>s. s\<lparr>pl_execDatas := bs_destroy (pl_execDatas s)\<rparr>))"
  "stable (name_ok root) (modify (\<lambda>s. s\<lparr>pl_pollDatas := bs_destroy (pl_pollDatas s)\<rparr>))"
  "stable (name_ok root) (modify (\<lambda>s. s\<lparr>pl_lastCheckTimeoutMillis := n\<rparr>))"
  by (auto simp: stable_def wp_simps name_ok_def)

lemma name_destroy: "stable (name_ok root) (destroy os)"
  unfolding destroy_def destroy_items_def close_member_def by (intro name.base name_ops)

lemma name_create:
  "stable (name_ok root) (createRequestExecutorInternal os fd t)" "stable (name_ok root) (listenPort os port t)"
  "stable (name_ok root) (createEventFd os)"
  unfolding createRequestExecutorInternal_def listenPort_def createEventFd_def createExecutorData_def
  by (intro name.basic name_ops name_destroy name.stable_executor_up name.stable_removeExecutorData)+

lemma name_checkNewFd: "stable (name_ok root) (checkNewFd os)"
proof -
  have b: "stable (name_ok root) (checkNewFd_body os)" for os :: "'w os"
    unfolding checkNewFd_body_def by (intro name.base name_create)
  have "name_ok root s \<longrightarrow> name_ok root s'" if "checkNewFd_loop os s = Some s'" for os and s s' :: "'w poll_loop"
  proof (rule checkNewFd_loop.raw_induct [OF _ that], intro impI)
    fix loop and os :: "'w os" and s s'
    assume IH: "\<And>os s s'. loop os s = Some s' \<Longrightarrow> name_ok root s \<longrightarrow> name_ok root s'"
      and eq: "(case run_state (checkNewFd_body os) s of (again, s') \<Rightarrow> if again then loop os s' else Some s') = Some s'"
      and s: "name_ok root s"
    obtain again s1 where s1: "run_state (checkNewFd_body os) s = (again, s1)" by fastforce
    then have "name_ok root s1" using stable_run [OF b s, of os] by simp
    then show "name_ok root s'" using eq s1 IH by (cases again) auto
  qed
  then show ?thesis by (auto simp: stable_def wp_def checkNewFd_def split: option.split)
qed

lemma name_executor_process: "stable (name_ok root) (executor_process os x a fd ev)"
proof (cases "x \<in> {X_newFd, X_server, X_sslServer}")
  case True
  then show ?thesis
    by (auto simp: NewFdExecutor_process_def ServerExecutor_process_def SslServerExecutor_process_def
        createRequestExecutor_def intro!: name.base name_checkNewFd name_create)
qed (rule name.stable_process)

lemma name_process_events: "stable (name_ok root) (process_events os c es)"
proof (induction es)
  case (Cons e es)
  have "stable (name_ok root) (process_event os c e)"
    unfolding process_event_def finish_event_def
    by (intro name.base name_executor_process name.stable_removeExecutorData name_destroy)
  then show ?case unfolding process_events.simps by (intro name.base Cons.IH)
qed (simp add: stable_intros)

lemma name_run_body: "stable (name_ok root) (run_body os)"
  unfolding run_body_def checkTimeout_def
  by (intro name.base name_process_events name_destroy name.stable_removeExecutorData name_ops)

lemma PollLoop_init_name:
  assumes "run_state (PollLoop_init os params) s = (0, s')"
  shows "name_ok (root_name params) s'"
proof -
  have "wp (PollLoop_init os params) (\<lambda>_. name_ok (root_name params)) s"
    unfolding PollLoop_init_def initDataStructs_succeeds wp_simps
    by (rule wp_sys, intro conjI impI wp_mono [OF stableD [OF name_create(3)]])
      (auto simp: name_ok_start intro: stableD [OF name_destroy])
  then show ?thesis using assms by (rule wp_run)
qed

lemma reachable_in_order: "reachable os params s \<Longrightarrow> os_ok os \<Longrightarrow> in_order s"
proof (induction rule: reachable.induct)
  case (initialised params0 w s)
  then show ?case using wp_run [OF PollLoop_init_order initialised.hyps] by (auto simp: os_ok_def)
next
  case (listening s port t rc s')
  then obtain us where us: "loop_rep us s" by (auto simp: in_order_def)
  have "wp (listenPort os port t) (\<lambda>_. in_order) s"
    by (rule listenPort_rep [OF _ us]) (use listening.prems in \<open>auto simp: os_ok_def in_order_def\<close>)
  then show ?case using listening.hyps by (rule_tac wp_run)
next
  case (turned s s')
  then show ?case using wp_run [OF run_body_order] by fastforce
next
  case (environment s w)
  then show ?case by (simp add: in_order_def)
qed

lemma reachable_name_ok: "reachable os params s \<Longrightarrow> name_ok (root_name params) s"
proof (induction rule: reachable.induct)
  case (initialised params0 w s)
  then show ?case by (rule PollLoop_init_name)
next
  case (listening s port t rc s')
  then show ?case using stable_run [OF name_create(2)] by (metis snd_conv)
next
  case (turned s s')
  then show ?case using stable_run [OF name_run_body] by (metis snd_conv)
next
  case (environment s w)
  then show ?case by (simp add: name_ok_def)
qed

end
