(* ===== verification/PollLoopFiles.thy ===== *)
theory PollLoopFiles
  imports PollLoopReachable
begin

text \<open>
  Which files the server opens. The kernel is replaced by one whose \<open>open\<close> misbehaves in any way on a
  name that is not a safe path under the root folder; no turn of the loop can tell the two apart.
\<close>

section \<open>Only files under the root folder are opened\<close>

text \<open>Two commands that do the same from every state that satisfies \<open>P\<close>.\<close>

definition same_run :: "('s \<Rightarrow> bool) \<Rightarrow> ('s, 'a) state \<Rightarrow> ('s, 'a) state \<Rightarrow> bool" where
  "same_run P m m' \<longleftrightarrow> (\<forall>s. P s \<longrightarrow> run_state m s = run_state m' s)"

lemma same_run_refl: "same_run P m m"
  by (simp add: same_run_def)

lemma same_run_bind:
  assumes "same_run P m m'" "stable P m" "\<And>x. same_run P (f x) (f' x)"
  shows "same_run P (State_Monad.bind m f) (State_Monad.bind m' f')"
  unfolding same_run_def
proof (intro allI impI)
  fix s assume s: "P s"
  obtain x t where m: "run_state m s = (x, t)" by fastforce
  then have "P t" using stable_run [OF assms(2) s] by simp
  moreover have "run_state m' s = (x, t)" using assms(1) s m by (simp add: same_run_def)
  ultimately show "run_state (State_Monad.bind m f) s = run_state (State_Monad.bind m' f') s"
    using assms(3) m by (simp add: same_run_def)
qed

lemma same_run_if: "same_run P m m' \<Longrightarrow> same_run P n n' \<Longrightarrow> same_run P (if b then m else n) (if b then m' else n')"
  by simp

lemma same_run_option:
  "same_run P m m' \<Longrightarrow> (\<And>y. same_run P (f y) (f' y)) \<Longrightarrow>
     same_run P (case x of None \<Rightarrow> m | Some y \<Rightarrow> f y) (case x of None \<Rightarrow> m' | Some y \<Rightarrow> f' y)"
  by (simp split: option.split)

text \<open>The same kernel, except that \<open>open\<close> does something else on names that are not good.\<close>

definition guard_open :: "(string \<Rightarrow> bool) \<Rightarrow> (string \<Rightarrow> 'w \<Rightarrow> int \<times> 'w) \<Rightarrow> 'w os \<Rightarrow> 'w os" where
  "guard_open good other os = os\<lparr>os_open := (\<lambda>name. if good name then os_open os name else other name)\<rparr>"

definition under :: "string \<Rightarrow> string \<Rightarrow> bool" where
  "under root name \<longleftrightarrow> (\<exists>u. safe_url u \<and> name = root @ u)"

lemma guard_sel [simp]:
  "os_errno (guard_open good g os) = os_errno os" "os_epoll_add (guard_open good g os) = os_epoll_add os"
  "os_epoll_mod (guard_open good g os) = os_epoll_mod os" "os_epoll_del (guard_open good g os) = os_epoll_del os"
  "os_read (guard_open good g os) = os_read os" "os_write (guard_open good g os) = os_write os"
  "os_close (guard_open good g os) = os_close os" "os_fstat (guard_open good g os) = os_fstat os"
  "os_sendfile (guard_open good g os) = os_sendfile os" "os_splice (guard_open good g os) = os_splice os"
  "os_pipe2 (guard_open good g os) = os_pipe2 os" "os_socket (guard_open good g os) = os_socket os"
  "os_connect_inet (guard_open good g os) = os_connect_inet os"
  "os_connect_unix (guard_open good g os) = os_connect_unix os"
  "os_getsockopt_error (guard_open good g os) = os_getsockopt_error os"
  "os_setsockopt_reuseaddr (guard_open good g os) = os_setsockopt_reuseaddr os"
  "os_bind (guard_open good g os) = os_bind os" "os_listen (guard_open good g os) = os_listen os"
  "os_SSL_new (guard_open good g os) = os_SSL_new os" "os_SSL_set_fd (guard_open good g os) = os_SSL_set_fd os"
  "os_SSL_set_accept_state (guard_open good g os) = os_SSL_set_accept_state os"
  "os_SSL_do_handshake (guard_open good g os) = os_SSL_do_handshake os"
  "os_SSL_get_error (guard_open good g os) = os_SSL_get_error os"
  "os_SSL_read (guard_open good g os) = os_SSL_read os" "os_SSL_write (guard_open good g os) = os_SSL_write os"
  "os_SSL_shutdown (guard_open good g os) = os_SSL_shutdown os" "os_SSL_free (guard_open good g os) = os_SSL_free os"
  "os_http_date (guard_open good g os) = os_http_date os" "os_http_time (guard_open good g os) = os_http_time os"
  "os_open (guard_open good g os) name = (if good name then os_open os name else g name)"
  by (simp_all add: guard_open_def)

lemma guard_ops [simp]:
  "errno (guard_open good g os) = errno os" "addPollFd (guard_open good g os) = addPollFd os"
  "editPollFd (guard_open good g os) = editPollFd os" "removePollFd (guard_open good g os) = removePollFd os"
  "closeFd (guard_open good g os) = closeFd os"
  "createOkResponse (guard_open good g os) = createOkResponse os"
  "Executor_readFd0 (guard_open good g os) = Executor_readFd0 os"
  "Executor_writeFd0 (guard_open good g os) = Executor_writeFd0 os"
  "sslWriteFd0 (guard_open good g os) = sslWriteFd0 os"
  "SslRequestExecutor_readFd0 (guard_open good g os) = SslRequestExecutor_readFd0 os"
  "sslInit (guard_open good g os) = sslInit os" "handleHandshake (guard_open good g os) = handleHandshake os"
  "socketConnectNonBlock (guard_open good g os) = socketConnectNonBlock os"
  "socketConnectUnixNonBlock (guard_open good g os) = socketConnectUnixNonBlock os"
  "socketConnectNonBlockCheck (guard_open good g os) = socketConnectNonBlockCheck os"
  "socketListen (guard_open good g os) = socketListen os" "openPipe (guard_open good g os) = openPipe os"
  unfolding fun_eq_iff
  by (unfold errno_def addPollFd_def editPollFd_def removePollFd_def closeFd_def
      createOkResponse_def Executor_readFd0_def Executor_writeFd0_def sslWriteFd0_def
      SslRequestExecutor_readFd0_def sslInit_def handleHandshake_def socketConnectNonBlock_def
      socketConnectUnixNonBlock_def socketConnectNonBlockCheck_def socketListen_def openPipe_def guard_sel) (simp_all only: simp_thms)

lemma guard_up [simp]:
  "ServerExecutor_up (guard_open good g os) = ServerExecutor_up os"
  "RequestExecutor_up (guard_open good g os) = RequestExecutor_up os"
  "SslRequestExecutor_up (guard_open good g os) = SslRequestExecutor_up os"
  "ProxyExecutorReadWrite_up (guard_open good g os) = ProxyExecutorReadWrite_up os"
  unfolding fun_eq_iff
  by (unfold ServerExecutor_up_def RequestExecutor_up_def SslRequestExecutor_up_def
      ProxyExecutorReadWrite_up_def guard_sel guard_ops) (simp_all only: simp_thms)

lemma guard_process [simp]:
  "FileExecutor_process (guard_open good g os) = FileExecutor_process os"
  "SslFileExecutor_process (guard_open good g os) = SslFileExecutor_process os"
  "ProxyExecutorSplice_process (guard_open good g os) = ProxyExecutorSplice_process os"
  "SslProxyExecutor_process (guard_open good g os) = SslProxyExecutor_process os"
  "process_handshake (guard_open good g os) = process_handshake os"
  unfolding fun_eq_iff
  by (unfold FileExecutor_process_def FileExecutor_dispatch_def SslFileExecutor_process_def process_sendFile_def
      SslFileExecutor_process_sendFile_def sslFile_read_def sslFile_write_def ProxyExecutorSplice_process_def Splice_waitConnect_def
      SslProxyExecutor_process_def ProxyExecutorReadWrite_process_def process_waitConnect_def
      Splice_forwardRequest_def Splice_forwardResponseRead_def Splice_forwardResponseWrite_def
      process_forwardRequest_def process_forwardResponseRead_def process_forwardResponseWrite_def
      process_handshake_def guard_sel guard_ops) (simp_all only: simp_thms)

lemma guard_FileExecutor_up:
  "same_run (name_ok root) (FileExecutor_up (guard_open (under root) g os) a) (FileExecutor_up os a)"
  unfolding same_run_def
proof (intro allI impI)
  fix s :: "'a poll_loop" assume "name_ok root s"
  then have "under root (pl_fileNameBuffer s)" by (auto simp: name_ok_def under_def)
  then show "run_state (FileExecutor_up (guard_open (under root) g os) a) s = run_state (FileExecutor_up os a) s"
    unfolding FileExecutor_up_def guard_ops guard_sel by (simp add: upd_def sys_def)
qed

lemma guard_executor_up:
  "same_run (name_ok root) (executor_up (guard_open (under root) g os) x a) (executor_up os x a)"
  by (cases x) (simp_all add: guard_FileExecutor_up same_run_refl Splice_up_ReadWrite_up Ssl_server_server)

lemma guard_setExecutor:
  "same_run (name_ok root) (setExecutor (executor_up (guard_open (under root) g os)) a x) (setExecutor (executor_up os) a x)"
  unfolding setExecutor_def
  by (intro same_run_bind guard_executor_up same_run_refl name.basic name.stable_executor_up) 

lemma guard_readRequest:
  assumes "stable (name_ok root) (readRequest rd a)"
  shows "same_run (name_ok root) (process_readRequest rd (executor_up (guard_open (under root) g os)) ft pt a)
    (process_readRequest rd (executor_up os) ft pt a)"
proof -
  have "stable (name_ok root) (setExecutor (executor_up (guard_open (under root) g os)) a x)" for x
    unfolding setExecutor_def by (intro name.basic name.stable_executor_up)
  then show ?thesis
    unfolding process_readRequest_def
    by (intro same_run_bind same_run_if same_run_option guard_setExecutor assms name.stable_parseRequest) (simp_all add: same_run_refl)
qed

lemma guard_sel_loop [simp]:
  "os_queue_pop (guard_open good g os) = os_queue_pop os" "os_eventfd_read (guard_open good g os) = os_eventfd_read os"
  "os_accept4 (guard_open good g os) = os_accept4 os" "os_epoll_wait (guard_open good g os) = os_epoll_wait os"
  "os_runFlag_load (guard_open good g os) = os_runFlag_load os"
  "os_getMilliseconds (guard_open good g os) = os_getMilliseconds os"
  "os_srv_createRequestExecutor (guard_open good g os) = os_srv_createRequestExecutor os"
  by (simp_all add: guard_open_def)

lemma guard_loop [simp]:
  "removeExecutorData (guard_open good g os) = removeExecutorData os" "destroy (guard_open good g os) = destroy os"
  "createExecutorData (guard_open good g os) = createExecutorData os"
  "checkTimeout (guard_open good g os) = checkTimeout os"
proof -
  show r: "removeExecutorData (guard_open good g os) = removeExecutorData os"
    unfolding fun_eq_iff
    by (unfold removeExecutorData_def ed_down_def close_positive_def guard_sel guard_ops) (simp_all only: simp_thms)
  show "createExecutorData (guard_open good g os) = createExecutorData os"
    by (unfold createExecutorData_def guard_sel_loop) (rule refl)
  show "destroy (guard_open good g os) = destroy os"
    by (unfold destroy_def destroy_items_def close_member_def ed_down_def close_positive_def guard_sel) (rule refl)
  show "checkTimeout (guard_open good g os) = checkTimeout os"
    unfolding fun_eq_iff by (unfold checkTimeout_def r) (simp_all only: simp_thms)
qed

lemma guard_create:
  "same_run (name_ok root) (createRequestExecutorInternal (guard_open (under root) g os) fd t)
     (createRequestExecutorInternal os fd t)"
  unfolding createRequestExecutorInternal_def guard_loop createExecutorData_def
  by (intro same_run_bind same_run_option same_run_if guard_executor_up name.base name.stable_executor_up
      name.stable_removeExecutorData) (simp_all add: same_run_refl)

lemma guard_createRequestExecutor:
  "same_run (name_ok root) (createRequestExecutor (guard_open (under root) g os) fd t) (createRequestExecutor os fd t)"
  unfolding createRequestExecutor_def guard_sel_loop
  by (intro same_run_bind same_run_if guard_create name.base) (simp_all add: same_run_refl)

lemma guard_checkNewFd_body:
  "same_run (name_ok root) (checkNewFd_body (guard_open (under root) g os)) (checkNewFd_body os)"
proof -
  have "same_run (name_ok root) (case x of None \<Rightarrow> State_Monad.return False | Some (fd, t) \<Rightarrow> do {
         rc \<leftarrow> createRequestExecutorInternal (guard_open (under root) g os) fd t;
         (if rc \<noteq> 0 then do { sys (os_close os fd); State_Monad.return True } else State_Monad.return True) })
      (case x of None \<Rightarrow> State_Monad.return False | Some (fd, t) \<Rightarrow> do {
         rc \<leftarrow> createRequestExecutorInternal os fd t;
         (if rc \<noteq> 0 then do { sys (os_close os fd); State_Monad.return True } else State_Monad.return True) })" for x
    by (cases x) (auto intro!: same_run_bind guard_create name_create same_run_refl)
  then show ?thesis
    unfolding checkNewFd_body_def guard_sel_loop guard_sel
    by (intro same_run_bind name.base same_run_refl)
qed

lemma same_run_loop:
  assumes same: "same_run P (checkNewFd_body A) (checkNewFd_body B)" and st: "stable P (checkNewFd_body A)"
    and l: "checkNewFd_loop A s = Some s'" and s: "P s"
  shows "checkNewFd_loop B s = Some s'"
proof -
  have "A = A \<longrightarrow> P s \<longrightarrow> checkNewFd_loop B s = Some s'"
  proof (rule checkNewFd_loop.raw_induct [OF _ l, where P = "\<lambda>os s s'. os = A \<longrightarrow> P s \<longrightarrow> checkNewFd_loop B s = Some s'"], intro impI)
    fix loop os s s'
    assume IH: "\<And>os s s'. loop os s = Some s' \<Longrightarrow> os = A \<longrightarrow> P s \<longrightarrow> checkNewFd_loop B s = Some s'"
      and eq: "(case run_state (checkNewFd_body os) s of (again, s') \<Rightarrow> if again then loop os s' else Some s') = Some s'"
      and os: "os = A" and s: "P s"
    obtain again s1 where b: "run_state (checkNewFd_body A) s = (again, s1)" by fastforce
    then have B: "run_state (checkNewFd_body B) s = (again, s1)" using same s by (simp add: same_run_def)
    have "P s1" using stable_run [OF st s] b by simp
    then show "checkNewFd_loop B s = Some s'"
      using eq b os IH by (subst checkNewFd_loop.simps, cases again) (auto simp: B)
  qed
  then show ?thesis using s by simp
qed

lemma guard_checkNewFd:
  "same_run (name_ok root) (checkNewFd (guard_open (under root) g os)) (checkNewFd os)"
proof -
  have b: "stable (name_ok root) (checkNewFd_body os)" for os :: "'a os"
    unfolding checkNewFd_body_def by (intro name.base name_create)
  note G = guard_checkNewFd_body [of root g os]
  have G': "same_run (name_ok root) (checkNewFd_body os) (checkNewFd_body (guard_open (under root) g os))"
    using G by (simp add: same_run_def)
  have "checkNewFd_loop (guard_open (under root) g os) s = checkNewFd_loop os s" if s: "name_ok root s" for s
  proof (cases "checkNewFd_loop os s")
    case (Some s')
    then show ?thesis using same_run_loop [OF G' b _ s] by simp
  next
    case None
    then show ?thesis using same_run_loop [OF G b _ s] by (metis option.exhaust option.distinct(1))
  qed
  then show ?thesis by (simp add: same_run_def checkNewFd_def)
qed

lemma guard_executor_process:
  "same_run (name_ok root) (executor_process (guard_open (under root) g os) x a fd ev) (executor_process os x a fd ev)"
proof (cases x)
  case X_newFd
  then show ?thesis
    by (simp add: NewFdExecutor_process_def, intro same_run_bind same_run_if guard_checkNewFd name.base name_checkNewFd) (simp_all add: same_run_refl)
next
  case X_request
  have "stable (name_ok root) (readRequest (Executor_readFd0 os) a)"
    unfolding readRequest_def by (intro name.basic name.stable_transfer)
  note R = guard_readRequest [OF this]
  show ?thesis
    unfolding X_request executor_process.simps RequestExecutor_process_def guard_ops guard_process
    by (intro same_run_bind same_run_if R name.base same_run_refl)
next
  case X_sslRequest
  have "stable (name_ok root) (readRequest (SslRequestExecutor_readFd0 os) a)"
    unfolding readRequest_def by (intro name.basic name.stable_transfer)
  note R = guard_readRequest [OF this]
  show ?thesis
    unfolding X_sslRequest executor_process.simps SslRequestExecutor_process_def SslRequestExecutor_process_readRequest_def guard_ops guard_process
    by (intro same_run_bind same_run_if R name.base same_run_refl)
next
  case X_server
  then show ?thesis
    by (simp add: ServerExecutor_process_def, intro same_run_bind same_run_if guard_createRequestExecutor name.base)
      (simp_all add: same_run_refl name_create createRequestExecutor_def name.base)
next
  case X_sslServer
  then show ?thesis
    by (simp add: SslServerExecutor_process_def, intro same_run_bind same_run_if guard_createRequestExecutor name.base)
      (simp_all add: same_run_refl name_create createRequestExecutor_def name.base)
qed (simp_all add: same_run_refl)

lemma guard_process_events:
  "same_run (name_ok root) (process_events (guard_open (under root) g os) c es) (process_events os c es)"
proof (induction es)
  case (Cons e es)
  have f: "finish_event (guard_open (under root) g os) = finish_event os"
    unfolding fun_eq_iff by (unfold finish_event_def guard_loop) (simp_all only: simp_thms)
  obtain events p where e: "e = (events, p)" by fastforce
  have ev: "same_run (name_ok root) (process_event (guard_open (under root) g os) c e) (process_event os c e)"
    unfolding process_event_def f guard_loop e prod.case
    by (intro same_run_bind same_run_option same_run_if guard_executor_process name.base name_executor_process
        name.stable_removeExecutorData)
      (simp_all add: same_run_refl)
  have "stable (name_ok root) (process_event (guard_open (under root) g os) c e)"
    unfolding process_event_def finish_event_def
    by (intro name.base name_executor_process name.stable_removeExecutorData name_destroy)
  then show ?case
    unfolding process_events.simps by (intro same_run_bind ev same_run_if Cons.IH) (simp_all add: same_run_refl)
qed (simp add: same_run_refl)

lemma guard_run_body:
  "same_run (name_ok root) (run_body (guard_open (under root) g os)) (run_body os)"
proof -
  have "same_run (name_ok root)
     (case r of (n, events) \<Rightarrow> if n = -1 then F else do {
         f \<leftarrow> sys (os_runFlag_load os);
         if \<not> f then B else do {
           c \<leftarrow> sys (os_getMilliseconds os);
           h \<leftarrow> process_events (guard_open (under root) g os) c (take (nat n) events);
           K c h } })
     (case r of (n, events) \<Rightarrow> if n = -1 then F else do {
         f \<leftarrow> sys (os_runFlag_load os);
         if \<not> f then B else do {
           c \<leftarrow> sys (os_getMilliseconds os);
           h \<leftarrow> process_events os c (take (nat n) events);
           K c h } })" for r :: "int \<times> (32 word \<times> nat) list" and F B and K :: "int \<Rightarrow> bool option \<Rightarrow> ('a poll_loop, turn) state"
    by (cases r) (auto intro!: same_run_bind same_run_if same_run_refl guard_process_events name_process_events name.base)
  then show ?thesis
    unfolding run_body_def guard_sel_loop guard_loop guard_ops by (intro same_run_bind same_run_refl name.base) 
qed

end
