(* ===== verification/PollLoopProperties.thy ===== *)
theory PollLoopProperties
  imports PollLoopFiles SampleOs
begin

text \<open>
  Properties of the poll loop, with a concrete loop for their instances.
\<close>

section \<open>A concrete loop\<close>

text \<open>Registering succeeds when the kernel allows it.\<close>

lemma addPollFd_succeeds:
  assumes s: "at us a d s" and d: "ed_pollData0 d = None" "ed_pollData1 d = None" "fd = ed_fd0 d"
    and add: "\<And>ep fd ev p w w'. os_epoll_add os ep fd ev p w \<noteq> (-1, w')"
  shows "wp (addPollFd os a fd ev) (\<lambda>r _. r = 0) s"
proof -
  from s obtain ps where ps: "bs_used BLOCK_SIZE (pl_pollDatas s) ps" by (auto simp: at_def loop_rep_def)
  from bs.allocate_used [OF ps] obtain p b where b: "bs_allocate BLOCK_SIZE (pl_pollDatas s) = (Some p, b)"
    by blast
  have ex: "pl_execs s a = d" using s by (simp add: at_def)
  show ?thesis
    unfolding addPollFd_def wp_simps exec_def wp_allocate_poll wp_sys_iff count_poll_def
    using add by (auto simp: b ex d upd_poll_def upd_def wp_simps)
qed

text \<open>A kernel that hands out descriptors and registers them.\<close>

definition kernel_works :: "'w os \<Rightarrow> bool" where
  "kernel_works os \<longleftrightarrow> (\<forall>w. 0 < fst (os_epoll_create1 os w)) \<and> (\<forall>w. 0 < fst (os_eventfd os w))
     \<and> (\<forall>ep fd ev p w. fst (os_epoll_add os ep fd ev p w) \<noteq> -1)"

lemma createEventFd_succeeds:
  assumes "kernel_works os" "loop_rep us s"
  shows "wp (createEventFd os) (\<lambda>r _. r = 0) s"
  unfolding createEventFd_def wp_bind wp_return wp_modify wp_if wp_gets executor_up.simps wp_sys_iff
  apply (intro conjI impI allI)
  subgoal for ef w
    using assms(1) fst_conv [of ef w] by (auto simp: kernel_works_def) (metis fst_conv less_asym)
  subgoal for ef w
    apply (rule wp_createExecutorData [of us], simp add: assms)
    apply (simp only: option.case wp_bind wp_if wp_return)
    apply (rule wp_upd_fd0, assumption, simp add: ed_dead_def, simp add: ed_dead_def)
    apply (rule wp_upd_executor, assumption, simp add: ed_dead_def)
    apply (rule wp_exec, assumption)
    apply (rule wp_mono [OF addPollFd_succeeds], assumption)
    using assms(1) by (auto simp: ed_dead_def kernel_works_def) (metis fst_conv)
  done

lemma init_succeeds:
  assumes "kernel_works os" shows "fst (run_state (PollLoop_init os params) (pl_empty params' w)) = 0"
proof -
  have D: "wp (createEventFd os) (\<lambda>r s. (r \<noteq> 0 \<longrightarrow> wp (destroy os) (\<lambda>r s. (-1 :: int) = 0) s)
      \<and> (\<not> r \<noteq> 0 \<longrightarrow> (0 :: int) = 0)) t" if "loop_rep [] t" for t
    by (rule wp_mono [OF createEventFd_succeeds [OF assms that]]) auto
  have ep: "os_epoll_create1 os w \<noteq> (-1, w')" for w w'
    using assms by (auto simp: kernel_works_def dest: spec [of _ w])
  have "wp (PollLoop_init os params) (\<lambda>r _. r = 0) (pl_empty params' w)"
    unfolding PollLoop_init_def initDataStructs_succeeds wp_simps wp_sys_iff
    by (intro conjI impI allI D) (use ep loop_rep_empty [of params' w] in \<open>auto simp: loop_rep_def pl_empty_def\<close>)
  then show ?thesis by (simp add: wp_def split: prod.splits)
qed

lemma sample_works: "kernel_works sample_os"
  by (simp add: kernel_works_def)

lemmas sample_init = init_succeeds [OF sample_works]

lemma sample_reachable: "\<exists>s. reachable sample_os params s"
proof -
  obtain s where "run_state (PollLoop_init sample_os params) (pl_empty params (sample_world '''')) = (0, s)"
    using sample_init by (metis prod.collapse)
  then show ?thesis by (blast intro: reachable.initialised)
qed

text \<open>A connection of a given executor in a loop whose data are in order.\<close>

lemma sample_connection:
  obtains a d s where "at [a] a d (s :: sample_world poll_loop)" "ed_pExecutor d = Some x" "ed_pollData0 d = None"
    "ed_pollData1 d = None" "ed_fd0 d = fd" "ed_removeOnTimeout d" "ed_lastProcessTime d = t" "ed_createTime d = t"
    "ed_retryCounter d = 0" "ed_state d = ES_invalid"
proof -
  let ?s = "pl_empty sp_defaults (sample_world [])"
  let ?G = "\<lambda>s. \<exists>a d. at [a] a d (s :: sample_world poll_loop) \<and> ed_pExecutor d = Some x \<and> ed_pollData0 d = None
    \<and> ed_pollData1 d = None \<and> ed_fd0 d = fd \<and> ed_removeOnTimeout d \<and> ed_lastProcessTime d = t \<and> ed_createTime d = t
    \<and> ed_retryCounter d = 0 \<and> ed_state d = ES_invalid"
  have "wp (do { x' \<leftarrow> createExecutorData sample_os; (case x' of None \<Rightarrow> State_Monad.return () | Some a \<Rightarrow> do {
      upd a (\<lambda>d. d\<lparr>ed_pExecutor := Some x\<rparr>); upd a (\<lambda>d. d\<lparr>ed_fd0 := fd\<rparr>);
      upd a (\<lambda>d. d\<lparr>ed_removeOnTimeout := True\<rparr>); upd a (\<lambda>d. d\<lparr>ed_lastProcessTime := t\<rparr>);
      upd a (\<lambda>d. d\<lparr>ed_createTime := t\<rparr>) }) }) (\<lambda>_. ?G) ?s"
    unfolding wp_bind
    apply (rule wp_createExecutorData [OF loop_rep_empty])
    apply (simp only: option.case wp_bind)
    apply (rule wp_upd_executor, assumption, simp add: ed_dead_def)
    apply (rule wp_upd_fd0, assumption, simp add: ed_dead_def, simp add: ed_dead_def)
    apply (rule wp_upd_free, assumption, rule free_upds)
    apply (rule wp_upd_free, assumption, rule free_upds)
    apply (rule wp_upd_free, assumption, rule free_upds)
    apply (intro exI conjI, assumption)
    by (auto simp: ed_dead_def)
  then obtain s where "?G s" by (auto simp: wp_def split: prod.splits)
  then show thesis using that by blast
qed

section \<open>Properties\<close>



text \<open>
  C3: No turn of a reachable loop opens a file whose name is not the root folder followed by a safe
  path: a kernel that misbehaves on every other name cannot be told apart.
\<close>

theorem open_inside_root:
  assumes "reachable os params s"
  shows "run_state (run_body (guard_open (under (root_name params)) other os)) s = run_state (run_body os) s"
  using guard_run_body [of "root_name params" other os] reachable_name_ok [OF assms] by (simp add: same_run_def)

lemma open_inside_root_witness:
  "\<exists>s. reachable sample_os sp_defaults s
    \<and> run_state (run_body (guard_open (under ''./data/'') (\<lambda>name w. (666, w)) sample_os)) s = run_state (run_body sample_os) s"
proof -
  have r: "root_name sp_defaults = ''./data/''"
    by (simp add: root_name_def sp_defaults_def MAX_FILE_NAME_def cstr_no_NUL)
  obtain s where s: "reachable sample_os sp_defaults s" using sample_reachable by blast
  from open_inside_root [OF s, of "\<lambda>name w. (666, w)"] s r show ?thesis by auto
qed



end
