(* ===== verification/ConnectionProperties.thy ===== *)
theory ConnectionProperties
  imports PollLoopProperties
begin

text \<open>
  Properties of the handlers of one connection, as the loop calls them.
\<close>

section \<open>Isolation and errors\<close>



lemma wp_run_pair: "wp m (\<lambda>r s. r = x \<and> Q s) s \<longleftrightarrow> (\<exists>s'. run_state m s = (x, s') \<and> Q s')"
  by (auto simp: wp_def split: prod.splits)

text \<open>
  C38: When accept fails on a listening socket, for whatever reason, the event takes down the whole
  loop with all its connections.
\<close>

theorem accept_failure_stops_loop:
  assumes "pd_execData (pl_polls s p) = Some a" "ed_pExecutor (pl_execs s a) \<in> {Some X_server, Some X_sslServer}"
    and "ed_state (pl_execs s a) = ES_ok" "pd_fd (pl_polls s p) = ed_fd0 (pl_execs s a)"
    and "\<not> has events EPOLLRDHUP" "\<not> has events EPOLLERR"
    and "os_accept4 os (ed_fd0 (pl_execs s a)) (pl_world s) = (-1, w)"
  shows "\<exists>s'. run_state (process_event os curMillis (events, p)) s = (Some False, s') \<and> loop_down s'"
proof -
  have F: "wp (finish_event os curMillis a PRES_shutdown) (\<lambda>r s. r = Some False \<and> loop_down s) t" for t
    unfolding finish_event_def wp_simps by simp (rule wp_mono [OF destroy_down], simp)
  have "wp (process_event os curMillis (events, p)) (\<lambda>r s. r = Some False \<and> loop_down s) s"
    unfolding process_event_def prod.case wp_simps
    using assms F
    by (auto simp: exec_def wp_simps ServerExecutor_process_def SslServerExecutor_process_def wp_sys_iff)
  then show ?thesis by (simp add: wp_run_pair)
qed

lemma accept_failure_stops_loop_witness:
  "\<exists>s s' :: sample_world poll_loop. pl_epollFd s = 3
    \<and> run_state (process_event (sample_os\<lparr>os_accept4 := \<lambda>fd w. (-1, w)\<rparr>) 1000 (EPOLLIN, 1)) s = (Some False, s')
    \<and> loop_down s'"
proof -
  let ?d = "ed_default\<lparr>ed_pExecutor := Some X_server, ed_state := ES_ok, ed_fd0 := 8\<rparr>"
  let ?s = "(pl_empty sp_defaults (sample_world []))\<lparr>pl_epollFd := 3, pl_execs := (\<lambda>_. ?d),
     pl_polls := (\<lambda>_. \<lparr>pd_fd = 8, pd_execData = Some 0\<rparr>)\<rparr>"
  have "\<exists>s'. run_state (process_event (sample_os\<lparr>os_accept4 := \<lambda>fd w. (-1, w)\<rparr>) 1000 (EPOLLIN, 1)) ?s = (Some False, s')
      \<and> loop_down s'"
    by (rule accept_failure_stops_loop [where a = 0 and w = "pl_world ?s"])
      (simp_all add: has_def EPOLLIN_def EPOLLRDHUP_def EPOLLERR_def)
  then obtain s' where "run_state (process_event (sample_os\<lparr>os_accept4 := \<lambda>fd w. (-1, w)\<rparr>) 1000 (EPOLLIN, 1)) ?s = (Some False, s')"
    "loop_down s'" by blast
  then show ?thesis by (intro exI [of _ ?s] exI [of _ s']) simp
qed

section \<open>The end of a connection\<close>

definition logs_closes :: "'w os \<Rightarrow> ('w \<Rightarrow> int list) \<Rightarrow> bool" where
  "logs_closes os closed \<longleftrightarrow> (\<forall>fd w. closed (snd (os_close os fd w)) = closed w @ [fd])
     \<and> (\<forall>ssl w. closed (snd (os_SSL_shutdown os ssl w)) = closed w)
     \<and> (\<forall>ssl w. closed (snd (os_SSL_free os ssl w)) = closed w)"

text \<open>
  C25: Taking an executor down closes each of its open descriptors exactly once and in order, and
  leaves none and no SSL object.
\<close>

theorem down_closes_all:
  assumes "logs_closes os closed"
  shows "closed (snd (ed_down os d w)) = closed w @ filter (\<lambda>fd. fd > 0) [ed_fd0 d, ed_fd1 d, ed_pipeReadFd d, ed_pipeWriteFd d]
    \<and> ed_fd0 (fst (ed_down os d w)) \<le> 0 \<and> ed_fd1 (fst (ed_down os d w)) \<le> 0
    \<and> ed_pipeReadFd (fst (ed_down os d w)) \<le> 0 \<and> ed_pipeWriteFd (fst (ed_down os d w)) \<le> 0
    \<and> ed_ssl (fst (ed_down os d w)) = None"
  using assms
  by (auto simp: logs_closes_def ed_down_def close_positive_def Let_def split: option.split prod.split)

lemma down_closes_all_witness:
  "sw_closed (snd (ed_down sample_os (ed_default\<lparr>ed_fd0 := 5, ed_pipeReadFd := 9, ed_ssl := Some 1\<rparr>) (sample_world [])))
     = [5, 9]"
proof -
  have "logs_closes sample_os sw_closed" by (simp add: logs_closes_def)
  from down_closes_all [OF this, of "ed_default\<lparr>ed_fd0 := 5, ed_pipeReadFd := 9, ed_ssl := Some 1\<rparr>" "sample_world []"]
  show ?thesis by (simp add: ed_default_def sample_world_def)
qed

section \<open>Answering with a file\<close>


text \<open>
  The headers leave the buffer from its front, and the executor goes on to the file only when none
  of them is left.
\<close>

theorem headers_before_file:
  fixes s :: "'w poll_loop"
  assumes "io_ok os" "at us a d s" "ed_pExecutor d \<noteq> None" "rb_straight (ed_buffer d)"
    and "run_state (process_sendHeaders (Executor_writeFd0 os) a) s = (r, s')"
  shows "suffix (rb_content (ed_buffer (pl_execs s' a))) (rb_content (ed_buffer d))
    \<and> (ed_state (pl_execs s' a) \<noteq> ed_state d \<or> r = PRES_removeExecutorOk \<longrightarrow> rb_content (ed_buffer (pl_execs s' a)) = [])"
  using wp_run [OF sendHeaders_at [OF write_ok_Executor [OF assms(1)] assms(2,3)] assms(5)] assms(4)
  by (auto simp: at_def)

text \<open>
  The position in the file and the bytes to send add up to the size of the file at all times, and
  success means that the last byte is out.
\<close>

theorem sendfile_exact:
  assumes "sendfile_ok os" "at us a d s" "0 \<le> ed_bytesToSend d"
    and "run_state (process_sendFile os a) s = (r, s')"
  shows "let d' = pl_execs s' a in
     ed_filePosition d' + ed_bytesToSend d' = ed_filePosition d + ed_bytesToSend d
     \<and> 0 \<le> ed_bytesToSend d' \<and> ed_bytesToSend d' \<le> ed_bytesToSend d
     \<and> (r = PRES_removeExecutorOk \<longrightarrow> ed_bytesToSend d' = 0 \<and> 0 < ed_bytesToSend d)"
  using wp_run [OF sendFile_at [OF assms(2)] assms(4)] assms(1,3) by (auto simp: Let_def at_def)

text \<open>
  A file of size 0 never ends with success: each event fails or counts a retry.
\<close>

theorem empty_file_never_succeeds:
  assumes "sendfile_ok os" "at us a d s" "ed_bytesToSend d = 0"
    and "run_state (process_sendFile os a) s = (r, s')"
  shows "r = PRES_removeExecutorError
    \<or> r = PRES_ok \<and> ed_retryCounter (pl_execs s' a) = ed_retryCounter d + 1 \<and> ed_bytesToSend (pl_execs s' a) = 0"
proof -
  have "wp (process_sendFile os a) (\<lambda>r s'. \<exists>d'. at us a d' s' \<and> (r = PRES_removeExecutorError
      \<or> r = PRES_ok \<and> ed_retryCounter d' = ed_retryCounter d + 1 \<and> ed_bytesToSend d' = 0)) s"
    using assms(2) unfolding process_sendFile_def wp_simps
    by - (intro conjI impI allI | rule loop_rules free_upds at_exI | assumption
      | (use assms(1,3) in \<open>auto dest: sendfile_okD\<close>; fail))+
  from wp_run [OF this assms(4)] show ?thesis by (auto simp: at_def)
qed

section \<open>Proxies\<close>



section \<open>The buffer of the file name\<close>

theorem file_name_fits:
  "n + 10 \<le> MAX_FILE_NAME \<Longrightarrow> length (fst (file_of_url n name url)) \<le> MAX_FILE_NAME"
  using file_name_bound by simp


section \<open>Concrete connections\<close>

text \<open>Any data without a registration can be those of the only connection of a loop.\<close>

lemma sample_at:
  assumes "exec_fields_ok d" "ed_pollData0 d = None" "ed_pollData1 d = None"
  obtains a s where "at [a] a d (s :: sample_world poll_loop)"
proof -
  let ?G = "\<lambda>s. \<exists>a. at [a] a d (s :: sample_world poll_loop)"
  have "wp (do { x \<leftarrow> createExecutorData sample_os; (case x of None \<Rightarrow> State_Monad.return () | Some a \<Rightarrow> upd a (\<lambda>_. d)) })
      (\<lambda>_. ?G) (pl_empty sp_defaults (sample_world []))"
    unfolding wp_bind
    apply (rule wp_createExecutorData [OF loop_rep_empty])
    apply (simp only: option.case wp_bind)
    apply (rule wp_upd, assumption)
    using assms by (auto simp: keeps_links_def ed_dead_def)
  then obtain s where "?G s" by (auto simp: wp_def split: prod.splits)
  then show thesis using that by blast
qed

lemma sample_at_polled:
  assumes "exec_fields_ok d" "ed_pollData0 d = None" "ed_pollData1 d = None"
  obtains a p s where "at [a] a (d\<lparr>ed_pollData0 := Some p\<rparr>) (s :: sample_world poll_loop)"
proof -
  obtain a and s :: "sample_world poll_loop" where s: "at [a] a d s" by (rule sample_at [OF assms])
  have "wp (addPollFd sample_os a (ed_fd0 d) EPOLLIN) (\<lambda>r s'. r = 0 \<longrightarrow> (\<exists>p. at [a] a (linked_poll (ed_fd0 d) p d) s')) s"
    by (rule wp_addPollFd [OF s]) auto
  moreover have "wp (addPollFd sample_os a (ed_fd0 d) EPOLLIN) (\<lambda>r _. r = 0) s"
    by (rule addPollFd_succeeds [OF s assms(2,3)]) auto
  ultimately obtain p s' where "at [a] a (linked_poll (ed_fd0 d) p d) (s' :: sample_world poll_loop)"
    by (auto simp: wp_def split: prod.splits)
  then show thesis using that by (simp add: linked_poll_def)
qed

definition sample_data :: "executor \<Rightarrow> executor_data" where
  "sample_data x = ed_default\<lparr>ed_pExecutor := Some x, ed_fd0 := 9, ed_buffer := rb_init 10000 rb_empty\<rparr>"

lemma sample_data_sel [simp]:
  "ed_pExecutor (sample_data x) = Some x" "ed_fd0 (sample_data x) = 9" "ed_fd1 (sample_data x) = -1"
  "ed_pollData0 (sample_data x) = None" "ed_pollData1 (sample_data x) = None" "ed_bytesInPipe (sample_data x) = 0"
  "ed_buffer (sample_data x) = rb_init 10000 rb_empty" "ed_bytesToSend (sample_data x) = 0"
  by (simp_all add: sample_data_def ed_default_def)

lemma sample_data_ok: "exec_fields_ok (sample_data x)" 
  by (simp add: exec_fields_ok_def sample_data_def ed_default_def rb_init_inv rb_inv_empty)

lemma length_404: "length notFound404_text < 10000"
  by code_simp


lemma headers_before_file_witness:
  "\<exists>a s s' r. run_state (process_sendHeaders (Executor_writeFd0 sample_os) a) (s :: sample_world poll_loop) = (r, s')
    \<and> suffix (rb_content (ed_buffer (pl_execs s' a))) (replicate 3 NUL)"
proof -
  let ?b = "rb_endWrite 3 (rb_init 10000 rb_empty)"
  let ?d = "(sample_data X_file)\<lparr>ed_buffer := ?b\<rparr>"
  have b: "rb_inv ?b" "rb_straight ?b" "rb_content ?b = (replicate 3 NUL)"
    by (simp_all add: rb_inv_def rb_straight_def rb_content_def rb_endWrite_def rb_init_def rb_empty_def mem_read_def)
  then have "exec_fields_ok ?d" by (simp add: exec_fields_ok_def)
  then obtain a and s :: "sample_world poll_loop" where s: "at [a] a ?d s" by (rule sample_at) simp_all
  obtain r s' where r: "run_state (process_sendHeaders (Executor_writeFd0 sample_os) a) s = (r, s')" by fastforce
  have "suffix (rb_content (ed_buffer (pl_execs s' a))) (rb_content (ed_buffer ?d))"
    by (rule headers_before_file [OF _ s _ _ r, THEN conjunct1]) (use sample_os_ok b in \<open>auto simp: os_ok_def\<close>)
  then show ?thesis using r b by (intro exI conjI) auto
qed

lemma sendfile_exact_witness:
  "\<exists>a s s' r. run_state (process_sendFile sample_os a) (s :: sample_world poll_loop) = (r, s')
    \<and> ed_filePosition (pl_execs s' a) + ed_bytesToSend (pl_execs s' a) = 10"
proof -
  let ?d = "(sample_data X_file)\<lparr>ed_bytesToSend := 7, ed_filePosition := 3\<rparr>"
  have "exec_fields_ok ?d" using sample_data_ok [of X_file] by (simp add: exec_fields_ok_def)
  then obtain a and s :: "sample_world poll_loop" where s: "at [a] a ?d s" by (rule sample_at) simp_all
  obtain r s' where r: "run_state (process_sendFile sample_os a) s = (r, s')" by fastforce
  from sendfile_exact [OF sample_os_ok(2) s _ r] r show ?thesis by (auto simp: Let_def)
qed

lemma empty_file_never_succeeds_witness:
  "\<exists>a s s' r. run_state (process_sendFile sample_os a) (s :: sample_world poll_loop) = (r, s')
    \<and> (r = PRES_removeExecutorError \<or> r = PRES_ok \<and> ed_bytesToSend (pl_execs s' a) = 0)"
proof -
  obtain a and s :: "sample_world poll_loop" where s: "at [a] a (sample_data X_file) s"
    by (rule sample_at [OF sample_data_ok [of X_file]]) simp_all
  obtain r s' where r: "run_state (process_sendFile sample_os a) s = (r, s')" by fastforce
  from empty_file_never_succeeds [OF sample_os_ok(2) s _ r] r show ?thesis by auto
qed


definition sample_proxies :: "proxy_parameters list" where
  "sample_proxies = map (\<lambda>prefix. \<lparr>px_prefix = prefix, px_address = [], px_port = 0, px_connectionType = CT_clear,
     px_socketType = ST_tcp\<rparr>) [''/b'', ''/app'']"


lemma file_name_fits_witness: "length (fst (file_of_url 7 ''./data/'' ''/'')) \<le> MAX_FILE_NAME"
  by (rule file_name_fits) (simp add: MAX_FILE_NAME_def)


section \<open>A request that never ends\<close>

text \<open>
  C39: A client whose bytes end inside the parameters of the URL keeps the thread of the poll loop in
  the parser for ever.
\<close>

theorem client_can_hang_loop:
  assumes d: "pl_execs s a = d" "pd_execData (pl_polls s p) = Some a" "pd_fd (pl_polls s p) = ed_fd0 d"
      "ed_pExecutor d = Some X_request" "ed_state d = ES_readRequest"
    and b: "rb_readHead (ed_buffer d) = 0" "rb_writeHead (ed_buffer d) = 0" "rb_inv (ed_buffer d)"
      "length bs \<le> rb_bufSize (ed_buffer d)" "ed_request d = rq_reset rq"
    and ev: "has events EPOLLIN" "\<not> has events EPOLLRDHUP" "\<not> has events EPOLLERR"
    and rd: "os_read os (ed_fd0 d) (rb_bufSize (ed_buffer d)) (pl_world s) = ((int (length bs), bs), w)"
    and bs: "bs = m @ SP # url @ CHR ''?'' # params" "\<forall>c \<in> set m. is_upper c" "\<forall>c \<in> set url. readUrlSymbols c"
      "SP \<notin> set params"
  shows "\<exists>s'. run_state (process_event os curMillis (events, p)) s = (None, s')"
proof -
  have P: "parse bs (rq_reset rq) = None"
    unfolding parse_hang_shape by (intro exI [of _ m] exI [of _ "[]"] exI [of _ url] exI [of _ params]) (use bs in simp)
  have l: "0 < length bs" using bs(1) by simp
  have c: "0 < rb_bufSize (ed_buffer d)" using l b(4) by linarith
  have sw: "rb_startWrite (ed_buffer d) = ((True, 0, rb_bufSize (ed_buffer d)), ed_buffer d)"
    using b(1,2) c by (auto simp: rb_startWrite_def Let_def)
  have len: "length (rb_buf (ed_buffer d)) = rb_bufSize (ed_buffer d)" using b(3) by (simp add: rb_inv_def)
  have sr: "rb_startRead (rb_endWrite (length bs) (rb_store 0 bs (ed_buffer d))) = (True, 0, length bs)"
    using b l by (simp add: rb_startRead_def rb_endWrite_def rb_store_def)
  have mr: "mem_read 0 (length bs) (rb_buf (rb_endWrite (length bs) (rb_store 0 bs (ed_buffer d)))) = bs"
    using b(4) len by (simp add: rb_endWrite_def rb_store_def mem_read_def mem_write_def)
  have "wp (process_event os curMillis (events, p)) (\<lambda>r _. r = None) s"
    unfolding process_event_def prod.case wp_simps
    using d ev
    apply (simp add: exec_def wp_simps RequestExecutor_process_def process_readRequest_def readRequest_def
        buf_startWrite_def sw Executor_readFd0_def wp_sys_iff rd l buf_store_def upd_def buf_endWrite_def retry_reset_def
        parseRequest_def buf_startRead_def buf_mem_def sr mr P b l [simplified])
    done
  then show ?thesis by (auto simp: wp_def split: prod.splits)
qed

lemma client_can_hang_loop_witness:
  "\<exists>s s' :: sample_world poll_loop. sw_input (pl_world s) = ''GET /?a''
    \<and> run_state (process_event sample_os 1000 (EPOLLIN, 1)) s = (None, s')"
proof -
  let ?d = "(sample_data X_request)\<lparr>ed_state := ES_readRequest, ed_request := rq_reset rq_init\<rparr>"
  let ?s = "(pl_empty sp_defaults (sample_world ''GET /?a''))\<lparr>pl_execs := (\<lambda>_. ?d),
     pl_polls := (\<lambda>_. \<lparr>pd_fd = 9, pd_execData = Some 0\<rparr>)\<rparr>"
  have "\<exists>s'. run_state (process_event sample_os 1000 (EPOLLIN, 1)) ?s = (None, s')"
    by (rule client_can_hang_loop [where a = 0 and d = ?d and bs = "''GET /?a''" and m = "''GET''" and url = "''/''"
        and params = "''a''" and rq = rq_init])
      (simp_all add: has_def EPOLLIN_def EPOLLRDHUP_def EPOLLERR_def rb_init_def rb_empty_def rb_inv_def pl_empty_def
        sample_world_def is_upper_def readUrlSymbols_def)
  then obtain s' where "run_state (process_event sample_os 1000 (EPOLLIN, 1)) ?s = (None, s')" ..
  then show ?thesis by (intro exI [of _ ?s] exI [of _ s']) (simp add: pl_empty_def sample_world_def)
qed

end
