(* ===== verification/FileServing.thy ===== *)
theory FileServing
  imports FileDelivery ConnectionProperties
begin

section \<open>One event\<close>

text \<open>
  The state between two events: still sending, with at least \<open>k\<close> bytes out, or over; \<open>complete\<close> when
  every call makes progress.
\<close>

definition under_way :: "bool \<Rightarrow> string \<Rightarrow> string \<Rightarrow> string \<Rightarrow> nat \<Rightarrow> nat \<Rightarrow> int \<Rightarrow> nat \<Rightarrow> ('w \<times> traffic) poll_loop \<Rightarrow> bool" where
  "under_way complete old hdr content a p c n s \<longleftrightarrow> in_order s \<and> (\<exists>k \<ge> n. sending old hdr content a p c k s
     \<or> closed old (hdr @ content) a p c k s \<and> (complete \<longrightarrow> k = length (hdr @ content)))"

lemma under_wayE:
  assumes "under_way complete old hdr content a p c n s"
  obtains k where "in_order s" "n \<le> k" "sending old hdr content a p c k s"
    | k where "in_order s" "n \<le> k" "closed old (hdr @ content) a p c k s" "complete \<longrightarrow> k = length (hdr @ content)"
  using assms unfolding under_way_def by (elim conjE exE disjE) blast+

lemma under_way_mono:
  assumes "under_way complete old hdr content a p c m s" "n \<le> m"
  shows "under_way complete old hdr content a p c n s"
  using assms(1)
proof (cases rule: under_wayE)
  case (1 k)
  then show ?thesis using assms(2) unfolding under_way_def by (intro conjI exI [of _ k]) auto
next
  case (2 k)
  then show ?thesis using assms(2) unfolding under_way_def by (intro conjI exI [of _ k]) auto
qed

definition writable :: "32 word \<Rightarrow> bool" where
  "writable ev \<longleftrightarrow> has ev EPOLLOUT \<and> \<not> has ev EPOLLRDHUP \<and> \<not> has ev EPOLLERR"

lemma sending_at:
  assumes "in_order s" "sending old hdr content a p c k s"
  obtains us where "at us a (pl_execs s a) s" "pl_polls s p = \<lparr>pd_fd = c, pd_execData = Some a\<rparr>"
proof -
  have x: "ed_pExecutor (pl_execs s a) = Some X_file" and p: "ed_pollData0 (pl_execs s a) = Some p" "ed_fd0 (pl_execs s a) = c"
    using assms(2) by (auto simp: sending_def connected_def)
  obtain us ps where us: "loop_rep us s" "loop_links us ps (pl_execs s) (pl_polls s)"
    using assms(1) by (auto simp: in_order_def loop_rep_def)
  have "a \<in> set us" using us(2) x by (auto simp: loop_links_def ed_dead_def)
  then have "pl_polls s p = \<lparr>pd_fd = c, pd_execData = Some a\<rparr>"
    using us(2) p by (auto simp: loop_links_def exec_links_ok_def)
  then show ?thesis using that us \<open>a \<in> set us\<close> by (auto simp: at_def)
qed

lemma process_handled:
  assumes ok: "io_ok os" "sendfile_ok os" and s: "at us a (pl_execs s a) s" "sending old hdr content a p c k s"
    and ev: "has ev EPOLLOUT"
  shows "wp (FileExecutor_process (logged os) a c ev) (handled os old hdr content a p c k) s"
proof -
  have inv: "rb_inv (ed_buffer (pl_execs s a))" using at_fields [OF s(1)] by (simp add: exec_fields_ok_def)
  show ?thesis
    unfolding FileExecutor_process_def FileExecutor_dispatch_def wp_simps
    by (rule wp_exec [OF s(1)])
      (use s(2) ev sendHeaders_handled [OF ok(1) inv s(2)] sendFile_handled [OF ok(2) s(2)]
        in \<open>auto simp: sending_def connected_def phase_def\<close>)
qed


lemma remove_under_way:
  assumes del: "epoll_del_ok os" and s: "in_loop us a s" and con: "connected a p c content s"
    and got: "client_got c (old @ take k (hdr @ content)) s" and k: "n \<le> k" "complete \<longrightarrow> k = length (hdr @ content)"
  shows "wp (removeExecutorData (logged os) a) (\<lambda>_. under_way complete old hdr content a p c n) s"
proof -
  from s obtain bs where at: "at (bs @ us) a (pl_execs s a) s" by (auto simp: in_loop_def at_def)
  have "owns (pl_execs s a) p" using con by (auto simp: connected_def owns_def)
  from remove_closed [OF at del this got] have "wp (removeExecutorData (logged os) a) (\<lambda>_. closed old (hdr @ content) a p c k) s"
    unfolding closed_def .
  moreover have "wp (removeExecutorData (logged os) a) (\<lambda>_. in_order) s"
    using removeExecutorData_order [OF _ s] del by simp
  ultimately have "wp (removeExecutorData (logged os) a) (\<lambda>_ s'. in_order s' \<and> closed old (hdr @ content) a p c k s') s"
    by (simp add: wp_conj)
  then show ?thesis by (rule wp_mono) (use k in \<open>auto simp: under_way_def\<close>)
qed

lemma finish_under_way:
  assumes del: "epoll_del_ok os" and s: "in_loop us a s" and h: "handled os old hdr content a p c k r s"
    and complete: "complete \<Longrightarrow> moves os c \<and> content \<noteq> []"
  shows "wp (finish_event (logged os) m a r) (\<lambda>x s'. x = Some True \<and>
     under_way complete old hdr content a p c (if complete then Suc k else k) s') s"
proof -
  from h obtain k' where k': "k \<le> k'" "connected a p c content s" "client_got c (old @ take k' (hdr @ content)) s"
    "r \<noteq> PRES_shutdown" "r = PRES_ok \<Longrightarrow> phase hdr content k' (pl_execs s a)"
    "r = PRES_removeExecutorOk \<Longrightarrow> k' = length (hdr @ content)"
    "complete \<Longrightarrow> k < k' \<and> r \<noteq> PRES_removeExecutorError \<and> ed_retryCounter (pl_execs s a) = 0"
    using complete by (auto simp: handled_def)
  let ?n = "if complete then Suc k else k"
  have R: "wp (removeExecutorData (logged os) a) (\<lambda>_. under_way complete old hdr content a p c ?n) s"
    if "r = PRES_removeExecutorOk \<or> \<not> complete"
    by (rule remove_under_way [OF del s k'(2,3)]) (use that k' in auto)
  have U: "wp (upd a (\<lambda>d. d\<lparr>ed_lastProcessTime := m\<rparr>)) (\<lambda>_. under_way complete old hdr content a p c ?n) s"
    if ok: "r = PRES_ok"
  proof (rule wp_mono [OF iffD2 [OF wp_conj conjI]])
    from s obtain bs where at: "at (bs @ us) a (pl_execs s a) s" by (auto simp: in_loop_def at_def)
    show "wp (upd a (\<lambda>d. d\<lparr>ed_lastProcessTime := m\<rparr>)) (\<lambda>_. in_order) s"
      by (rule wp_upd_free [OF at]) (auto simp: at_def in_order_def intro: free_upds)
    show "wp (upd a (\<lambda>d. d\<lparr>ed_lastProcessTime := m\<rparr>)) (\<lambda>_. sending old hdr content a p c k') s"
      using k'(2,3,5) ok by (auto simp: upd_def wp_simps sending_def connected_def client_got_def phase_def)
    show "under_way complete old hdr content a p c ?n s'" if "in_order s' \<and> sending old hdr content a p c k' s'" for s'
      using that k' unfolding under_way_def by (auto intro!: exI [of _ k'])
  qed
  show ?thesis
    unfolding finish_event_def wp_simps
    using k'(4,7) R U by (cases r) (auto simp: exec_def wp_simps MAX_RETRY_COUNTER_def)
qed

text \<open>An event of the connection, whatever its mask.\<close>

lemma event_sending:
  assumes ok: "os_ok os" "sendfile_ok os" and o: "in_order s" and s: "sending old hdr content a p c k s"
    and complete: "complete \<Longrightarrow> moves os c \<and> content \<noteq> [] \<and> writable ev"
  shows "wp (process_event (logged os) m (ev, p)) (\<lambda>x s'. x = Some True \<and>
     under_way complete old hdr content a p c (if complete then Suc k else k) s') s"
proof -
  have io: "io_ok os" and del: "epoll_del_ok os" using ok(1) by (simp_all add: os_ok_def)
  from sending_at [OF o s] obtain us where at: "at us a (pl_execs s a) s" and p: "pl_polls s p = \<lparr>pd_fd = c, pd_execData = Some a\<rparr>"
    by blast
  have d: "ed_pExecutor (pl_execs s a) = Some X_file" "ed_fd0 (pl_execs s a) = c" "ed_state (pl_execs s a) \<noteq> ES_invalid"
    using s by (auto simp: sending_def connected_def phase_def)
  let ?W = "under_way complete old hdr content a p c (if complete then Suc k else k)"
  have R: "wp (removeExecutorData (logged os) a) (\<lambda>_. ?W) s" if "\<not> writable ev"
    by (rule remove_under_way [OF del in_loopI [OF at]]) (use s complete that in \<open>auto simp: sending_def\<close>)
  have P: "wp (executor_process (logged os) X_file a c ev) (\<lambda>r s'. \<exists>y. r = Some y
      \<and> wp (finish_event (logged os) m a y) (\<lambda>x s'. x = Some True \<and> ?W s') s') s"
  proof (cases "has ev EPOLLOUT")
    case True
    have "wp (executor_process (logged os) X_file a c ev) (\<lambda>r s'. \<exists>y. r = Some y \<and> handled os old hdr content a p c k y s') s"
      using process_handled [OF io ok(2) at s True] by (simp add: wp_simps)
    moreover have "wp (executor_process (logged os) X_file a c ev) (\<lambda>_. in_loop us a) s"
      by (rule executor_process_in [OF _ at d(1)]) (use ok in simp)
    ultimately show ?thesis
      unfolding wp_conj [symmetric]
      by (rule wp_mono [OF iffD2 [OF wp_conj conjI]]) (use finish_under_way [OF del] complete in blast)
  next
    case False
    then have "\<not> writable ev" by (simp add: writable_def)
    with False R show ?thesis
      by (simp add: FileExecutor_process_def FileExecutor_dispatch_def finish_event_def wp_simps exec_def)
  qed
  show ?thesis
    unfolding process_event_def prod.case wp_simps
    using R P d p by (auto simp: exec_def wp_simps writable_def elim!: wp_mono)
qed

lemma event_under_way:
  assumes ok: "os_ok os" "sendfile_ok os" and s: "under_way complete old hdr content a p c n s"
    and complete: "complete \<Longrightarrow> moves os c \<and> content \<noteq> [] \<and> writable ev"
  shows "wp (process_event (logged os) m (ev, p)) (\<lambda>x s'. x = Some True \<and>
     under_way complete old hdr content a p c (if complete then min (Suc n) (length (hdr @ content)) else n) s') s"
proof -
  from s show ?thesis
  proof (cases rule: under_wayE)
    case (1 k)
    show ?thesis
      by (rule wp_mono [OF event_sending [OF ok 1(1,3) complete]], assumption)
        (use 1(2) in \<open>auto elim!: under_way_mono split: if_splits\<close>)
  next
    case (2 k)
    then show ?thesis
      by (auto simp: process_event_def wp_simps closed_def under_way_def intro!: exI [of _ k])
  qed
qed


section \<open>The turns of the loop\<close>

text \<open>
  Successive turns: each processes the events that one \<open>epoll_wait\<close> delivered, at the time it has read
  before. All events are those of the connection with poll data \<open>p\<close>.
\<close>

fun process_turns :: "'w os \<Rightarrow> (int \<times> (32 word \<times> nat) list) list \<Rightarrow> ('w poll_loop, bool option) state" where
  "process_turns os [] = State_Monad.return (Some True)"
| "process_turns os ((curMillis, es) # ts) = do {
     r \<leftarrow> process_events os curMillis es;
     if r = Some True then process_turns os ts else State_Monad.return r
   }"

definition events_of :: "(int \<times> (32 word \<times> nat) list) list \<Rightarrow> (32 word \<times> nat) list" where
  "events_of ts = concat (map snd ts)"

lemma min_min_Suc: "min (min (Suc n) L + m) L = min (n + Suc m) (L :: nat)"
  by simp

lemma events_under_way:
  assumes ok: "os_ok os" "sendfile_ok os" and s: "under_way complete old hdr content a p c n s"
    and es: "\<forall>e \<in> set es. snd e = p \<and> (complete \<longrightarrow> writable (fst e))"
    and complete: "complete \<Longrightarrow> moves os c \<and> content \<noteq> []"
  shows "wp (process_events (logged os) m es) (\<lambda>x s'. x = Some True \<and>
     under_way complete old hdr content a p c (if complete then min (n + length es) (length (hdr @ content)) else n) s') s"
  using s es
proof (induction es arbitrary: n s)
  case Nil
  then show ?case by (auto simp: wp_simps events_of_def elim!: under_way_mono)
next
  case (Cons e es)
  obtain ev where e: "e = (ev, p)" using Cons.prems(2) by (cases e) auto
  have "wp (process_event (logged os) m e) (\<lambda>x s'. x = Some True \<and>
     under_way complete old hdr content a p c (if complete then min (Suc n) (length (hdr @ content)) else n) s') s"
    unfolding e by (rule event_under_way [OF ok Cons.prems(1)]) (use complete Cons.prems(2) e in auto)
  then show ?case
    unfolding process_events.simps wp_simps
  proof (rule wp_mono, elim conjE, intro conjI impI)
    fix x and s' :: "('a \<times> traffic) poll_loop" assume u: "under_way complete old hdr content a p c (if complete then min (Suc n) (length (hdr @ content)) else n) s'"
    show "wp (process_events (logged os) m es) (\<lambda>x s'. x = Some True \<and> under_way complete old hdr content a p c
        (if complete then min (n + length (e # es)) (length (hdr @ content)) else n) s') s'"
      by (rule wp_mono [OF Cons.IH [OF u]]) (use Cons.prems(2) in \<open>auto simp: min_min_Suc elim!: under_way_mono\<close>)
  qed blast+
qed

lemma turns_under_way:
  assumes ok: "os_ok os" "sendfile_ok os" and s: "under_way complete old hdr content a p c n s"
    and ts: "\<forall>e \<in> set (events_of ts). snd e = p \<and> (complete \<longrightarrow> writable (fst e))"
    and complete: "complete \<Longrightarrow> moves os c \<and> content \<noteq> []"
  shows "wp (process_turns (logged os) ts) (\<lambda>x s'. x = Some True \<and> under_way complete old hdr content a p c
     (if complete then min (n + length (events_of ts)) (length (hdr @ content)) else n) s') s"
  using s ts
proof (induction ts arbitrary: n s)
  case Nil
  then show ?case by (auto simp: wp_simps events_of_def elim!: under_way_mono)
next
  case (Cons t ts)
  obtain m es where t: "t = (m, es)" by fastforce
  have "wp (process_events (logged os) m es) (\<lambda>x s'. x = Some True \<and>
     under_way complete old hdr content a p c (if complete then min (n + length es) (length (hdr @ content)) else n) s') s"
    by (rule events_under_way [OF ok Cons.prems(1) _ complete]) (use Cons.prems(2) t in \<open>auto simp: events_of_def\<close>)
  then show ?case
    unfolding t process_turns.simps wp_simps
  proof (rule wp_mono, elim conjE, intro conjI impI)
    fix x and s' :: "('a \<times> traffic) poll_loop" assume u: "under_way complete old hdr content a p c (if complete then min (n + length es) (length (hdr @ content)) else n) s'"
    show "wp (process_turns (logged os) ts) (\<lambda>x s'. x = Some True \<and> under_way complete old hdr content a p c
        (if complete then min (n + length (events_of ((m, es) # ts))) (length (hdr @ content)) else n) s') s'"
      by (rule wp_mono [OF Cons.IH [OF u]]) (use Cons.prems(2) in \<open>auto simp: events_of_def t elim!: under_way_mono\<close>)
  qed blast+
qed


section \<open>Properties\<close>

lemma under_way_start: "in_order s \<Longrightarrow> sending old hdr content a p c 0 s \<Longrightarrow> under_way complete old hdr content a p c 0 s"
  by (auto simp: under_way_def)

lemma sending_bound: "sending old hdr content a p c k s \<Longrightarrow> k \<le> length (hdr @ content)"
  by (auto simp: sending_def phase_def)

lemma sending_unfinished: "sending old hdr content a p c k s \<Longrightarrow> content \<noteq> [] \<Longrightarrow> k < length (hdr @ content)"
  by (auto simp: sending_def phase_def)

lemma under_way_done:
  assumes "under_way complete old hdr content a p c (length (hdr @ content)) s" "content \<noteq> []"
  shows "in_order s \<and> tr_put (snd (pl_world s)) c = old @ hdr @ content \<and> ed_dead (pl_execs s a) \<and> pd_execData (pl_polls s p) = None"
  using assms(1)
proof (cases rule: under_wayE)
  case (1 k)
  then show ?thesis using sending_unfinished [OF 1(3) assms(2)] by simp
next
  case (2 k)
  then show ?thesis by (simp add: closed_def client_got_def)
qed


text \<open>
  C7: A file is delivered: when the kernel moves some bytes whenever something is left to send, at most as
  many events as the response has bytes bring the client exactly the headers and the content. Then the
  connection is over, its descriptors are closed and its poll data are free.
\<close>

theorem file_delivered:
  assumes "os_ok os" "sendfile_ok os" "in_order s" "sending old hdr content a p c 0 s" "content \<noteq> []" "moves os c"
    and "\<forall>e \<in> set (events_of ts). snd e = p \<and> writable (fst e)" "length (hdr @ content) \<le> length (events_of ts)"
    and "run_state (process_turns (logged os) ts) s = (r, s')"
  shows "r = Some True \<and> in_order s' \<and> tr_put (snd (pl_world s')) c = old @ hdr @ content
    \<and> ed_dead (pl_execs s' a) \<and> pd_execData (pl_polls s' p) = None"
proof -
  have u: "r = Some True \<and> under_way True old hdr content a p c (length (hdr @ content)) s'"
    using wp_run [OF turns_under_way [OF assms(1,2) under_way_start [OF assms(3,4)], of ts True] assms(9)] assms(5-8)
    by (simp add: min_absorb2)
  with under_way_done [of True old hdr content a p c s'] assms(5) show ?thesis by simp
qed

section \<open>A concrete delivery\<close>

definition with_world :: "'v \<Rightarrow> 'w poll_loop \<Rightarrow> 'v poll_loop" where
  "with_world w s = \<lparr>pl_world = w, pl_execs = pl_execs s, pl_polls = pl_polls s, pl_execDatas = pl_execDatas s,
     pl_pollDatas = pl_pollDatas s, pl_numOfPollFds = pl_numOfPollFds s, pl_epollFd = pl_epollFd s,
     pl_eventFd = pl_eventFd s, pl_lastCheckTimeoutMillis = pl_lastCheckTimeoutMillis s,
     pl_fileNameBuffer = pl_fileNameBuffer s, pl_rootFolderLength = pl_rootFolderLength s, pl_parameters = pl_parameters s\<rparr>"

lemma with_world_at: "at us a d (with_world w s) = at us a d s" "pl_world (with_world w s) = w"
  by (simp_all add: with_world_def at_def loop_rep_def)

definition sample_traffic :: "string \<Rightarrow> traffic" where
  "sample_traffic file = \<lparr>tr_got = \<lambda>_. [], tr_put = \<lambda>_. [], tr_sput = \<lambda>_. [], tr_files = \<lambda>_. file\<rparr>"

definition sample_sender :: executor_data where
  "sample_sender = (sample_data X_file)\<lparr>ed_state := ES_sendHeaders, ed_fd1 := 5, ed_bytesToSend := 3,
     ed_buffer := rb_endWrite 2 (rb_store 0 ''HH'' (rb_init 4 rb_empty))\<rparr>"

lemma sample_sending:
  obtains a p and s :: "(sample_world \<times> traffic) poll_loop"
  where "in_order s" "sending [] ''HH'' ''abc'' a p 9 0 s"
proof -
  have "exec_fields_ok sample_sender"
    by (simp add: exec_fields_ok_def sample_sender_def rb_inv_def rb_endWrite_def rb_store_def rb_init_def rb_empty_def mem_write_def Let_def)
  then obtain a p and s :: "sample_world poll_loop" where s: "at [a] a (sample_sender\<lparr>ed_pollData0 := Some p\<rparr>) s"
    by (rule sample_at_polled) (simp_all add: sample_sender_def)
  let ?s = "with_world (sample_world [], sample_traffic ''abc'') s"
  have at: "at [a] a (sample_sender\<lparr>ed_pollData0 := Some p\<rparr>) ?s" using s by (simp add: with_world_at)
  have ed: "pl_execs ?s a = sample_sender\<lparr>ed_pollData0 := Some p\<rparr>" by (rule atD(2) [OF at])
  have pos: "ed_filePosition sample_sender = 0" by (simp add: sample_sender_def sample_data_def ed_default_def)
  have "sending [] ''HH'' ''abc'' a p 9 0 ?s"
    unfolding sending_def connected_def phase_def client_got_def ed
    using pos by (simp add: with_world_at sample_traffic_def sample_sender_def rb_straight_def rb_content_def rb_endWrite_def rb_store_def
        rb_init_def rb_empty_def mem_read_def mem_write_def Let_def)
  then show thesis using that at by (auto simp: at_def in_order_def)
qed

lemma sample_moves: "moves sample_os c"
  by (auto simp: moves_def)

lemma writable_EPOLLOUT: "writable EPOLLOUT"
  by (simp add: writable_def has_def EPOLLOUT_def EPOLLRDHUP_def EPOLLERR_def)


lemma file_delivered_witness:
  "\<exists>p s s'. run_state (process_turns (logged sample_os) (replicate 5 (7, [(EPOLLOUT, p)])))
       (s :: (sample_world \<times> traffic) poll_loop) = (Some True, s')
     \<and> tr_put (snd (pl_world s')) 9 = ''HHabc'' \<and> pd_execData (pl_polls s' p) = None"
proof -
  obtain a p and s :: "(sample_world \<times> traffic) poll_loop" where s: "in_order s" "sending [] ''HH'' ''abc'' a p 9 0 s"
    by (rule sample_sending)
  let ?ts = "replicate 5 (7 :: int, [(EPOLLOUT, p)])"
  obtain r s' where r: "run_state (process_turns (logged sample_os) ?ts) s = (r, s')" by fastforce
  have "events_of ?ts = replicate 5 (EPOLLOUT, p)" by (simp add: events_of_def numeral_eq_Suc)
  with file_delivered [OF sample_os_ok s _ sample_moves _ _ r] r show ?thesis
    by (simp add: writable_EPOLLOUT) blast
qed

end
