(* ===== verification/HttpRequestRender.thy ===== *)
theory HttpRequestRender
  imports HttpRequestUrl
begin

text \<open>
  The round trip of the request parser: a request written out from a method, a URL, headers
  and a body is parsed back into those parts. One lemma per state of the parser says what the
  loop does from the text that lies ahead, and \<open>parse_headers\<close> puts them together by
  induction on the headers.
\<close>

section \<open>What the parser recovers\<close>

text \<open>The text of a request, from its parts.\<close>

definition crlf :: string where
  "crlf = [CR, LF]"

fun render_headers :: "(string \<times> string) list \<Rightarrow> string" where
  "render_headers [] = []"
| "render_headers ((k, v) # hs) = k @ CHR '':'' # SP # v @ crlf @ render_headers hs"

definition render_request :: "string \<Rightarrow> string \<Rightarrow> string \<Rightarrow> (string \<times> string) list \<Rightarrow> string \<Rightarrow> string" where
  "render_request m u ver hs body = m @ SP # u @ SP # ver @ crlf @ render_headers hs @ crlf @ body"

definition length_key :: "string \<Rightarrow> bool" where
  "length_key k \<longleftrightarrow> strncasecmp_eq ''Content-Length'' k (length k)"

definition wf_header :: "string \<times> string \<Rightarrow> bool" where
  "wf_header h \<longleftrightarrow> (case h of (k, v) \<Rightarrow> (\<forall>c \<in> set k. readHeaderKeySymbols c)
     \<and> v \<noteq> [] \<and> hd v \<noteq> SP \<and> hd v \<noteq> CHR '':'' \<and> (\<forall>c \<in> set v. \<not> is_break c)
     \<and> (length_key k \<longrightarrow> length v \<le> BUF_CHARS))"

text \<open>The content length the headers declare: the last of them that counts as one.\<close>

fun declared_length :: "int \<Rightarrow> (string \<times> string) list \<Rightarrow> int" where
  "declared_length n [] = n"
| "declared_length n ((k, v) # hs) =
     declared_length (if length_key k then atoi (cstr v) else n) hs"

definition field_text :: "string \<Rightarrow> field \<Rightarrow> string" where
  "field_text d f = mem_read (fld_start f) (fld_length f) d"

definition header_texts :: "http_request \<Rightarrow> (string \<times> string) list" where
  "header_texts r = map (\<lambda>h. (field_text (rq_data r) (hdr_key h), field_text (rq_data r) (hdr_value h)))
     (rq_headers r)"

subsection \<open>One step from what lies ahead\<close>

lemma scan_at:
  assumes "drop i d = xs @ c # ys" "\<forall>x \<in> set xs. p x" "\<not> p c"
  shows "scan p d i = i + length xs" "i + length xs < length d" "d ! (i + length xs) = c"
    "drop (i + length xs) d = c # ys"
proof -
  show "scan p d i = i + length xs" using assms by (simp add: scan_takeWhile)
  have "length (drop i d) = length (xs @ c # ys)" using assms(1) by simp
  then show l: "i + length xs < length d" by simp
  have "drop (length xs) (drop i d) = c # ys" unfolding assms(1) by simp
  then show dr: "drop (i + length xs) d = c # ys" by (simp add: add.commute)
  show "d ! (i + length xs) = c" using l hd_drop_conv_nth [of "i + length xs" d] by (simp add: dr)
qed

lemma scan_to_end:
  assumes "drop i d = xs" "\<forall>x \<in> set xs. p x" "i \<le> length d"
  shows "scan p d i = length d"
proof -
  have "takeWhile p (drop i d) = drop i d" using assms by (simp add: takeWhile_eq_all_conv)
  then have "length (takeWhile p (drop i d)) = length d - i" by (simp only: length_drop)
  then show ?thesis using assms(3) by (simp only: scan_takeWhile)
qed

lemma mem_read_at: "drop i d = xs @ ys \<Longrightarrow> mem_read i (length xs) d = xs"
  by (simp add: mem_read_def)

lemma drop_plus:
  assumes "drop i d = xs @ ys"
  shows "drop (i + length xs) d = ys"
proof -
  have "drop (length xs) (drop i d) = ys" unfolding assms by simp
  then show ?thesis by (simp add: add.commute)
qed

lemma not_symbols [simp]:
  "\<not> is_upper SP" "\<not> readUrlSymbols SP" "\<not> readHeaderKeySymbols (CHR '':'')"
  "\<not> readHeaderKeySymbols CR" "\<not> readHeaderKeySymbols LF" "\<not> readUrlSymbols (CHR ''?'')"
  by (simp_all add: is_upper_def readUrlSymbols_def readHeaderKeySymbols_def is_lower_def is_digit_def)

lemma key_symbol_not_break: "readHeaderKeySymbols c \<Longrightarrow> \<not> is_break c"
  by (auto simp: is_break_def)

lemma step_method:
  assumes "rq_state r = S_method" "drop (rq_cur r) (rq_data r) = m @ SP # t" "\<forall>c \<in> set m. is_upper c"
  shows "parseInternal r = parseInternal (r\<lparr>rq_methodStart := rq_cur r, rq_methodLength := length m,
      rq_cur := rq_cur r + length m, rq_state := S_spaceAfterMethod\<rparr>)"
  using assms scan_at [OF assms(2,3)]
  by (intro parseInternal_Inl) (simp add: parse_step_defs readMethod_def)

lemma step_spaces:
  assumes "rq_state r = S_spaceAfterMethod" "drop (rq_cur r) (rq_data r) = SP # c # t"
    "c \<noteq> SP" "\<not> is_break c"
  shows "parseInternal r = parseInternal (r\<lparr>rq_cur := rq_cur r + 1, rq_state := S_url\<rparr>)"
  using assms scan_at [of "rq_cur r" "rq_data r" "[SP]" c t "\<lambda>c. c = SP"]
  by (intro parseInternal_Inl) (simp add: parse_step_defs readSpaces_def is_break_def)

lemma step_url:
  assumes "rq_state r = S_url" "drop (rq_cur r) (rq_data r) = u @ SP # t" "\<forall>c \<in> set u. readUrlSymbols c"
  shows "parseInternal r = parseInternal (r\<lparr>rq_urlStart := rq_cur r, rq_urlLength := length u,
      rq_cur := rq_cur r + length u, rq_state := S_spaceAfterUrl\<rparr>)"
  using assms scan_at [OF assms(2,3)]
  by (intro parseInternal_Inl) (simp add: parse_step_defs readUrl_def)

lemma lineBreakCounter_at:
  "drop i d = xs @ ys \<Longrightarrow> lineBreakCounter d i (i + length xs) = length (filter (\<lambda>c. c = LF) xs)"
  by (simp add: lineBreakCounter_def mem_read_at)

lemma step_nextLine:
  assumes st: "rq_state r = S_spaceAfterUrl" and d: "drop (rq_cur r) (rq_data r) = x @ crlf @ c # t"
    and x: "\<forall>c \<in> set x. \<not> is_break c" and c: "\<not> is_break c"
  shows "parseInternal r = parseInternal (r\<lparr>rq_cur := rq_cur r + length x + 2, rq_state := S_headerKey\<rparr>)"
proof -
  have i: "scan (\<lambda>c. \<not> is_break c) (rq_data r) (rq_cur r) = rq_cur r + length x"
    "rq_cur r + length x < rq_size r" "drop (rq_cur r + length x) (rq_data r) = crlf @ c # t"
    using scan_at [of "rq_cur r" "rq_data r" x CR "LF # c # t" "\<lambda>c. \<not> is_break c"] d x
    by (simp_all add: crlf_def)
  have j: "scan is_break (rq_data r) (rq_cur r + length x) = rq_cur r + length x + 2"
    "rq_cur r + length x + 2 < rq_size r"
    using scan_at [OF i(3), of is_break] c by (simp_all add: crlf_def)
  have "lineBreakCounter (rq_data r) (rq_cur r + length x) (rq_cur r + length x + 2) = 1"
    using lineBreakCounter_at [OF i(3)] by (simp add: crlf_def)
  then show ?thesis
    using st i j by (intro parseInternal_Inl) (simp add: parse_step_defs readToNextLine_def)
qed

lemma step_key:
  assumes "rq_state r = S_headerKey" "drop (rq_cur r) (rq_data r) = k @ CHR '':'' # t"
    "\<forall>c \<in> set k. readHeaderKeySymbols c"
  shows "parseInternal r = parseInternal (r\<lparr>rq_curKey := \<lparr>fld_start = rq_cur r, fld_length = length k\<rparr>,
      rq_cur := rq_cur r + length k, rq_state := S_headerSpace\<rparr>)"
  using assms scan_at [OF assms(2,3)]
  by (intro parseInternal_Inl) (simp add: parse_step_defs readHeaderKey_def)

lemma step_space:
  assumes "rq_state r = S_headerSpace" "drop (rq_cur r) (rq_data r) = CHR '':'' # SP # c # t"
    "c \<noteq> SP" "c \<noteq> CHR '':''" "\<not> is_break c"
  shows "parseInternal r = parseInternal (r\<lparr>rq_cur := rq_cur r + 2, rq_state := S_headerValue\<rparr>)"
  using assms scan_at [of "rq_cur r" "rq_data r" "[CHR '':'', SP]" c t "\<lambda>c. c = CHR '':'' \<or> c = SP"]
  by (intro parseInternal_Inl) (simp add: parse_step_defs readHeaderSpace_def is_break_def)

text \<open>A whole header line, from its key to the line break after its value.\<close>

definition after_header :: "string \<Rightarrow> string \<Rightarrow> http_request \<Rightarrow> http_request" where
  "after_header k v r =
     r\<lparr>rq_curKey := \<lparr>fld_start = rq_cur r, fld_length = length k\<rparr>,
       rq_headers := rq_headers r @ [\<lparr>hdr_key = \<lparr>fld_start = rq_cur r, fld_length = length k\<rparr>,
          hdr_value = \<lparr>fld_start = rq_cur r + length k + 2, fld_length = length v\<rparr>\<rparr>],
       rq_contentLength := (if length_key k then atoi (cstr v) else rq_contentLength r),
       rq_cur := rq_cur r + length k + 2 + length v, rq_state := S_headerLineBreak\<rparr>"

lemma step_header:
  assumes st: "rq_state r = S_headerKey"
    and d: "drop (rq_cur r) (rq_data r) = k @ CHR '':'' # SP # v @ crlf @ t" and wf: "wf_header (k, v)"
  shows "parseInternal r = parseInternal (after_header k v r)"
proof -
  obtain c v' where v: "v = c # v'" using wf by (cases v) (auto simp: wf_header_def)
  let ?r1 = "r\<lparr>rq_curKey := \<lparr>fld_start = rq_cur r, fld_length = length k\<rparr>,
      rq_cur := rq_cur r + length k, rq_state := S_headerSpace\<rparr>"
  let ?r2 = "?r1\<lparr>rq_cur := rq_cur ?r1 + 2, rq_state := S_headerValue\<rparr>"
  have d1: "drop (rq_cur ?r1) (rq_data ?r1) = [CHR '':'', SP] @ v @ crlf @ t"
    using drop_plus [OF d] by simp
  have d2: "drop (rq_cur ?r2) (rq_data ?r2) = v @ CR # LF # t"
    using drop_plus [OF d1] by (simp add: crlf_def)
  have 1: "parseInternal r = parseInternal ?r1"
    using st d wf by (intro step_key) (auto simp: wf_header_def)
  have 2: "parseInternal ?r1 = parseInternal ?r2"
    using d1 wf v by (intro step_space [of _ c]) (auto simp: wf_header_def)
  have key: "is_length_key ?r2 = length_key k"
    using strncasecmp_eq_append [of "length k" k] d by (simp add: is_length_key_def length_key_def)
  have val: "readHeaderValue ?r2 = (RR_ok, length v)"
    using scan_at [OF d2, of "\<lambda>c. \<not> is_break c"] wf by (simp add: readHeaderValue_def wf_header_def)
  have len: "content_length_of (rq_data ?r2) (hdr_value (value_header ?r2 (length v))) = atoi (cstr v)"
    using mem_read_at [OF d2] by (simp add: content_length_of_def value_header_def)
  have 3: "parseInternal ?r2 = parseInternal (after_header k v r)"
  proof (cases "length_key k")
    case True
    then show ?thesis
      using parse_step_headerValue(2) [of ?r2 "length v"] key val len wf
      by (intro parseInternal_Inl) (simp add: wf_header_def after_header_def value_header_def)
  next
    case False
    then show ?thesis
      using parse_step_headerValue(1) [of ?r2 "length v"] key val
      by (intro parseInternal_Inl) (simp add: after_header_def value_header_def)
  qed
  show ?thesis using 1 2 3 by simp
qed

lemma after_header_drop:
  assumes "drop (rq_cur r) (rq_data r) = k @ CHR '':'' # SP # v @ crlf @ t"
  shows "drop (rq_cur (after_header k v r)) (rq_data (after_header k v r)) = crlf @ t"
  using drop_plus [of "rq_cur r" "rq_data r" "k @ [CHR '':'', SP] @ v"] assms
  by (simp add: after_header_def algebra_simps)

lemma after_header_texts:
  assumes "drop (rq_cur r) (rq_data r) = k @ CHR '':'' # SP # v @ crlf @ t"
  shows "header_texts (after_header k v r) = header_texts r @ [(k, v)]"
proof -
  have "mem_read (rq_cur r) (length k) (rq_data r) = k"
    by (rule mem_read_at) (use assms in simp)
  moreover have "mem_read (rq_cur r + length k + 2) (length v) (rq_data r) = v"
    by (rule mem_read_at) (use drop_plus [of "rq_cur r" "rq_data r" "k @ [CHR '':'', SP]"] assms in
        \<open>simp add: algebra_simps\<close>)
  ultimately show ?thesis by (simp add: header_texts_def field_text_def after_header_def)
qed

lemma step_lineBreak:
  assumes st: "rq_state r = S_headerLineBreak"
    and d: "drop (rq_cur r) (rq_data r) = crlf @ c # t" and c: "\<not> is_break c"
  shows "parseInternal r = parseInternal (r\<lparr>rq_cur := rq_cur r + 2, rq_state := S_headerKey\<rparr>)"
proof -
  have "scan is_break (rq_data r) (rq_cur r) = rq_cur r + 2" "rq_cur r + 2 < rq_size r"
    using scan_at [OF d, of is_break] c by (simp_all add: crlf_def)
  moreover have "lineBreakCounter (rq_data r) (rq_cur r) (rq_cur r + 2) = 1"
    using lineBreakCounter_at [OF d] by (simp add: crlf_def)
  ultimately show ?thesis
    using st by (intro parseInternal_Inl) (simp add: parse_step_defs readHeaderLineBreak_def)
qed

lemma end_of_headers:
  assumes st: "rq_state r = S_headerLineBreak"
    and d: "drop (rq_cur r) (rq_data r) = crlf @ crlf @ body" and b: "body = [] \<or> \<not> is_break (hd body)"
  shows "readHeaderLineBreak r = (RR_endOfHeaders, 4)"
proof -
  have s: "scan is_break (rq_data r) (rq_cur r) = rq_cur r + 4"
  proof (cases body)
    case Nil
    have "scan is_break (rq_data r) (rq_cur r) = rq_size r"
      using scan_to_end [OF d, of is_break] d Nil by (cases "rq_cur r \<le> rq_size r") (auto simp: crlf_def)
    moreover have "rq_size r - rq_cur r = 4" using arg_cong [OF d, of length] Nil by (simp add: crlf_def)
    ultimately show ?thesis by simp
  next
    case (Cons c t)
    then show ?thesis
      using scan_at [of "rq_cur r" "rq_data r" "crlf @ crlf" c t is_break] d b by (simp add: crlf_def)
  qed
  have "lineBreakCounter (rq_data r) (rq_cur r) (rq_cur r + 4) = 2"
    using lineBreakCounter_at [of "rq_cur r" "rq_data r" "crlf @ crlf" body] d by (simp add: crlf_def numeral_eq_Suc)
  with s show ?thesis by (simp add: readHeaderLineBreak_def)
qed

text \<open>What a finished parse has recorded of the request line, kept by every later step.\<close>

definition same_line :: "http_request \<Rightarrow> http_request \<Rightarrow> bool" where
  "same_line r r' \<longleftrightarrow> rq_data r' = rq_data r \<and> rq_methodStart r' = rq_methodStart r
     \<and> rq_methodLength r' = rq_methodLength r \<and> rq_urlStart r' = rq_urlStart r
     \<and> rq_urlLength r' = rq_urlLength r \<and> rq_urlBuffer r' = rq_urlBuffer r
     \<and> rq_urlBufferSize r' = rq_urlBufferSize r"

lemma parse_end:
  assumes st: "rq_state r = S_headerLineBreak"
    and d: "drop (rq_cur r) (rq_data r) = crlf @ crlf @ body" and b: "body = [] \<or> \<not> is_break (hd body)"
    and len: "rq_contentLength r \<le> int (length body)"
  shows "\<exists>r'. parseInternal r = Some (PR_finishOk, r') \<and> same_line r r' \<and> rq_state r' = S_finishOk
    \<and> rq_headers r' = rq_headers r \<and> rq_contentLength r' = rq_contentLength r
    \<and> (rq_contentLength r \<noteq> 0 \<longrightarrow> drop (rq_contentStart r') (rq_data r') = body)"
proof (cases "rq_contentLength r = 0")
  case True
  then have "parse_step r = Inr (PR_finishOk, r\<lparr>rq_state := S_finishOk\<rparr>)"
    using st end_of_headers [OF st d b] by (simp add: parse_step_defs)
  then show ?thesis using True by (simp add: parseInternal_Inr same_line_def)
next
  case False
  let ?r = "r\<lparr>rq_cur := rq_cur r + 4, rq_state := S_content\<rparr>"
  have 1: "parse_step r = Inl ?r"
    using False st end_of_headers [OF st d b] by (simp add: parse_step_defs)
  have d': "drop (rq_cur r + 4) (rq_data r) = body"
    using drop_plus [of "rq_cur r" "rq_data r" "crlf @ crlf" body] d by (simp add: crlf_def numeral_eq_Suc)
  have "length (drop (rq_cur r) (rq_data r)) = 4 + length body" by (simp add: d crlf_def)
  then have "int (rq_size r) - int (rq_cur r + 4) = int (length body)" by simp
  then have 2: "parse_step ?r = Inr (PR_finishOk, ?r\<lparr>rq_contentStart := rq_cur ?r, rq_state := S_finishOk\<rparr>)"
    using len by (simp add: parse_step_defs)
  show ?thesis using d' by (simp add: parseInternal_Inl [OF 1] parseInternal_Inr [OF 2] same_line_def)
qed

lemma render_headers_first:
  "hs \<noteq> [] \<Longrightarrow> list_all wf_header hs \<Longrightarrow> \<exists>c t. render_headers hs @ x = c # t \<and> \<not> is_break c"
proof (cases hs)
  case (Cons h hs')
  assume wf: "list_all wf_header hs"
  obtain k v where h: "h = (k, v)" by fastforce
  show ?thesis
  proof (cases k)
    case Nil
    then show ?thesis by (simp add: Cons h is_break_def)
  next
    case (Cons a k')
    then have "\<not> is_break a"
      using wf key_symbol_not_break by (simp add: \<open>hs = h # hs'\<close> h wf_header_def)
    then show ?thesis using Cons by (simp add: \<open>hs = h # hs'\<close> h)
  qed
qed simp

lemma parse_headers:
  assumes "rq_state r = S_headerKey" "drop (rq_cur r) (rq_data r) = render_headers hs @ crlf @ body"
    "hs \<noteq> []" "list_all wf_header hs" "body = [] \<or> \<not> is_break (hd body)"
    "declared_length (rq_contentLength r) hs \<le> int (length body)"
  shows "\<exists>r'. parseInternal r = Some (PR_finishOk, r') \<and> same_line r r' \<and> rq_state r' = S_finishOk
    \<and> header_texts r' = header_texts r @ hs \<and> rq_contentLength r' = declared_length (rq_contentLength r) hs
    \<and> (rq_contentLength r' \<noteq> 0 \<longrightarrow> drop (rq_contentStart r') (rq_data r') = body)"
  using assms
proof (induction hs arbitrary: r)
  case Nil
  then show ?case by simp
next
  case (Cons h hs)
  obtain k v where h: "h = (k, v)" by fastforce
  have d: "drop (rq_cur r) (rq_data r) = k @ CHR '':'' # SP # v @ crlf @ render_headers hs @ crlf @ body"
    using Cons.prems(2) h by simp
  let ?r = "after_header k v r"
  have p: "parseInternal r = parseInternal ?r"
    using step_header [OF Cons.prems(1) d] Cons.prems(4) h by simp
  note d' = after_header_drop [OF d] and t = after_header_texts [OF d]
  have cl: "declared_length (rq_contentLength r) (h # hs) = declared_length (rq_contentLength ?r) hs"
    by (simp add: h after_header_def)
  have st: "rq_state ?r = S_headerLineBreak" and sl: "same_line r ?r"
    by (simp_all add: after_header_def same_line_def)
  show ?case
  proof (cases "hs = []")
    case True
    obtain r' where "parseInternal ?r = Some (PR_finishOk, r')" "same_line ?r r'" "rq_state r' = S_finishOk"
      "rq_headers r' = rq_headers ?r" "rq_contentLength r' = rq_contentLength ?r"
      "rq_contentLength ?r \<noteq> 0 \<longrightarrow> drop (rq_contentStart r') (rq_data r') = body"
      using parse_end [OF st _ Cons.prems(5)] d' Cons.prems(6) cl True by auto
    then show ?thesis
      using p t sl cl True h by (intro exI [of _ r']) (auto simp: same_line_def header_texts_def)
  next
    case False
    let ?r2 = "?r\<lparr>rq_cur := rq_cur ?r + 2, rq_state := S_headerKey\<rparr>"
    obtain c x where "render_headers hs @ crlf @ body = c # x" "\<not> is_break c"
      using render_headers_first [OF False, of "crlf @ body"] Cons.prems(4) by auto
    then have 2: "parseInternal ?r = parseInternal ?r2"
      using step_lineBreak [OF st] d' by simp
    have d2: "drop (rq_cur ?r2) (rq_data ?r2) = render_headers hs @ crlf @ body"
      using drop_plus [OF d'] by (simp add: crlf_def)
    have "\<exists>r'. parseInternal ?r2 = Some (PR_finishOk, r') \<and> same_line ?r2 r' \<and> rq_state r' = S_finishOk
      \<and> header_texts r' = header_texts ?r2 @ hs
      \<and> rq_contentLength r' = declared_length (rq_contentLength ?r2) hs
      \<and> (rq_contentLength r' \<noteq> 0 \<longrightarrow> drop (rq_contentStart r') (rq_data r') = body)"
      by (rule Cons.IH) (use Cons.prems d2 cl False in auto)
    moreover have "header_texts ?r2 = header_texts r @ [(k, v)]"
      using t by (simp add: header_texts_def)
    ultimately show ?thesis
      using p 2 sl cl h by (auto simp: same_line_def)
  qed
qed

subsection \<open>The whole request\<close>

definition wf_request :: "string \<Rightarrow> string \<Rightarrow> string \<Rightarrow> (string \<times> string) list \<Rightarrow> string \<Rightarrow> bool" where
  "wf_request m u ver hs body \<longleftrightarrow> (\<forall>c \<in> set m. is_upper c)
     \<and> u \<noteq> [] \<and> (\<forall>c \<in> set u. readUrlSymbols c) \<and> (\<forall>c \<in> set ver. \<not> is_break c)
     \<and> hs \<noteq> [] \<and> list_all wf_header hs \<and> (body = [] \<or> \<not> is_break (hd body))
     \<and> declared_length 0 hs \<le> int (length body)"

definition method_text :: "http_request \<Rightarrow> string" where
  "method_text r = mem_read (rq_methodStart r) (rq_methodLength r) (rq_data r)"

lemma url_symbol_not_break: "readUrlSymbols c \<Longrightarrow> \<not> is_break c"
  by (auto simp: is_break_def readUrlSymbols_def is_lower_def is_upper_def is_digit_def)

text \<open>The request line.\<close>

definition after_line :: "string \<Rightarrow> string \<Rightarrow> string \<Rightarrow> http_request \<Rightarrow> http_request" where
  "after_line m u ver r = r\<lparr>rq_methodStart := rq_cur r, rq_methodLength := length m, rq_urlStart := rq_cur r + length m + 1,
     rq_urlLength := length u, rq_cur := rq_cur r + length m + 1 + length u + length (SP # ver) + 2, rq_state := S_headerKey\<rparr>"

lemma parse_line:
  assumes st: "rq_state r = S_method" and d: "drop (rq_cur r) (rq_data r) = m @ [SP] @ u @ (SP # ver) @ crlf @ rest"
    and wf: "\<forall>c \<in> set m. is_upper c" "u \<noteq> []" "\<forall>c \<in> set u. readUrlSymbols c" "\<forall>c \<in> set ver. \<not> is_break c"
    and rest: "rest \<noteq> []" "\<not> is_break (hd rest)"
  shows "parseInternal r = parseInternal (after_line m u ver r)"
    "drop (rq_cur (after_line m u ver r)) (rq_data r) = rest"
    "mem_read (rq_cur r + length m + 1) (length u) (rq_data r) = u"
proof -
  obtain c u' where u: "u = c # u'" using wf(2) by (cases u) auto
  obtain h t where h: "rest = h # t" using rest(1) by (cases rest) auto
  let ?r1 = "r\<lparr>rq_methodStart := rq_cur r, rq_methodLength := length m, rq_cur := rq_cur r + length m,
      rq_state := S_spaceAfterMethod\<rparr>"
  let ?r2 = "?r1\<lparr>rq_cur := rq_cur ?r1 + 1, rq_state := S_url\<rparr>"
  let ?r3 = "?r2\<lparr>rq_urlStart := rq_cur ?r2, rq_urlLength := length u, rq_cur := rq_cur ?r2 + length u,
      rq_state := S_spaceAfterUrl\<rparr>"
  let ?r4 = "?r3\<lparr>rq_cur := rq_cur ?r3 + length (SP # ver) + 2, rq_state := S_headerKey\<rparr>"
  have "\<not> readUrlSymbols SP" by (simp add: readUrlSymbols_def is_lower_def is_upper_def is_digit_def)
  then have c: "c \<noteq> SP" "\<not> is_break c" using wf(3) u url_symbol_not_break by auto
  have d1: "drop (rq_cur ?r1) (rq_data ?r1) = [SP] @ u @ (SP # ver) @ crlf @ rest" using drop_plus [OF d] by simp
  have d2: "drop (rq_cur ?r2) (rq_data ?r2) = u @ (SP # ver) @ crlf @ rest" using drop_plus [OF d1] by simp
  have d3: "drop (rq_cur ?r3) (rq_data ?r3) = (SP # ver) @ crlf @ rest" using drop_plus [OF d2] by simp
  have "parseInternal r = parseInternal ?r1"
    by (rule step_method [where t = "u @ SP # ver @ crlf @ rest"]) (simp_all add: st d wf(1))
  also have "\<dots> = parseInternal ?r2" by (rule step_spaces) (use d1 c u in auto)
  also have "\<dots> = parseInternal ?r3" by (rule step_url) (use d2 wf(3) in auto)
  also have "\<dots> = parseInternal ?r4" by (rule step_nextLine) (use d3 h wf(4) rest in auto)
  finally show "parseInternal r = parseInternal (after_line m u ver r)" by (simp add: after_line_def)
  show "drop (rq_cur (after_line m u ver r)) (rq_data r) = rest"
    using drop_plus [of "rq_cur ?r3" "rq_data ?r3" "SP # ver @ crlf" rest] d3 by (simp add: crlf_def after_line_def)
  show "mem_read (rq_cur r + length m + 1) (length u) (rq_data r) = u" using mem_read_at [OF d2] by simp
qed

lemma parseInternal_render:
  assumes wf: "wf_request m u ver hs body"
    and r: "r = (rq_reset r0)\<lparr>rq_data := render_request m u ver hs body\<rparr>"
  shows "\<exists>r'. parseInternal r = Some (PR_finishOk, r') \<and> rq_state r' = S_finishOk
    \<and> rq_data r' = rq_data r \<and> rq_urlBuffer r' = rq_urlBuffer r0 \<and> rq_urlBufferSize r' = rq_urlBufferSize r0
    \<and> method_text r' = m \<and> rq_urlStart r' + rq_urlLength r' \<le> rq_size r' \<and> rq_urlLength r' > 0
    \<and> raw_url r' = u \<and> header_texts r' = hs \<and> rq_contentLength r' = declared_length 0 hs
    \<and> (rq_contentLength r' \<noteq> 0 \<longrightarrow> drop (rq_contentStart r') (rq_data r') = body)"
proof -
  let ?rest = "render_headers hs @ crlf @ body" and ?r4 = "after_line m u ver r"
  have rest: "?rest \<noteq> []" "\<not> is_break (hd ?rest)"
    using render_headers_first [of hs "crlf @ body"] wf by (auto simp: wf_request_def)
  have d: "drop (rq_cur r) (rq_data r) = m @ [SP] @ u @ (SP # ver) @ crlf @ ?rest"
    and st: "rq_state r = S_method" by (simp_all add: r rq_reset_def render_request_def)
  note line = parse_line [OF st d _ _ _ _ rest]
  have "\<exists>r'. parseInternal ?r4 = Some (PR_finishOk, r') \<and> same_line ?r4 r' \<and> rq_state r' = S_finishOk
    \<and> header_texts r' = header_texts ?r4 @ hs \<and> rq_contentLength r' = declared_length (rq_contentLength ?r4) hs
    \<and> (rq_contentLength r' \<noteq> 0 \<longrightarrow> drop (rq_contentStart r') (rq_data r') = body)"
    by (rule parse_headers)
      (use line(2) wf in \<open>auto simp: wf_request_def after_line_def r rq_reset_def\<close>)
  then obtain r' where r': "parseInternal ?r4 = Some (PR_finishOk, r')" "same_line ?r4 r'"
    "rq_state r' = S_finishOk" "header_texts r' = header_texts ?r4 @ hs"
    "rq_contentLength r' = declared_length (rq_contentLength ?r4) hs"
    "rq_contentLength r' \<noteq> 0 \<longrightarrow> drop (rq_contentStart r') (rq_data r') = body" by blast
  have "header_texts ?r4 = []" "rq_contentLength ?r4 = 0"
    by (simp_all add: header_texts_def r rq_reset_def after_line_def)
  moreover have "method_text r' = m" "raw_url r' = u"
    using r'(2) line(3) wf by (simp_all add: same_line_def method_text_def raw_url_def r rq_reset_def after_line_def
      render_request_def mem_read_def wf_request_def)
  moreover have "rq_urlStart r' + rq_urlLength r' \<le> rq_size r'" "rq_urlLength r' > 0"
    using r'(2) wf by (simp_all add: same_line_def r rq_reset_def render_request_def after_line_def wf_request_def)
  ultimately show ?thesis
    using line(1) wf r' by (intro exI [of _ r']) (simp add: same_line_def r rq_reset_def after_line_def wf_request_def)
qed

lemma parse_rendered:
  assumes wf: "wf_request m u ver hs body" and buf: "buffer_ok r0"
    and dec: "url_decode u = Some w" and safe: "safe_url w"
  shows "\<exists>r'. parse (render_request m u ver hs body) (rq_reset r0) = Some (PR_finishOk, r')
    \<and> method_text r' = m \<and> getUrl r' = Some w \<and> header_texts r' = hs
    \<and> rq_contentLength r' = declared_length 0 hs
    \<and> (rq_contentLength r' \<noteq> 0 \<longrightarrow> drop (rq_contentStart r') (rq_data r') = body)"
proof -
  let ?r = "(rq_reset r0)\<lparr>rq_data := render_request m u ver hs body\<rparr>"
  from parseInternal_render [OF wf refl, of r0] obtain r1 where
    p: "parseInternal ?r = Some (PR_finishOk, r1)" and st: "rq_state r1 = S_finishOk"
    and b: "rq_urlBuffer r1 = rq_urlBuffer r0" "rq_urlBufferSize r1 = rq_urlBufferSize r0"
    and m: "method_text r1 = m" and ub: "rq_urlStart r1 + rq_urlLength r1 \<le> rq_size r1" "rq_urlLength r1 > 0"
    and u: "raw_url r1 = u" and h: "header_texts r1 = hs" and l: "rq_contentLength r1 = declared_length 0 hs"
    and body: "rq_contentLength r1 \<noteq> 0 \<longrightarrow> drop (rq_contentStart r1) (rq_data r1) = body" by blast
  have "buffer_ok r1" using buf b by (simp add: buffer_ok_def urlBuffer_mem_def)
  moreover obtain code r' where dr: "decodeUrl r1 = (code, r')" by fastforce
  ultimately have spec: "r' = r1\<lparr>rq_urlBuffer := rq_urlBuffer r', rq_urlBufferSize := rq_urlBufferSize r'\<rparr>"
    "code = 0" "rq_urlBuffer r' \<noteq> None" "cstr (urlBuffer_mem r') = cstr w"
    using decodeUrl_spec [OF _ st ub dr] by (simp_all add: u dec)
  have "NUL \<notin> set w" using safe by (auto simp: safe_url_def checkUrlSymbols_def is_lower_def is_upper_def is_digit_def)
  then have w: "cstr w = w" by (rule cstr_no_NUL)
  have "checkUrl r' = 0" using spec(4) w safe by (simp add: checkUrl_iff)
  then have "parse (render_request m u ver hs body) (rq_reset r0) = Some (PR_finishOk, r')"
    using p dr spec(2) by (simp add: parse_def postParse_def)
  moreover have "rq_state r' = S_finishOk" by (subst spec(1)) (simp add: st)
  then have "getUrl r' = Some w"
    using spec(3,4) w by (auto simp: getUrl_def urlBuffer_mem_def)
  moreover have "method_text r' = m" "header_texts r' = hs" "rq_contentLength r' = declared_length 0 hs"
    "rq_contentLength r' \<noteq> 0 \<longrightarrow> drop (rq_contentStart r') (rq_data r') = body"
    by (subst spec(1), use m h l body in \<open>simp add: method_text_def header_texts_def field_text_def\<close>)+
  ultimately show ?thesis by blast
qed

text \<open>
  C8: A well-formed request written out as bytes is parsed back into its method, URL, headers and
  body.
\<close>

theorem parse_render:
  assumes wf: "wf_request m u ver hs body" and buf: "buffer_ok r0"
    and dec: "url_decode u = Some w" and safe: "safe_url w"
  shows "\<exists>r'. parse (render_request m u ver hs body) (rq_reset r0) = Some (PR_finishOk, r')
    \<and> method_text r' = m \<and> getUrl r' = Some w \<and> header_texts r' = hs
    \<and> rq_contentLength r' = declared_length 0 hs
    \<and> (rq_contentLength r' \<noteq> 0 \<longrightarrow> drop (rq_contentStart r') (rq_data r') = body)"
  using assms by (rule parse_rendered)

section \<open>Witnesses\<close>

lemma parse_render_witness:
  "\<exists>r'. parse (render_request ''POST'' ''/a%20b'' ''HTTP/1.1'' [(''Host'', ''h''), (''Content-Length'', ''2'')] ''ok'')
     (rq_reset rq_init) = Some (PR_finishOk, r') \<and> getUrl r' = Some ''/a b''
     \<and> header_texts r' = [(''Host'', ''h''), (''Content-Length'', ''2'')] \<and> rq_contentLength r' = 2
     \<and> drop (rq_contentStart r') (rq_data r') = ''ok''"
proof -
  have "wf_request ''POST'' ''/a%20b'' ''HTTP/1.1'' [(''Host'', ''h''), (''Content-Length'', ''2'')] ''ok''"
    "buffer_ok rq_init" "url_decode ''/a%20b'' = Some ''/a b''" "safe_url ''/a b''"
    "declared_length 0 [(''Host'', ''h''), (''Content-Length'', ''2'')] = 2"
    by code_simp+
  then show ?thesis using parse_render [of "''POST''" "''/a%20b''" "''HTTP/1.1''" _ "''ok''" rq_init "''/a b''"]
    by fastforce
qed

end
