(* ===== verification/HttpRequestProperties.thy ===== *)
theory HttpRequestProperties
  imports HttpRequestRender
begin

text \<open>
  Properties of \<open>HttpRequest\<close> that rest on both the parser's loop and the URL: bounds of the
  recorded offsets, which header names count, percent encoding on buffers.
\<close>

section \<open>Bounds\<close>

lemma decodeUrl_keeps:
  "decodeUrl r = (code, r') \<Longrightarrow> r' = r\<lparr>rq_urlBuffer := rq_urlBuffer r', rq_urlBufferSize := rq_urlBufferSize r'\<rparr>"
  by (auto simp: decodeUrl_def Let_def split: if_splits prod.splits)

lemma decodeUrl_data: "decodeUrl r = (code, r') \<Longrightarrow> rq_data r' = rq_data r"
  by (subst decodeUrl_keeps, assumption) simp

lemma rq_wf_upd [simp]:
  "rq_wf (r\<lparr>rq_urlBuffer := b, rq_urlBufferSize := n\<rparr>) = rq_wf r"
  by (simp add: rq_wf_def)

lemma rq_wf_invalid: "rq_wf r \<Longrightarrow> rq_wf (r\<lparr>rq_state := S_invalid\<rparr>)"
  by (simp add: rq_wf_def)

lemma decodeUrl_wf: "decodeUrl r = (code, r') \<Longrightarrow> rq_wf r \<Longrightarrow> rq_wf r'"
  using decodeUrl_keeps rq_wf_upd by metis

lemma decodeUrl_buffer_ok: "decodeUrl r = (code, r') \<Longrightarrow> rq_wf r \<Longrightarrow> buffer_ok r \<Longrightarrow> buffer_ok r'"
proof -
  assume d: "decodeUrl r = (code, r')" and wf: "rq_wf r" and b: "buffer_ok r"
  show "buffer_ok r'"
  proof (cases "rq_state r = S_finishOk \<and> 0 < rq_urlLength r")
    case True
    then show ?thesis using decodeUrl_spec(1) [OF b _ _ _ d] wf by (simp add: rq_wf_def)
  next
    case False
    then show ?thesis using d b by (auto simp: decodeUrl_def split: if_splits)
  qed
qed

lemma buffer_ok_invalid: "buffer_ok (r\<lparr>rq_state := S_invalid\<rparr>) = buffer_ok r"
  by (simp add: buffer_ok_def urlBuffer_mem_def)

lemma parse_wf:
  assumes "parse d r = Some (res, r')" "rq_wf (r\<lparr>rq_data := d\<rparr>)" "buffer_ok r"
  shows "rq_wf r' \<and> buffer_ok r' \<and> rq_data r' = d"
proof -
  obtain res1 r1 where p: "parseInternal (r\<lparr>rq_data := d\<rparr>) = Some (res1, r1)"
    and post: "(if res1 \<noteq> PR_finishOk then Some (res1, r1) else Some (postParse r1)) = Some (res, r')"
    using assms(1) by (auto simp: parse_def split: bind_splits)
  have wf: "rq_wf r1" "buffer_ok r1" "rq_data r1 = d"
    using parseInternal_wf [OF p assms(2)] parseInternal_buffer [OF p] parseInternal_data [OF p] assms(3)
    by (simp_all add: buffer_ok_def urlBuffer_mem_def)
  obtain code r2 where dec: "decodeUrl r1 = (code, r2)" by fastforce
  have "rq_wf r2" "buffer_ok r2" "rq_data r2 = d"
    using decodeUrl_wf [OF dec wf(1)] decodeUrl_buffer_ok [OF dec wf(1,2)] decodeUrl_data [OF dec] wf(3)
    by simp_all
  then show ?thesis
    using post wf dec rq_wf_invalid [of r2]
    by (auto simp: postParse_def buffer_ok_invalid split: if_splits)
qed

text \<open>
  C29: A parse keeps every offset it has recorded inside the received bytes, whatever they are: the
  cursor, method, URL, parameters, each header's key and value, and the announced content of
  a finished request. It also keeps the URL buffer's recorded size true.
\<close>

theorem parse_bounds:
  assumes "parse d r = Some (res, r')" "rq_wf (r\<lparr>rq_data := d\<rparr>)" "buffer_ok r"
  shows "rq_wf r' \<and> buffer_ok r' \<and> rq_data r' = d"
  using assms by (rule parse_wf)

lemma parse_bounds_witness:
  "\<exists>r'. parse ''GET /x HTTP/1.1'' rq_init = Some (PR_needMoreData, r') \<and> rq_wf r' \<and> buffer_ok r'"
proof -
  have "map_option fst (parse ''GET /x HTTP/1.1'' rq_init) = Some PR_needMoreData" by code_simp
  then obtain r' where p: "parse ''GET /x HTTP/1.1'' rq_init = Some (PR_needMoreData, r')" by auto
  have "rq_wf (rq_init\<lparr>rq_data := ''GET /x HTTP/1.1''\<rparr>)" "buffer_ok rq_init" by code_simp+
  from parse_bounds [OF p this] p show ?thesis by blast
qed

section \<open>Header names\<close>

lemma c_tolower_NUL: "c_tolower c = NUL \<longleftrightarrow> c = NUL"
proof (cases "is_upper c")
  case True
  then have "65 \<le> (of_char c :: nat)" "(of_char c :: nat) \<le> 90"
    by (auto simp: is_upper_def less_eq_char_def)
  then have "(of_char c + 32 :: nat) mod 256 \<noteq> 0" "c \<noteq> NUL" by auto
  then show ?thesis using True by (auto simp: c_tolower_def char_of_eq_iff take_bit_eq_mod)
next
  case False
  then show ?thesis by (simp add: c_tolower_def)
qed

lemma strncasecmp_prefix:
  "NUL \<notin> set s \<Longrightarrow> NUL \<notin> set k \<Longrightarrow>
     strncasecmp_eq s k (length k) \<longleftrightarrow> prefix (map c_tolower k) (map c_tolower s)"
proof (induction k arbitrary: s)
  case Nil
  then show ?case by simp
next
  case (Cons c k)
  then show ?case
    by (cases s) (auto simp: cstr_at_def c_tolower_NUL Let_def, (metis c_tolower_NUL)+)
qed

lemma strncasecmp_text:
  assumes "field_in (length d) f"
  shows "strncasecmp_eq s (drop (fld_start f) d) (fld_length f) = strncasecmp_eq s (field_text d f) (length (field_text d f))"
proof -
  have l: "length (field_text d f) = fld_length f"
    using assms by (simp add: field_text_def field_in_def)
  have "drop (fld_start f) d = field_text d f @ drop (fld_start f + fld_length f) d"
    by (simp add: field_text_def mem_read_def) (metis add.commute append_take_drop_id drop_drop)
  then show ?thesis
    using strncasecmp_eq_append [of "length (field_text d f)" "field_text d f" s] l by simp
qed

lemma strncasecmp_field:
  assumes "field_in (length d) f" "NUL \<notin> set (field_text d f)" "NUL \<notin> set s"
  shows "strncasecmp_eq s (drop (fld_start f) d) (fld_length f)
    \<longleftrightarrow> prefix (map c_tolower (field_text d f)) (map c_tolower s)"
  by (simp only: strncasecmp_text [OF assms(1)] strncasecmp_prefix [OF assms(3,2)])

text \<open>
  A header counts as \<open>Content-Length\<close> exactly when its name is, ignoring case, a prefix of
  that name: the comparison is limited to the length of the received name. So \<open>C: 5\<close> announces a body
  of five bytes, and so does a header with an empty name.
\<close>

theorem content_length_key:
  assumes "field_in (rq_size r) (rq_curKey r)" "NUL \<notin> set (field_text (rq_data r) (rq_curKey r))"
  shows "is_length_key r \<longleftrightarrow>
    prefix (map c_tolower (field_text (rq_data r) (rq_curKey r))) (map c_tolower ''Content-Length'')"
  unfolding is_length_key_def by (rule strncasecmp_field [OF assms]) simp

lemma content_length_key_witness:
  "\<exists>r'. parse (''GET / HTTP/1.1'' @ crlf @ ''c: 5'' @ crlf @ crlf) rq_init = Some (PR_needMoreData, r')
     \<and> rq_contentLength r' = 5 \<and> is_length_key r' \<and> field_text (rq_data r') (rq_curKey r') = ''c''"
proof -
  let ?p = "parse (''GET / HTTP/1.1'' @ crlf @ ''c: 5'' @ crlf @ crlf) rq_init"
  have "map_option (\<lambda>(res, r). (res, rq_contentLength r, rq_curKey r, rq_data r)) ?p
    = Some (PR_needMoreData, 5, \<lparr>fld_start = 16, fld_length = 1\<rparr>, ''GET / HTTP/1.1'' @ crlf @ ''c: 5'' @ crlf @ crlf)"
    by code_simp
  then obtain r' where r': "?p = Some (PR_needMoreData, r')" "rq_contentLength r' = 5"
    "rq_curKey r' = \<lparr>fld_start = 16, fld_length = 1\<rparr>"
    "rq_data r' = ''GET / HTTP/1.1'' @ crlf @ ''c: 5'' @ crlf @ crlf" by auto
  have t: "field_text (rq_data r') (rq_curKey r') = ''c''"
    unfolding r' by code_simp
  have "field_in (rq_size r') (rq_curKey r')" "NUL \<notin> set (field_text (rq_data r') (rq_curKey r'))"
    unfolding r' by code_simp+
  moreover have "prefix (map c_tolower ''c'') (map c_tolower ''Content-Length'')" by code_simp
  ultimately have "is_length_key r'" using content_length_key [of r'] by (simp add: t)
  with r' t show ?thesis by blast
qed

text \<open>
  The header search returns the value of the first header whose name is, ignoring case, a prefix
  of the name looked up, and fails when there is none.
\<close>

theorem find_header_first:
  assumes "\<forall>h \<in> set hs. field_in (length d) (hdr_key h) \<and> NUL \<notin> set (field_text d (hdr_key h))"
    and "NUL \<notin> set key"
  shows "find_header d key hs = map_option hdr_value
    (find (\<lambda>h. prefix (map c_tolower (field_text d (hdr_key h))) (map c_tolower key)) hs)"
  using assms by (induction hs) (auto simp: strncasecmp_field)

lemma find_header_first_witness:
  "find_header ''Host:aHOST:b'' ''host''
     [\<lparr>hdr_key = \<lparr>fld_start = 0, fld_length = 4\<rparr>, hdr_value = \<lparr>fld_start = 5, fld_length = 1\<rparr>\<rparr>,
      \<lparr>hdr_key = \<lparr>fld_start = 6, fld_length = 4\<rparr>, hdr_value = \<lparr>fld_start = 11, fld_length = 1\<rparr>\<rparr>]
   = Some \<lparr>fld_start = 5, fld_length = 1\<rparr>"
  by (subst find_header_first; code_simp)

section \<open>Percent encoding\<close>



text \<open>
  C35: Escaping every byte of a string and decoding it with \<open>percentDecode\<close> gives the string back.
\<close>

theorem percent_roundtrip:
  "\<exists>rest. percentDecode (percent_encode u) (replicate (length (percent_encode u) + 1) NUL)
     (length (percent_encode u)) = (0, u @ NUL # rest)"
  using percentDecode_loop_spec [of "length (percent_encode u)" "percent_encode u" 0 0
      "replicate (length (percent_encode u) + 1) NUL"]
  by (auto simp: percentDecode_def url_decode_encode)

end
