(* ===== verification/RequestServed.thy ===== *)
theory RequestServed
  imports FileServing HttpRequestProperties
begin

text \<open>
  From the bytes of a request to the bytes of the file: the request executor of
  \<open>src/executors/RequestExecutor.cpp\<close> reads and parses the request, hands the connection to the file
  executor of \<open>src/executors/FileExecutor.cpp\<close>, and the delivery of theory \<open>FileServing\<close> begins.
\<close>

section \<open>A connection that waits for its request\<close>

definition waiting :: "nat \<Rightarrow> nat \<Rightarrow> int \<Rightarrow> ('w \<times> traffic) poll_loop \<Rightarrow> bool" where
  "waiting a p c s \<longleftrightarrow> (let d = pl_execs s a in ed_pExecutor d = Some X_request \<and> ed_state d = ES_readRequest
     \<and> ed_pollData0 d = Some p \<and> ed_pollData1 d = None \<and> ed_fd0 d = c \<and> ed_filePosition d = 0
     \<and> (\<exists>b. ed_buffer d = rb_init REQUEST_BUFFER_SIZE b) \<and> (\<exists>r. buffer_ok r \<and> ed_request d = rq_reset r))"

lemma rb_init_startWrite: "0 < n \<Longrightarrow> rb_startWrite (rb_init n b) = ((True, 0, n), rb_init n b)"
  by (simp add: rb_startWrite_def rb_init_def Let_def)

lemma rb_fill:
  assumes "rb_inv (rb_init n b)" "length bs \<le> n"
  shows "rb_content (rb_endWrite (length bs) (rb_store 0 bs (rb_init n b))) = bs"
    "rb_inv (rb_endWrite (length bs) (rb_store 0 bs (rb_init n b)))"
    "rb_straight (rb_endWrite (length bs) (rb_store 0 bs (rb_init n b)))"
proof -
  let ?b = "rb_init n b"
  have h: "rb_writeHead ?b = 0" "rb_readHead ?b = 0" "length (rb_buf ?b) = n" "rb_bufSize ?b = n"
    using assms(1) by (simp_all add: rb_init_def rb_inv_def Let_def)
  then show "rb_content (rb_endWrite (length bs) (rb_store 0 bs ?b)) = bs"
    using assms(2) by (simp add: rb_content_def rb_endWrite_def rb_store_def mem_read_def mem_write_def)
  show "rb_inv (rb_endWrite (length bs) (rb_store 0 bs ?b))" "rb_straight (rb_endWrite (length bs) (rb_store 0 bs ?b))"
    using h assms(2) by (simp_all add: rb_inv_def rb_straight_def rb_endWrite_def rb_store_def mem_write_def)
qed

section \<open>The steps of the handler\<close>

text \<open>The whole request arrives in one read.\<close>

lemma readRequest_whole:
  assumes w: "pl_world s = (w, t)" and d: "ed_buffer (pl_execs s a) = rb_init n b" "rb_inv (rb_init n b)"
    and r: "os_read os (ed_fd0 (pl_execs s a)) n w = ((int (length req), req), w')" "req \<noteq> []" "length req \<le> n"
  shows "wp (readRequest (Executor_readFd0 (logged os)) a) (\<lambda>r s'. r = 0 \<and> (\<exists>b' t'.
     s' = s\<lparr>pl_world := (w', t'), pl_execs := (pl_execs s)(a := (pl_execs s a)\<lparr>ed_buffer := b', ed_retryCounter := 0\<rparr>)\<rparr>
     \<and> rb_content b' = req \<and> rb_inv b' \<and> rb_straight b' \<and> rb_bufSize b' = n \<and> tr_put t' = tr_put t \<and> tr_files t' = tr_files t)) s"
proof -
  have n: "0 < n" using r by (cases req) auto
  note f = rb_fill [OF d(2) r(3)]
  have sz: "rb_bufSize (rb_endWrite (length req) (rb_store 0 req (rb_init n b))) = n"
    by (simp add: rb_endWrite_def)
  show ?thesis
    unfolding readRequest_def buf_startWrite_def Executor_readFd0_def buf_store_def buf_endWrite_def retry_reset_def retry_inc_def
      errno_def wp_poll_ops
    using r f sz by (simp add: d(1) rb_init_startWrite [OF n] w recorded_def) (intro exI conjI, rule refl, simp_all)
qed


lemma straight_startRead:
  assumes "rb_inv b" "rb_straight b" "rb_content b = bs" "bs \<noteq> []"
  obtains q where "rb_startRead b = (True, q, length bs)" "mem_read q (length bs) (rb_buf b) = bs"
proof -
  obtain ok q n where sr: "rb_startRead b = (ok, q, n)" by (metis prod.exhaust)
  moreover have ok by (use rb_startRead_ok [OF assms(1) sr] assms(3,4) in simp)
  moreover have "n = length bs" using rb_straight_read [OF assms(1,2)] sr \<open>ok\<close> assms(3) by auto
  ultimately show ?thesis using that [of q] rb_startRead_region [OF assms(1)] assms(3) by simp
qed

text \<open>It is parsed, and no proxy answers it.\<close>

lemma parseRequest_file:
  assumes b: "rb_inv (ed_buffer (pl_execs s a))" "rb_straight (ed_buffer (pl_execs s a))"
    and c: "rb_content (ed_buffer (pl_execs s a)) = req" "req \<noteq> []"
    and p: "parse req (ed_request (pl_execs s a)) = Some (PR_finishOk, request)"
    and q: "findProxy request (sp_proxies (pl_parameters s)) = None" "getUrl request = Some url"
    and f: "file_of_url (pl_rootFolderLength s) (pl_fileNameBuffer s) url = (name, PQR_file)"
    and Q: "Q (Some PQR_file) (s\<lparr>pl_execs := (pl_execs s)(a := (pl_execs s a)\<lparr>ed_request := request\<rparr>), pl_fileNameBuffer := name\<rparr>)"
  shows "wp (parseRequest a) Q s"
proof -
  obtain q' where r: "rb_startRead (ed_buffer (pl_execs s a)) = (True, q', length req)"
    "mem_read q' (length req) (rb_buf (ed_buffer (pl_execs s a))) = req"
    by (rule straight_startRead [OF b c])
  show ?thesis
    unfolding parseRequest_def buf_startRead_def buf_mem_def set_fileName_def wp_poll_ops
    using Q by (simp add: r p q f)
qed

text \<open>The file is there, and newer than the client's copy.\<close>

lemma response_whole: "length bs < n \<Longrightarrow> response_result n bs = (int (length bs), bs @ [NUL])"
  by (simp add: response_result_def snprintf_def)

lemma createOkResponse_whole:
  assumes b: "ed_buffer (pl_execs s a) = b" "rb_inv b" and h: "ok200_text (os_http_date os) (ed_bytesToSend (pl_execs s a)) t = hdr"
    and l: "length hdr < rb_bufSize b"
  shows "wp (createOkResponse os a t) (\<lambda>r s'. r = 0 \<and> (\<exists>b'. s' = s\<lparr>pl_execs := (pl_execs s)(a := (pl_execs s a)\<lparr>ed_buffer := b'\<rparr>)\<rparr>
     \<and> rb_content b' = hdr \<and> rb_straight b')) s"
proof -
  have sw: "rb_startWrite (rb_clear b) = ((True, 0, rb_bufSize b), rb_clear b)"
    using l by (simp add: rb_startWrite_def rb_clear_def)
  let ?b = "rb_endWrite (length hdr) (rb_store 0 (hdr @ [NUL]) (rb_clear b))"
  have "rb_content ?b = hdr" "rb_straight ?b"
    using b(2) l by (simp_all add: rb_inv_def rb_content_def rb_straight_def rb_endWrite_def rb_store_def rb_clear_def mem_read_def mem_write_def)
  then show ?thesis
    unfolding createOkResponse_def finish_response_def buf_clear_def buf_startWrite_def buf_store_def buf_endWrite_def wp_poll_ops
    using h by (simp add: b(1) sw ok200_def response_whole [OF l]) (intro exI conjI, rule refl, simp_all)
qed


lemma FileExecutor_up_whole:
  assumes d: "pl_execs s a = d" "rb_inv (ed_buffer d)" "ed_pollData0 d = Some p" and w: "pl_world s = (w, t)"
    and op: "os_open os (pl_fileNameBuffer s) w = (f, w1)" "0 \<le> f" "os_fstat os f w1 = ((0, n, mtime), w2)"
      "getIfModifiedSince (os_http_time os) (ed_request d) < mtime"
    and hdr: "ok200_text (os_http_date os) n mtime = hdr" "length hdr < rb_bufSize (ed_buffer d)"
    and ep: "os_epoll_mod os (pl_epollFd s) (ed_fd0 d) (EPOLLOUT OR EPOLLRDHUP OR EPOLLERR) p w2 = (rc, w3)" "rc \<noteq> -1"
    and Q: "\<And>b. rb_content b = hdr \<Longrightarrow> rb_straight b \<Longrightarrow> Q 0 (s\<lparr>pl_execs := (pl_execs s)(a := d\<lparr>ed_removeOnTimeout := True,
       ed_fd1 := f, ed_bytesToSend := n, ed_buffer := b, ed_state := ES_sendHeaders\<rparr>), pl_world := (w3, t)\<rparr>)"
  shows "wp (FileExecutor_up (logged os) a) Q s"
proof -
  let ?d = "d\<lparr>ed_removeOnTimeout := True, ed_fd1 := f, ed_bytesToSend := n\<rparr>"
  let ?s = "s\<lparr>pl_world := (w2, t), pl_execs := (pl_execs s)(a := ?d)\<rparr>"
  have R: "wp (createOkResponse (logged os) a mtime) (\<lambda>r s'. r = 0 \<and> (\<exists>b. s' = ?s\<lparr>pl_execs := (pl_execs s)(a := ?d\<lparr>ed_buffer := b\<rparr>)\<rparr>
      \<and> rb_content b = hdr \<and> rb_straight b)) ?s"
    by (rule wp_mono [OF createOkResponse_whole [of ?s a "ed_buffer d" "logged os" mtime hdr]]) (use d hdr in auto)
  show ?thesis
    unfolding FileExecutor_up_def errno_def set_state_def editPollFd_def wp_poll_ops
    using d op w
    apply (simp add: recorded_def)
    apply (rule wp_mono [OF R], elim conjE exE)
    using ep d by (simp add: pollData_of_def wp_poll_ops recorded_def Q)
qed


section \<open>The event that brings the request\<close>

text \<open>What the kernel answers when the file with this name and content is requested.\<close>

definition serves :: "'w os \<Rightarrow> int \<Rightarrow> int \<Rightarrow> nat \<Rightarrow> string \<Rightarrow> string \<Rightarrow> int \<Rightarrow> string \<Rightarrow> int \<Rightarrow> 'w \<Rightarrow> bool" where
  "serves os ep c p req name f content mtime w \<longleftrightarrow> (\<exists>w1 w2 w3 w4 rc.
     os_read os c REQUEST_BUFFER_SIZE w = ((int (length req), req), w1)
   \<and> os_open os name w1 = (f, w2) \<and> 0 \<le> f
   \<and> os_fstat os f w2 = ((0, int (length content), mtime), w3)
   \<and> os_epoll_mod os ep c (EPOLLOUT OR EPOLLRDHUP OR EPOLLERR) p w3 = (rc, w4) \<and> rc \<noteq> -1)"

definition readable :: "32 word \<Rightarrow> bool" where
  "readable ev \<longleftrightarrow> has ev EPOLLIN \<and> \<not> has ev EPOLLRDHUP \<and> \<not> has ev EPOLLERR"

lemma ok200_nonempty: "ok200_text date n t \<noteq> []"
  by (simp add: ok200_text_def)

lemma finish_sending:
  assumes "sending old hdr content a p c k s" "ed_retryCounter (pl_execs s a) = 0" "pl_fileNameBuffer s = name"
  shows "wp (finish_event os m a PRES_ok) (\<lambda>r s'. r = Some True \<and> sending old hdr content a p c k s'
     \<and> pl_fileNameBuffer s' = name) s"
  using assms
  by (simp add: finish_event_def wp_simps exec_def upd_def MAX_RETRY_COUNTER_def sending_def connected_def phase_def client_got_def)

lemma request_starts_sending:
  assumes at: "at us a (pl_execs s a) s" and s: "waiting a p c s" "client_got c old s"
    and req: "req \<noteq> []" "length req \<le> REQUEST_BUFFER_SIZE"
    and parse: "\<And>r. buffer_ok r \<Longrightarrow> \<exists>r'. parse req (rq_reset r) = Some (PR_finishOk, r') \<and> getUrl r' = Some url
       \<and> findProxy r' (sp_proxies (pl_parameters s)) = None \<and> getIfModifiedSince (os_http_time os) r' < mtime"
    and name: "file_of_url (pl_rootFolderLength s) (pl_fileNameBuffer s) url = (name, PQR_file)"
    and os: "serves os (pl_epollFd s) c p req name f content mtime (fst (pl_world s))"
    and hdr: "hdr = ok200_text (os_http_date os) (int (length content)) mtime" "length hdr < REQUEST_BUFFER_SIZE"
    and tr: "tr_files (snd (pl_world s)) f = content" and ev: "readable ev"
  shows "wp (process_event (logged os) m (ev, p)) (\<lambda>r s'. r = Some True \<and> sending old hdr content a p c 0 s'
     \<and> pl_fileNameBuffer s' = name) s"
proof -
  let ?d = "pl_execs s a"
  obtain w t where w: "pl_world s = (w, t)" by fastforce
  from s(1) obtain b r0 where d: "ed_pExecutor ?d = Some X_request" "ed_state ?d = ES_readRequest" "ed_pollData0 ?d = Some p"
    "ed_fd0 ?d = c" "ed_filePosition ?d = 0" "ed_buffer ?d = rb_init REQUEST_BUFFER_SIZE b"
    "buffer_ok r0" "ed_request ?d = rq_reset r0" by (auto simp: waiting_def Let_def)
  from parse [OF d(7)] obtain r' where r': "parse req (ed_request ?d) = Some (PR_finishOk, r')" "getUrl r' = Some url"
    "findProxy r' (sp_proxies (pl_parameters s)) = None" "getIfModifiedSince (os_http_time os) r' < mtime"
    by (auto simp: d(8))
  from os obtain w1 w2 w3 w4 rc where o: "os_read os c REQUEST_BUFFER_SIZE w = ((int (length req), req), w1)"
    "os_open os name w1 = (f, w2)" "0 \<le> f" "os_fstat os f w2 = ((0, int (length content), mtime), w3)"
    "os_epoll_mod os (pl_epollFd s) c (EPOLLOUT OR EPOLLRDHUP OR EPOLLERR) p w3 = (rc, w4)" "rc \<noteq> -1"
    by (auto simp: serves_def w)
  have p: "pl_polls s p = \<lparr>pd_fd = c, pd_execData = Some a\<rparr>"
  proof -
    from at obtain ps where "exec_links_ok (pl_polls s) (set ps) a ?d" by (auto simp: at_def loop_rep_def loop_links_def)
    then show ?thesis using d(3,4) by (auto simp: exec_links_ok_def)
  qed
  have inv: "rb_inv (rb_init REQUEST_BUFFER_SIZE b)" using at_fields [OF at] d(6) by (simp add: exec_fields_ok_def)
  let ?G = "\<lambda>r s'. r = Some PRES_ok \<and> sending old hdr content a p c 0 s'
      \<and> pl_fileNameBuffer s' = name \<and> ed_retryCounter (pl_execs s' a) = 0"
  have P: "wp (executor_process (logged os) X_request a c ev) ?G s"
  proof -
    let ?d1 = "\<lambda>b'. ?d\<lparr>ed_buffer := b', ed_retryCounter := 0\<rparr>"
    let ?s1 = "\<lambda>b' t'. s\<lparr>pl_world := (w1, t'), pl_execs := (pl_execs s)(a := ?d1 b')\<rparr>"
    have F: "wp (setExecutor (executor_up (logged os)) a X_file) (\<lambda>x. ?G (Some x))
        ((?s1 b' t')\<lparr>pl_execs := (pl_execs (?s1 b' t'))(a := (?d1 b')\<lparr>ed_request := r'\<rparr>), pl_fileNameBuffer := name\<rparr>)"
      if b: "rb_inv b'" "rb_bufSize b' = REQUEST_BUFFER_SIZE" and t': "tr_put t' = tr_put t" "tr_files t' = tr_files t" for b' t'
      unfolding setExecutor_def executor_up.simps upd_def wp_bind wp_modify
      apply (rule FileExecutor_up_whole [where p = p and w = w1 and ?w1.0 = w2 and ?w2.0 = w3 and ?w3.0 = w4
          and rc = rc and t = t' and f = f and n = "int (length content)" and mtime = mtime and hdr = hdr
          and d = "(?d1 b')\<lparr>ed_request := r', ed_pExecutor := Some X_file\<rparr>"])
      using o r' hdr b t' d s(2) tr w
      by (simp_all add: wp_simps sending_def connected_def phase_def client_got_def ok200_nonempty)
    have E: "wp (parseRequest a) (\<lambda>x. wp (case x of None \<Rightarrow> State_Monad.return None | Some pr \<Rightarrow>
           if pr = PQR_file then do { res \<leftarrow> setExecutor (executor_up (logged os)) a (getExecutor ET_file); State_Monad.return (Some res) }
           else if pr = PQR_proxy then do { res \<leftarrow> setExecutor (executor_up (logged os)) a (getExecutor ET_proxy); State_Monad.return (Some res) }
           else if pr = PQR_invalid then State_Monad.return (Some PRES_removeExecutorError)
           else State_Monad.return (Some PRES_ok)) ?G) (?s1 b' t')"
      if b: "rb_content b' = req" "rb_inv b'" "rb_straight b'" "rb_bufSize b' = REQUEST_BUFFER_SIZE" 
        and t': "tr_put t' = tr_put t" "tr_files t' = tr_files t" for b' t'
      by (rule parseRequest_file) (use b r' req name F [OF b(2,4) t'] in \<open>simp_all add: wp_simps\<close>)
    show ?thesis
      unfolding executor_process.simps RequestExecutor_process_def process_readRequest_def wp_bind
      apply (simp only: exec_def wp_gets d(2,4) ev [unfolded readable_def] simp_thms if_True wp_bind)
      apply (rule wp_mono [OF readRequest_whole [OF w d(6) inv _ req, unfolded d(4), OF o(1)]], elim conjE exE)
      using E by (simp only: simp_thms if_False wp_bind)
  qed
  show ?thesis
    unfolding process_event_def prod.case wp_simps
    using P d p ev by (auto simp: exec_def wp_simps readable_def intro: finish_sending elim!: wp_mono)
qed


section \<open>What the request says\<close>

text \<open>No header has a name that the search for \<open>key\<close> accepts.\<close>

definition no_header :: "string \<Rightarrow> (string \<times> string) list \<Rightarrow> bool" where
  "no_header key hs \<longleftrightarrow> (\<forall>(k, v) \<in> set hs. \<not> strncasecmp_eq key k (length k))"

lemma find_header_none:
  assumes "\<forall>h \<in> set hs. field_in (length d) (hdr_key h)"
    and "\<forall>h \<in> set hs. \<not> strncasecmp_eq key (field_text d (hdr_key h)) (length (field_text d (hdr_key h)))"
  shows "find_header d key hs = None"
  using assms by (induction hs) (auto simp: strncasecmp_text)

lemma getHeaderValue_none:
  assumes "rq_wf r" "no_header key (header_texts r)"
  shows "getHeaderValue r key = None"
  using assms find_header_none [of "rq_headers r" "rq_data r" key]
  by (auto simp: getHeaderValue_def rq_wf_def no_header_def header_texts_def)

lemma isUrlPrefix_url: "getUrl r = Some url \<Longrightarrow> isUrlPrefix r pre = url_has_prefix url pre"
  by (auto simp: getUrl_def isUrlPrefix_def urlBuffer_mem_def split: if_splits)

lemma rq_reset_wf: "rq_wf ((rq_reset r)\<lparr>rq_data := d\<rparr>)"
  by (simp add: rq_wf_def rq_reset_def field_in_def)

lemma plain_request:
  assumes wf: "wf_request mth u ver hs body" "url_decode u = Some url" "safe_url url" and r: "buffer_ok r"
    and h: "no_header ''If-Modified-Since'' hs" "0 < mtime"
    and px: "\<forall>px \<in> set proxies. \<not> url_has_prefix url (px_prefix px)"
  shows "\<exists>r'. parse (render_request mth u ver hs body) (rq_reset r) = Some (PR_finishOk, r') \<and> getUrl r' = Some url
     \<and> findProxy r' proxies = None \<and> getIfModifiedSince http_time r' < mtime"
proof -
  obtain r' where p: "parse (render_request mth u ver hs body) (rq_reset r) = Some (PR_finishOk, r')" "getUrl r' = Some url"
    "header_texts r' = hs" using parse_rendered [OF wf(1) r wf(2,3)] by blast
  have "buffer_ok (rq_reset r)" using r by (simp add: buffer_ok_def rq_reset_def urlBuffer_mem_def)
  with parse_wf [OF p(1) rq_reset_wf] have "rq_wf r'" by simp
  then have "getHeaderValue r' ''If-Modified-Since'' = None" using getHeaderValue_none h(1) p(3) by simp
  then have "getIfModifiedSince http_time r' < mtime" using h(2) by (simp add: getIfModifiedSince_def)
  moreover have "findProxy r' proxies = None" using px isUrlPrefix_url [OF p(2)] by (simp add: findProxy_None)
  ultimately show ?thesis using p by blast
qed


section \<open>Starting to wait\<close>

text \<open>\<open>RequestExecutor::up\<close> leaves a connection that waits for its request.\<close>

lemma RequestExecutor_up_waits:
  assumes "ed_pExecutor (pl_execs s a) = Some X_request" "ed_pollData1 (pl_execs s a) = None"
    and "ed_filePosition (pl_execs s a) = 0" "buffer_ok (ed_request (pl_execs s a))"
  shows "wp (RequestExecutor_up os a) (\<lambda>r s'. r = 0 \<longrightarrow> (\<exists>p. waiting a p (ed_fd0 (pl_execs s a)) s')) s"
  unfolding RequestExecutor_up_def buf_init_def addPollFd_def set_state_def wp_poll_ops
  using assms by (auto simp: waiting_def Let_def)

section \<open>Properties\<close>

text \<open>
  C2: From the request to the file. A connection waits; a well-formed request for a safe path that no
  proxy takes arrives in one read; the file of that name opens and is newer than any copy the client
  mentions; and the kernel moves bytes whenever some are left. Then the event that brings the request and
  as many writable events as the response has bytes make the server send exactly the headers for
  that file followed by its content, close the connection and free its resources.
\<close>

theorem request_served:
  assumes kernel: "os_ok os" "sendfile_ok os" "moves os c"
    and s: "in_order s" "waiting a p c s" "client_got c old s"
    and req: "wf_request mth u ver hs body" "url_decode u = Some url" "safe_url url" "no_header ''If-Modified-Since'' hs"
      "length (render_request mth u ver hs body) \<le> REQUEST_BUFFER_SIZE"
    and route: "\<forall>px \<in> set (sp_proxies (pl_parameters s)). \<not> url_has_prefix url (px_prefix px)"
      "file_of_url (pl_rootFolderLength s) (pl_fileNameBuffer s) url = (name, PQR_file)"
    and file_there: "serves os (pl_epollFd s) c p (render_request mth u ver hs body) name f content mtime (fst (pl_world s))"
      "tr_files (snd (pl_world s)) f = content" "content \<noteq> []" "0 < mtime"
    and hdr: "hdr = ok200_text (os_http_date os) (int (length content)) mtime" "length hdr < REQUEST_BUFFER_SIZE"
    and events: "readable ev" "\<forall>e \<in> set (events_of ts). snd e = p \<and> writable (fst e)"
      "length (hdr @ content) \<le> length (events_of ts)"
    and run: "run_state (process_turns (logged os) ((m, [(ev, p)]) # ts)) s = (r, s')"
  shows "r = Some True \<and> in_order s' \<and> tr_put (snd (pl_world s')) c = old @ hdr @ content
    \<and> ed_dead (pl_execs s' a) \<and> pd_execData (pl_polls s' p) = None"
proof -
  have x: "ed_pExecutor (pl_execs s a) = Some X_request" "ed_pollData0 (pl_execs s a) = Some p"
    using s(2) by (auto simp: waiting_def Let_def)
  from s(1) obtain us where "loop_rep us s" by (auto simp: in_order_def)
  moreover have "a \<in> set us" using x(1) \<open>loop_rep us s\<close> by (auto simp: loop_rep_def loop_links_def ed_dead_def)
  ultimately have at: "at us a (pl_execs s a) s" by (simp add: at_def)
  have ne: "render_request mth u ver hs body \<noteq> []" by (simp add: render_request_def)
  have "wp (process_event (logged os) m (ev, p)) (\<lambda>r s'. r = Some True \<and> sending old hdr content a p c 0 s'
      \<and> pl_fileNameBuffer s' = name) s"
    by (rule request_starts_sending [OF at s(2,3) ne req(5) plain_request [OF req(1-3) _ req(4) file_there(4) route(1)]
          route(2) file_there(1) hdr file_there(2) events(1)])
  moreover have "wp (process_event (logged os) m (ev, p)) after_event s"
    by (rule process_event_order) (use kernel s in simp_all)
  ultimately have "wp (process_event (logged os) m (ev, p)) (\<lambda>r s'. r = Some True \<and>
      under_way True old hdr content a p c 0 s') s"
    unfolding wp_conj [symmetric]
    by (rule wp_mono [OF iffD2 [OF wp_conj conjI]]) (auto intro: under_way_start)
  then have "wp (process_turns (logged os) ((m, [(ev, p)]) # ts)) (\<lambda>r s'. r = Some True \<and>
      under_way True old hdr content a p c (length (hdr @ content)) s') s"
    unfolding process_turns.simps process_events.simps wp_bind
  proof (rule wp_mono, elim conjE, goal_cases)
    case (1 r' t)
    show ?case
      using turns_under_way [OF kernel(1,2) 1(3) _, of ts] kernel(3) file_there(3) events(2,3) 1(2)
      by (simp add: wp_simps min_absorb2)
  qed
  from wp_run [OF this run] have r: "r = Some True" "under_way True old hdr content a p c (length (hdr @ content)) s'" by simp_all
  from under_way_done [OF r(2) file_there(3)] r(1) show ?thesis by simp
qed


section \<open>A concrete request\<close>

definition sample_request :: string where
  "sample_request = render_request ''GET'' ''/a%20b'' ''HTTP/1.1'' [(''Host'', ''h'')] []"

definition sample_waiter :: executor_data where
  "sample_waiter = (sample_data X_request)\<lparr>ed_state := ES_readRequest, ed_request := rq_reset rq_init\<rparr>"

definition sample_headers :: string where
  "sample_headers = ok200_text (os_http_date sample_os) 3 100"

lemma sample_waiting:
  obtains a p and s :: "(sample_world \<times> traffic) poll_loop"
  where "in_order s" "waiting a p 9 s" "pl_world s = (sample_world sample_request, sample_traffic ''abc'')"
    "pl_parameters s = sp_defaults" "pl_rootFolderLength s = 4" "pl_fileNameBuffer s = ''www/''"
proof -
  have "exec_fields_ok sample_waiter"
    by (simp add: exec_fields_ok_def sample_waiter_def rb_init_inv rb_inv_empty)
  then obtain a p and s :: "sample_world poll_loop" where s: "at [a] a (sample_waiter\<lparr>ed_pollData0 := Some p\<rparr>) s"
    by (rule sample_at_polled) (simp_all add: sample_waiter_def)
  let ?s = "(with_world (sample_world sample_request, sample_traffic ''abc'') s)\<lparr>pl_parameters := sp_defaults,
     pl_rootFolderLength := 4, pl_fileNameBuffer := ''www/''\<rparr>"
  have at: "at [a] a (sample_waiter\<lparr>ed_pollData0 := Some p\<rparr>) ?s"
    using s by (simp add: with_world_def at_def loop_rep_def)
  have ed: "pl_execs ?s a = sample_waiter\<lparr>ed_pollData0 := Some p\<rparr>" by (rule atD(2) [OF at])
  have "buffer_ok rq_init" by code_simp
  then have "waiting a p 9 ?s"
    unfolding waiting_def ed by (auto simp: Let_def sample_waiter_def sample_data_def ed_default_def REQUEST_BUFFER_SIZE_def)
  then show thesis using that [of ?s a p] at by (auto simp: in_order_def at_def with_world_at)
qed

lemma request_served_witness:
  "\<exists>p s s'. run_state (process_turns (logged sample_os) ((6, [(EPOLLIN, p)]) # replicate (length sample_headers + 3) (7, [(EPOLLOUT, p)])))
       (s :: (sample_world \<times> traffic) poll_loop) = (Some True, s')
     \<and> tr_put (snd (pl_world s')) 9 = sample_headers @ ''abc'' \<and> pd_execData (pl_polls s' p) = None"
proof -
  obtain a p and s :: "(sample_world \<times> traffic) poll_loop" where s: "in_order s" "waiting a p 9 s"
    "pl_world s = (sample_world sample_request, sample_traffic ''abc'')" "pl_parameters s = sp_defaults"
    "pl_rootFolderLength s = 4" "pl_fileNameBuffer s = ''www/''" by (rule sample_waiting)
  let ?ts = "replicate (length sample_headers + 3) (7 :: int, [(EPOLLOUT, p)])"
  obtain r s' where r: "run_state (process_turns (logged sample_os) ((6, [(EPOLLIN, p)]) # ?ts)) s = (r, s')" by fastforce
  have req: "wf_request ''GET'' ''/a%20b'' ''HTTP/1.1'' [(''Host'', ''h'')] []" "url_decode ''/a%20b'' = Some ''/a b''"
    "safe_url ''/a b''" "no_header ''If-Modified-Since'' [(''Host'', ''h'')]" "length sample_request \<le> REQUEST_BUFFER_SIZE"
    "length sample_headers < REQUEST_BUFFER_SIZE" "file_of_url 4 ''www/'' ''/a b'' = (''www//a b'', PQR_file)"
    by code_simp+
  have ev: "events_of (replicate n (7 :: int, [(EPOLLOUT, p)])) = replicate n (EPOLLOUT, p)" for n
    by (induction n) (auto simp: events_of_def)
  have "serves sample_os (pl_epollFd s) 9 p sample_request ''www//a b'' 5 ''abc'' 100 (fst (pl_world s))"
    using req(5) by (simp add: serves_def s(3) sample_world_def)
  moreover have "readable EPOLLIN" by (simp add: readable_def has_def EPOLLIN_def EPOLLRDHUP_def EPOLLERR_def)
  moreover have "sp_proxies sp_defaults = []" by (simp add: sp_defaults_def)
  ultimately have "r = Some True \<and> in_order s' \<and> tr_put (snd (pl_world s')) 9 = [] @ sample_headers @ ''abc''
      \<and> ed_dead (pl_execs s' a) \<and> pd_execData (pl_polls s' p) = None"
    by (intro request_served [OF sample_os_ok sample_moves s(1,2) _ req(1-4) req(5) [unfolded sample_request_def] _ _ _ _ _ _ _ req(6) _ _ _ r])
      (use s req ev in \<open>auto simp: client_got_def sample_traffic_def sample_request_def [symmetric] sample_headers_def writable_EPOLLOUT\<close>)
  with r show ?thesis by auto
qed

end
