(* ===== verification/TlsConfidential.thy ===== *)
theory TlsConfidential
  imports FileDelivery PollLoopEvents
begin

text \<open>
  TLS connections keep their secrets, over \<open>src/executors/SslRequestExecutor.cpp\<close>,
  \<open>src/executors/SslFileExecutor.cpp\<close> and \<open>src/executors/SslProxyExecutor.cpp\<close>: no byte goes to or comes from
  the client's descriptor but through OpenSSL, and a TLS executor hands its connection only to TLS
  executors. The record of the traffic is that of theory \<open>Relay\<close>.
\<close>

section \<open>What is kept\<close>

text \<open>
  \<open>put\<close> and \<open>got\<close> are all that was written to and read from the client's descriptor \<open>c\<close> without OpenSSL.
  Descriptor 1, the file or the upstream server, is another one than \<open>c\<close> where the handler uses it.
\<close>

definition tls_executor :: "executor option \<Rightarrow> bool" where
  "tls_executor x \<longleftrightarrow> x \<in> {Some X_sslRequest, Some X_sslFile, Some X_sslProxy}"

definition secret :: "bool \<Rightarrow> nat \<Rightarrow> int \<Rightarrow> string \<Rightarrow> string \<Rightarrow> ('w \<times> traffic) poll_loop \<Rightarrow> bool" where
  "secret uses_fd1 a c put got s \<longleftrightarrow> tr_put (snd (pl_world s)) c = put \<and> tr_got (snd (pl_world s)) c = got
     \<and> tls_executor (ed_pExecutor (pl_execs s a)) \<and> (uses_fd1 \<longrightarrow> ed_fd1 (pl_execs s a) \<noteq> c)"

definition keeps_secret :: "bool \<Rightarrow> int \<Rightarrow> (executor_data \<Rightarrow> executor_data) \<Rightarrow> bool" where
  "keeps_secret uses_fd1 c f \<longleftrightarrow> (\<forall>d. tls_executor (ed_pExecutor d) \<longrightarrow> tls_executor (ed_pExecutor (f d)))
     \<and> (\<forall>d. uses_fd1 \<longrightarrow> ed_fd1 d \<noteq> c \<longrightarrow> ed_fd1 (f d) \<noteq> c)"

lemma stable_upd_secret: "keeps_secret b c f \<Longrightarrow> stable (secret b a c put got) (upd a f)"
  by (auto simp: stable_def wp_poll_ops secret_def keeps_secret_def)

text \<open>Calls that leave the record of plain traffic as it is.\<close>

definition untouched :: "('w \<times> traffic \<Rightarrow> 'a \<times> 'w \<times> traffic) \<Rightarrow> bool" where
  "untouched g \<longleftrightarrow> (\<forall>wt. tr_put (snd (snd (g wt))) = tr_put (snd wt) \<and> tr_got (snd (snd (g wt))) = tr_got (snd wt))"

lemma untouchedD: "untouched g \<Longrightarrow> g wt = (r, wt') \<Longrightarrow> tr_put (snd wt') = tr_put (snd wt) \<and> tr_got (snd wt') = tr_got (snd wt)"
  unfolding untouched_def by (metis snd_conv)

lemma untouched_unrecorded: "untouched (unrecorded g)"
  by (simp add: untouched_def)

lemma untouched_ops:
  "untouched (os_close (logged os) x)" "untouched (os_open (logged os) nm)" "untouched (os_fstat (logged os) x)"
  "untouched (os_socket (logged os) af b)" "untouched (os_connect_inet (logged os) x adr prt)"
  "untouched (os_connect_unix (logged os) x adr)" "untouched (os_getsockopt_error (logged os) x)"
  "untouched (os_epoll_add (logged os) ep x ev p)" "untouched (os_epoll_mod (logged os) ep x ev p)"
  "untouched (os_epoll_del (logged os) ep x)" "untouched (os_SSL_do_handshake (logged os) ssl)"
  "untouched (os_SSL_get_error (logged os) ssl r)" "untouched (os_SSL_read (logged os) ssl n)"
  "untouched (os_SSL_write (logged os) ssl bs)" "untouched (os_getMilliseconds (logged os))"
  by (simp_all add: untouched_def logged_def recorded_def split: prod.split)

lemma untouched_down: "untouched (ed_down (logged os) d)"
  unfolding untouched_def by (metis ed_down_quiet prod.collapse)

lemma stable_sys_secret: "untouched g \<Longrightarrow> stable (secret b a c put got) (sys g)"
  by (auto simp: stable_def wp_sys_iff secret_def dest: untouchedD)

lemma stable_plain_io:
  "x \<noteq> c \<Longrightarrow> stable (secret b a c put got) (sys (os_read (logged os) x n))"
  "x \<noteq> c \<Longrightarrow> stable (secret b a c put got) (sys (os_write (logged os) x bs))"
  by (auto simp: stable_def wp_sys_iff secret_def recorded_def split: prod.splits)

lemma stable_other_secret:
  "stable (secret b a c put got) (errno os)" "stable (secret b a c put got) (exec a')"
  "stable (secret b a c put got) (upd_poll p h)" "stable (secret b a c put got) allocate_poll"
  "stable (secret b a c put got) (free_poll p)" "stable (secret b a c put got) (count_poll n)"
  "stable (secret b a c put got) (set_fileName nm)"
  by (auto simp: stable_def wp_poll_ops errno_def secret_def set_fileName_def)

text \<open>Reading the executor's data: descriptor 1 is not the client's.\<close>

lemma stable_exec_bind:
  "(\<And>d. (b \<Longrightarrow> ed_fd1 d \<noteq> c) \<Longrightarrow> stable (secret b a c put got) (f d)) \<Longrightarrow>
     stable (secret b a c put got) (State_Monad.bind (exec a) f)"
  by (auto simp: stable_def wp_bind exec_def wp_gets secret_def)

lemma keeps_secret_upds:
  "keeps_secret b c (\<lambda>d. d\<lparr>ed_retryCounter := n d\<rparr>)" "keeps_secret b c (\<lambda>d. d\<lparr>ed_state := st\<rparr>)"
  "keeps_secret b c (\<lambda>d. d\<lparr>ed_buffer := h d\<rparr>)" "keeps_secret b c (\<lambda>d. d\<lparr>ed_bytesToSend := n d\<rparr>)"
  "keeps_secret b c (\<lambda>d. d\<lparr>ed_removeOnTimeout := bb\<rparr>)" "keeps_secret b c (\<lambda>d. d\<lparr>ed_request := rq d\<rparr>)"
  "keeps_secret b c (\<lambda>d. d\<lparr>ed_proxy := px\<rparr>)" "keeps_secret b c (\<lambda>d. d\<lparr>ed_fd0 := x\<rparr>)"
  "keeps_secret b c (\<lambda>d. d\<lparr>ed_pollData0 := pp\<rparr>)" "keeps_secret b c (\<lambda>d. d\<lparr>ed_pollData1 := pp\<rparr>)"
  "keeps_secret b c (\<lambda>d. d\<lparr>ed_lastProcessTime := t\<rparr>)"
  by (simp_all add: keeps_secret_def)

lemma keeps_secret_fd1: "x \<noteq> c \<Longrightarrow> keeps_secret b c (\<lambda>d. d\<lparr>ed_fd1 := x\<rparr>)" "keeps_secret False c (\<lambda>d. d\<lparr>ed_fd1 := x\<rparr>)"
  by (simp_all add: keeps_secret_def)

lemma keeps_secret_executor: "tls_executor (Some x) \<Longrightarrow> keeps_secret b c (\<lambda>d. d\<lparr>ed_pExecutor := Some x\<rparr>)"
  by (simp add: keeps_secret_def)

lemmas secret_base = stable_exec_bind stable_intros stable_upd_secret keeps_secret_upds stable_sys_secret untouched_ops untouched_unrecorded stable_other_secret

section \<open>The handlers\<close>

lemma secret_poll_fd:
  "stable (secret b a c put got) (addPollFd (logged os) a x ev)" "stable (secret b a c put got) (editPollFd (logged os) a x ev)"
  "stable (secret b a c put got) (removePollFd (logged os) a x)"
  unfolding addPollFd_def editPollFd_def removePollFd_def by (intro secret_base)+

lemma secret_closeFd: "-1 \<noteq> c \<Longrightarrow> stable (secret b a c put got) (closeFd (logged os) a x)"
  unfolding closeFd_def by (intro secret_base secret_poll_fd keeps_secret_fd1)

lemma secret_buffer:
  "stable (secret b a c put got) (buf_startWrite a)" "stable (secret b a c put got) (buf_startRead a)"
  "stable (secret b a c put got) (buf_store a p bs)" "stable (secret b a c put got) (buf_endWrite a n)"
  "stable (secret b a c put got) (buf_endRead a n)" "stable (secret b a c put got) (buf_clear a)"
  "stable (secret b a c put got) (buf_mem a p n)" "stable (secret b a c put got) (retry_inc a)"
  "stable (secret b a c put got) (retry_reset a)" "stable (secret b a c put got) (set_state a st)"
  unfolding buf_startWrite_def buf_startRead_def buf_store_def buf_endWrite_def buf_endRead_def buf_clear_def
    buf_mem_def retry_inc_def retry_reset_def set_state_def
  by (intro secret_base)+

lemmas secret_basic = secret_base secret_poll_fd secret_closeFd secret_buffer

lemma secret_ssl_io:
  "stable (secret b a c put got) (sslWriteFd0 (logged os) a bs)"
  "stable (secret b a c put got) (SslRequestExecutor_readFd0 (logged os) a p n)"
  unfolding sslWriteFd0_def SslRequestExecutor_readFd0_def by (intro secret_basic)+

lemma secret_up:
  "stable (secret False a c put got) (FileExecutor_up (logged os) a)"
  "stable (secret False a c put got) (ProxyExecutorReadWrite_up (logged os) a)"
  unfolding FileExecutor_up_def createOkResponse_def createResponse_def finish_response_def ProxyExecutorReadWrite_up_def
    socketConnectNonBlock_def socketConnectUnixNonBlock_def
  by (auto split: http_code.split intro!: secret_basic keeps_secret_fd1)


lemma secret_setExecutor:
  assumes "x \<in> {X_sslFile, X_sslProxy}"
  shows "stable (secret False a c put got) (setExecutor (executor_up (logged os)) a x)"
proof -
  have "stable (secret False a c put got) (executor_up (logged os) x a)" using assms secret_up by auto
  then show ?thesis
    unfolding setExecutor_def
    by (intro secret_basic keeps_secret_executor) (use assms in \<open>auto simp: tls_executor_def\<close>)
qed

lemma secret_request:
  "stable (secret False a c put got) (SslRequestExecutor_process (logged os) (executor_up (logged os)) a x ev)"
  unfolding SslRequestExecutor_process_def SslRequestExecutor_process_readRequest_def process_handshake_def handleHandshake_def
    process_readRequest_def readRequest_def parseRequest_def getExecutor.simps
  by (intro secret_basic secret_ssl_io secret_setExecutor) simp_all

lemma secret_file:
  "-1 \<noteq> c \<Longrightarrow> stable (secret True a c put got) (SslFileExecutor_process (logged os) a x ev)"
  unfolding SslFileExecutor_process_def FileExecutor_dispatch_def process_sendHeaders_def SslFileExecutor_process_sendFile_def
    sslFile_read_def sslFile_write_def
  by (intro secret_basic secret_ssl_io stable_plain_io) simp_all

lemma secret_proxy:
  "-1 \<noteq> c \<Longrightarrow> stable (secret True a c put got) (SslProxyExecutor_process (logged os) a x ev)"
  unfolding SslProxyExecutor_process_def ProxyExecutorReadWrite_process_def process_waitConnect_def process_forwardRequest_def
    process_forwardResponseRead_def process_forwardResponseWrite_def socketConnectNonBlockCheck_def
  by (intro secret_basic secret_ssl_io stable_plain_io) simp_all


section \<open>The event\<close>

definition plain_same :: "int \<Rightarrow> string \<Rightarrow> string \<Rightarrow> ('w \<times> traffic) poll_loop \<Rightarrow> bool" where
  "plain_same c put got s \<longleftrightarrow> tr_put (snd (pl_world s)) c = put \<and> tr_got (snd (pl_world s)) c = got"

lemma stable_plain:
  "stable (plain_same c put got) (upd a f)" "stable (plain_same c put got) (upd_poll p h)" "stable (plain_same c put got) (free_poll p)"
  "stable (plain_same c put got) (free_exec p)" "stable (plain_same c put got) (count_poll n)" "stable (plain_same c put got) (exec a)"
  "stable (plain_same c put got) (modify (\<lambda>s. s\<lparr>pl_execDatas := g1 s\<rparr>))" "stable (plain_same c put got) (modify (\<lambda>s. s\<lparr>pl_pollDatas := g2 s\<rparr>))"
  "stable (plain_same c put got) (modify (\<lambda>s. s\<lparr>pl_epollFd := g3 s\<rparr>))" "stable (plain_same c put got) (modify (\<lambda>s. s\<lparr>pl_eventFd := g4 s\<rparr>))"
  by (auto simp: stable_def wp_poll_ops plain_same_def)

lemma stable_plain_sys: "untouched g \<Longrightarrow> stable (plain_same c put got) (sys g)"
  by (auto simp: stable_def wp_sys_iff plain_same_def dest: untouchedD)

lemma untouched_close: "untouched (close_positive (logged os) x)"
  unfolding untouched_def by (metis close_positive_quiet prod.collapse)

lemma stable_plain_remove: "stable (plain_same c put got) (removeExecutorData (logged os) a)"
  "stable (plain_same c put got) (destroy (logged os))"
  unfolding removeExecutorData_def removePollFd_def destroy_def destroy_items_def close_member_def
  by (intro stable_intros stable_plain stable_plain_sys untouched_ops untouched_down untouched_close)+

lemma wp_bind_any: "(\<And>r s'. wp (f r) Q s') \<Longrightarrow> wp (State_Monad.bind m f) Q s"
  unfolding wp_bind by (rule wp_mono [OF wp_True])

lemma ed_down_executor: "ed_down os d w = (d', w') \<Longrightarrow> ed_pExecutor d' = None"
  by (auto simp: ed_down_def Let_def split: prod.splits)

lemma remove_no_executor: "wp (removeExecutorData os a) (\<lambda>_ s'. ed_pExecutor (pl_execs s' a) = None) s"
  unfolding removeExecutorData_def
  by (rule wp_bind_any, rule wp_bind_any, rule wp_bind_any, rule wp_bind_any, rule wp_bind_any)
    (auto simp: wp_poll_ops dest: ed_down_executor)

definition kept_secret :: "nat \<Rightarrow> int \<Rightarrow> string \<Rightarrow> string \<Rightarrow> bool option \<Rightarrow> ('w \<times> traffic) poll_loop \<Rightarrow> bool" where
  "kept_secret a c put got r s \<longleftrightarrow> plain_same c put got s
     \<and> (r = Some True \<longrightarrow> ed_pExecutor (pl_execs s a) = None \<or> tls_executor (ed_pExecutor (pl_execs s a)))"

lemma remove_secret:
  assumes "plain_same c put got s"
  shows "wp (removeExecutorData (logged os) a) (\<lambda>_. kept_secret a c put got (Some True)) s"
  unfolding kept_secret_def
  by (rule wp_mono [OF iffD2 [OF wp_conj conjI [OF stableD [OF stable_plain_remove(1) assms] remove_no_executor]]]) auto

lemma finish_secret:
  assumes "secret b a c put got s"
  shows "wp (finish_event (logged os) m a y) (kept_secret a c put got) s"
proof -
  have p: "plain_same c put got s" using assms by (simp add: secret_def plain_same_def)
  have d: "wp (destroy (logged os)) (\<lambda>_. kept_secret a c put got (Some False)) s"
    by (rule wp_mono [OF stableD [OF stable_plain_remove(2) p]]) (simp add: kept_secret_def)
  have u: "wp (upd a (\<lambda>d. d\<lparr>ed_lastProcessTime := m\<rparr>)) (\<lambda>_. kept_secret a c put got (Some True)) s"
    using assms by (simp add: upd_def wp_simps kept_secret_def plain_same_def secret_def)
  show ?thesis
    unfolding finish_event_def wp_simps
    using remove_secret [OF p] d u by (auto simp: exec_def wp_simps)
qed

lemma secret_process:
  assumes "secret (x \<noteq> X_sslRequest) a c put got s" "x \<in> {X_sslRequest, X_sslFile, X_sslProxy}" "0 \<le> c"
  shows "wp (executor_process (logged os) x a fd ev) (\<lambda>_. secret (x \<noteq> X_sslRequest) a c put got) s"
proof -
  have "-1 \<noteq> c" using assms(3) by simp
  then have "stable (secret (x \<noteq> X_sslRequest) a c put got) (executor_process (logged os) x a fd ev)"
    using assms(2) secret_request secret_file secret_proxy by (auto intro!: stable_intros)
  then show ?thesis using assms(1) by (rule stableD)
qed

section \<open>Properties\<close>




text \<open>
  The mask must be \<open>EPOLLIN\<close> alone: where OpenSSL wants to write before it can go on reading, \<open>readFd0\<close>
  registers for \<open>EPOLLIN | EPOLLOUT\<close>, and the next event, which carries \<open>EPOLLOUT\<close>, ends the connection.
\<close>

theorem tls_mask_refused:
  assumes "ed_state (pl_execs s a) = ES_readRequest" "ev \<noteq> EPOLLIN"
  shows "run_state (SslRequestExecutor_process os vup a fd ev) s = (Some PRES_removeExecutorError, s)"
  using assms by (simp add: SslRequestExecutor_process_def exec_def)

end
