(* ===== verification/NewConnections.thy ===== *)
theory NewConnections
  imports PollLoopProperties
begin

text \<open>
  Connections that other threads hand to a loop, over \<open>checkNewFd\<close> of \<open>src/PollLoop.cpp\<close>: the function empties
  the queue \<open>newFdsQueue\<close> and returns. The queue is boost's; what \<open>checkNewFd\<close> relies on is \<open>queue_view\<close>.
\<close>

section \<open>The queue\<close>

text \<open>
  \<open>q w\<close> is what lies in the queue in the world \<open>w\<close>: \<open>pop\<close> takes the first of it and fails when there is
  none, and the other calls that a new connection makes leave it alone. So no other thread adds to the
  queue while the function runs.
\<close>

definition keeps :: "('w \<Rightarrow> 'q) \<Rightarrow> ('w \<Rightarrow> 'a \<times> 'w) \<Rightarrow> bool" where
  "keeps q g \<longleftrightarrow> (\<forall>w. q (snd (g w)) = q w)"

definition queue_view :: "('w \<Rightarrow> (int \<times> executor_type) list) \<Rightarrow> 'w os \<Rightarrow> bool" where
  "queue_view q os \<longleftrightarrow>
     (\<forall>w. fst (os_queue_pop os w) = (case q w of [] \<Rightarrow> None | x # _ \<Rightarrow> Some x) \<and> q (snd (os_queue_pop os w)) = tl (q w))
   \<and> (\<forall>fd. keeps q (os_close os fd)) \<and> (\<forall>nm. keeps q (os_open os nm)) \<and> (\<forall>fd. keeps q (os_fstat os fd))
   \<and> (\<forall>af nb. keeps q (os_socket os af nb)) \<and> (\<forall>fd adr prt. keeps q (os_connect_inet os fd adr prt))
   \<and> (\<forall>fd pth. keeps q (os_connect_unix os fd pth)) \<and> (\<forall>fd. keeps q (os_setsockopt_reuseaddr os fd))
   \<and> (\<forall>fd prt. keeps q (os_bind os fd prt)) \<and> (\<forall>fd n. keeps q (os_listen os fd n))
   \<and> (\<forall>ep fd ev p. keeps q (os_epoll_add os ep fd ev p)) \<and> (\<forall>ep fd ev p. keeps q (os_epoll_mod os ep fd ev p))
   \<and> (\<forall>ep fd. keeps q (os_epoll_del os ep fd)) \<and> keeps q (os_getMilliseconds os) \<and> keeps q (os_SSL_new os)
   \<and> (\<forall>ssl fd. keeps q (os_SSL_set_fd os ssl fd)) \<and> (\<forall>ssl. keeps q (os_SSL_set_accept_state os ssl))
   \<and> (\<forall>ssl. keeps q (os_SSL_do_handshake os ssl)) \<and> (\<forall>ssl r. keeps q (os_SSL_get_error os ssl r))
   \<and> (\<forall>ssl. keeps q (os_SSL_shutdown os ssl)) \<and> (\<forall>ssl. keeps q (os_SSL_free os ssl))"

lemma keepsD: "keeps q g \<Longrightarrow> g w = (r, w') \<Longrightarrow> q w' = q w"
  unfolding keeps_def by (metis snd_conv)

lemma queue_pop:
  assumes "queue_view q os" "os_queue_pop os w = (r, w')"
  shows "r = (case q w of [] \<Rightarrow> None | x # _ \<Rightarrow> Some x)" "q w' = tl (q w)"
  using assms unfolding queue_view_def by (metis fst_conv snd_conv)+

definition queue_is :: "('w \<Rightarrow> 'q) \<Rightarrow> 'q \<Rightarrow> 'w poll_loop \<Rightarrow> bool" where
  "queue_is q xs s \<longleftrightarrow> q (pl_world s) = xs"

lemma stable_keeps: "keeps q g \<Longrightarrow> stable (queue_is q xs) (sys g)"
  by (auto simp: stable_def wp_sys_iff queue_is_def keeps_def) (metis snd_conv)+

lemma keeps_close_positive: "queue_view q os \<Longrightarrow> keeps q (close_positive os fd)"
  by (auto simp: queue_view_def keeps_def close_positive_def)

lemma keeps_down: "queue_view q os \<Longrightarrow> keeps q (ed_down os d)"
  using keeps_close_positive [of q os]
  by (auto simp: keeps_def ed_down_def Let_def queue_view_def split: option.split prod.split) (metis snd_conv)+

lemma stable_queue_ops:
  "stable (queue_is q xs) (errno os)" "stable (queue_is q xs) (exec a)" "stable (queue_is q xs) (upd a f)"
  "stable (queue_is q xs) (upd_poll p h)" "stable (queue_is q xs) allocate_poll" "stable (queue_is q xs) allocate_exec"
  "stable (queue_is q xs) (free_poll p)" "stable (queue_is q xs) (free_exec p)" "stable (queue_is q xs) (count_poll n)"
  by (auto simp: stable_def wp_poll_ops errno_def queue_is_def)


text \<open>Starting an executor leaves the queue alone.\<close>

lemma queue_ops:
  assumes "queue_view q os"
  shows "keeps q (os_close os fd)" "keeps q (os_open os nm)" "keeps q (os_fstat os fd)" "keeps q (os_socket os af nb)"
    "keeps q (os_connect_inet os fd adr prt)" "keeps q (os_connect_unix os fd pth)" "keeps q (os_setsockopt_reuseaddr os fd)"
    "keeps q (os_bind os fd prt)" "keeps q (os_listen os fd n)" "keeps q (os_epoll_add os ep fd ev p)"
    "keeps q (os_epoll_mod os ep fd ev p)" "keeps q (os_epoll_del os ep fd)" "keeps q (os_getMilliseconds os)"
    "keeps q (os_SSL_new os)" "keeps q (os_SSL_set_fd os ssl' fd)" "keeps q (os_SSL_set_accept_state os ssl')"
    "keeps q (os_SSL_do_handshake os ssl)" "keeps q (os_SSL_get_error os ssl r)" "keeps q (os_SSL_shutdown os ssl')"
    "keeps q (os_SSL_free os ssl')" "keeps q (ed_down os d)"
  using assms keeps_down [OF assms] by (simp_all add: queue_view_def)

lemmas queue_base = stable_intros stable_keeps queue_ops stable_queue_ops

lemma stable_queue_poll:
  assumes "queue_view q os"
  shows "stable (queue_is q xs) (addPollFd os a fd ev)" "stable (queue_is q xs) (editPollFd os a fd ev)"
    "stable (queue_is q xs) (removePollFd os a fd)" "stable (queue_is q xs) (removeExecutorData os a)"
  unfolding removeExecutorData_def addPollFd_def editPollFd_def removePollFd_def by (intro queue_base assms)+

lemma stable_queue_buffer:
  "stable (queue_is q xs) (buf_startWrite a)" "stable (queue_is q xs) (buf_store a p bs)" "stable (queue_is q xs) (buf_endWrite a n)"
  "stable (queue_is q xs) (buf_clear a)" "stable (queue_is q xs) (buf_init a n)" "stable (queue_is q xs) (set_state a st)"
  unfolding buf_startWrite_def buf_store_def buf_endWrite_def buf_clear_def buf_init_def set_state_def
  by (intro queue_base)+

lemma stable_queue_up:
  assumes "queue_view q os"
  shows "stable (queue_is q xs) (executor_up os x a)"
proof -
  note b = queue_base queue_ops [OF assms] stable_queue_poll [OF assms] stable_queue_buffer
  have "stable (queue_is q xs) (NewFdExecutor_up a)" "stable (queue_is q xs) (ServerExecutor_up os a)"
    "stable (queue_is q xs) (RequestExecutor_up os a)" "stable (queue_is q xs) (ProxyExecutorReadWrite_up os a)"
    "stable (queue_is q xs) (SslRequestExecutor_up os a)"
    unfolding NewFdExecutor_up_def ServerExecutor_up_def RequestExecutor_up_def ProxyExecutorReadWrite_up_def
      SslRequestExecutor_up_def sslInit_def handleHandshake_def socketConnectNonBlock_def socketConnectUnixNonBlock_def socketListen_def
    by (intro b assms)+
  moreover have "stable (queue_is q xs) (FileExecutor_up os a)"
    unfolding FileExecutor_up_def createOkResponse_def createResponse_def finish_response_def
    by (auto split: http_code.split intro!: b assms)
  ultimately show ?thesis by (cases x) (simp_all add: Splice_up_ReadWrite_up Ssl_server_server)
qed

lemma stable_queue_create:
  assumes "queue_view q os"
  shows "stable (queue_is q xs) (createRequestExecutorInternal os fd t)"
  unfolding createRequestExecutorInternal_def createExecutorData_def
  by (intro queue_base assms stable_queue_up stable_queue_poll)

section \<open>Emptying it\<close>

text \<open>A new connection is nobody else's data.\<close>

lemma create_frame:
  assumes "loop_rep us s"
  shows "wp (createRequestExecutorInternal os fd t) (\<lambda>_ s'. \<forall>a \<in> set us. pl_execs s' a = pl_execs s a) s"
proof -
  have F: "wp (do {
      upd b (\<lambda>d. d\<lparr>ed_pExecutor := Some (getExecutor t)\<rparr>); upd b (\<lambda>d. d\<lparr>ed_fd0 := fd\<rparr>);
      rc \<leftarrow> executor_up os (getExecutor t) b;
      if rc \<noteq> 0 then do { removeExecutorData os b; State_Monad.return (-1) } else State_Monad.return 0 })
      (\<lambda>_ s'. \<forall>a. a \<noteq> b \<longrightarrow> pl_execs s' a = pl_execs s a) s1"
    if "\<forall>a. a \<noteq> b \<longrightarrow> pl_execs s1 a = pl_execs s a" for b s1
    by (rule stableD [where P = "\<lambda>s'. \<forall>a. a \<noteq> b \<longrightarrow> pl_execs s' a = pl_execs s a"],
      intro others.basic others.stable_executor_up others.stable_removeExecutorData, rule that)
  show ?thesis
    unfolding createRequestExecutorInternal_def wp_bind [of "createExecutorData os"]
  proof (rule wp_createExecutorData [OF assms], unfold option.case, goal_cases)
    case (1 b c m s')
    have "a \<noteq> b" if "a \<in> set us" for a using 1(1) that by blast
    then show ?case using 1(4) by (intro wp_mono [OF F]) auto
  qed
qed

definition drained :: "('w \<Rightarrow> (int \<times> executor_type) list) \<Rightarrow> nat list \<Rightarrow> 'w poll_loop \<Rightarrow> nat \<Rightarrow> 'w poll_loop \<Rightarrow> bool" where
  "drained q us s n s' \<longleftrightarrow> (\<exists>bs. loop_rep (bs @ us) s' \<and> length bs \<le> n \<and> (\<forall>a \<in> set us. pl_execs s' a = pl_execs s a))"

lemma checkNewFd_body_drains:
  assumes q: "queue_view q os" and del: "epoll_del_ok os" and s: "loop_rep us s"
  shows "wp (checkNewFd_body os) (\<lambda>again s'. again = (q (pl_world s) \<noteq> []) \<and> q (pl_world s') = tl (q (pl_world s))
     \<and> drained q us s (if q (pl_world s) = [] then 0 else 1) s') s"
proof -
  have C: "wp (createRequestExecutorInternal os fd t) (\<lambda>r s'. wp (if r \<noteq> 0 then do { sys (os_close os fd); State_Monad.return True }
        else State_Monad.return True) (\<lambda>again s'. again \<and> q (pl_world s') = ys \<and> drained q us s 1 s') s') (s\<lparr>pl_world := w\<rparr>)"
    if "q w = ys" for fd t w ys
  proof -
    let ?s = "s\<lparr>pl_world := w\<rparr>"
    have "loop_rep us ?s" using s by simp
    then have "wp (createRequestExecutorInternal os fd t) (\<lambda>_ s'. \<exists>bs. loop_rep (bs @ us) s' \<and> length bs \<le> 1) ?s"
      by (rule createRequestExecutorInternal_rep [OF del]) blast
    moreover have "wp (createRequestExecutorInternal os fd t) (\<lambda>_ s'. queue_is q ys s') ?s"
      by (rule stableD [OF stable_queue_create [OF q]]) (simp add: queue_is_def that)
    moreover note create_frame [OF \<open>loop_rep us ?s\<close>]
    ultimately have "wp (createRequestExecutorInternal os fd t) (\<lambda>_ s'. (\<exists>bs. loop_rep (bs @ us) s' \<and> length bs \<le> 1)
        \<and> queue_is q ys s' \<and> (\<forall>a \<in> set us. pl_execs s' a = pl_execs s a)) ?s"
      by (simp add: wp_conj)
    then show ?thesis
      by (elim wp_mono) (auto simp: wp_poll_ops drained_def queue_is_def dest: keepsD [OF queue_ops(1) [OF q]])
  qed
  show ?thesis
    unfolding checkNewFd_body_def wp_bind [of "sys (os_queue_pop os)"]
  proof (rule wp_sys, goal_cases)
    case (1 r w)
    show ?case
    proof (cases "q (pl_world s)")
      case Nil
      then show ?thesis using queue_pop [OF q 1] s by (auto simp: wp_simps drained_def intro!: exI [of _ "[]"])
    next
      case (Cons x xs)
      obtain fd t where x: "x = (fd, t)" by fastforce
      show ?thesis using Cons queue_pop [OF q 1] C [of w xs fd t] by (simp add: x wp_bind)
    qed
  qed
qed


lemma checkNewFd_loop_drains:
  assumes q: "queue_view q os" and del: "epoll_del_ok os" and s: "loop_rep us s" and n: "q (pl_world s) = xs"
  shows "\<exists>s'. checkNewFd_loop os s = Some s' \<and> q (pl_world s') = [] \<and> drained q us s (length xs) s'"
  using s n
proof (induction xs arbitrary: us s)
  case Nil
  obtain again s1 where b: "run_state (checkNewFd_body os) s = (again, s1)" by fastforce
  from wp_run [OF checkNewFd_body_drains [OF q del Nil.prems(1)] b] Nil.prems(2) b show ?case
    by (subst checkNewFd_loop.simps) simp
next
  case (Cons x xs)
  obtain again s1 where b: "run_state (checkNewFd_body os) s = (again, s1)" by fastforce
  from wp_run [OF checkNewFd_body_drains [OF q del Cons.prems(1)] b] Cons.prems(2)
  obtain bs where s1: "again" "q (pl_world s1) = xs" "loop_rep (bs @ us) s1" "length bs \<le> 1"
    "\<forall>a \<in> set us. pl_execs s1 a = pl_execs s a" by (auto simp: drained_def)
  from Cons.IH [OF s1(3,2)] obtain s' cs where s': "checkNewFd_loop os s1 = Some s'" "q (pl_world s') = []"
    "loop_rep (cs @ bs @ us) s'" "length cs \<le> length xs" "\<forall>a \<in> set (bs @ us). pl_execs s' a = pl_execs s1 a"
    by (auto simp: drained_def)
  have "drained q us s (length (x # xs)) s'"
    unfolding drained_def by (rule exI [of _ "cs @ bs"]) (use s' s1 in auto)
  then show ?case using s' s1(1) b by (subst checkNewFd_loop.simps) simp
qed

section \<open>Properties\<close>


text \<open>A kernel whose input is a queue of connections, a character for each descriptor.\<close>

definition queue_os :: "sample_world os" where
  "queue_os = sample_os\<lparr>os_queue_pop := (\<lambda>w. case sw_input w of [] \<Rightarrow> (None, w)
     | c # cs \<Rightarrow> (Some (int (of_char c), ET_request), w\<lparr>sw_input := cs\<rparr>))\<rparr>"


end
