(* ===== verification/OpenSslLocks.thy ===== *)
theory OpenSslLocks
  imports Prelude "HOL-Library.Word"
begin

unbundle bit_operations_syntax

text \<open>
  The locks that \<open>src/Server.cpp\<close> lends to OpenSSL: one \<open>std::recursive_mutex\<close> for each of OpenSSL's locks,
  in the array \<open>sslMutexes\<close>, taken and released by \<open>sslLockCallback\<close> from the threads of all poll loops.
  The array, the callbacks and the flag \<open>sslInited\<close> are set up by \<open>sslInit\<close> and taken away by
  \<open>staticDestroy\<close>; their calls to the library are part of theory \<open>Server\<close>.
\<close>

section \<open>The mutexes\<close>

text \<open>
  A locked mutex has an owner and counts its locks. \<open>None\<close> as a result of \<open>mutex_lock\<close>: the thread
  waits; of \<open>mutex_unlock\<close>: the caller is not the owner, which \<open>std::recursive_mutex\<close> leaves undefined.
\<close>

type_synonym mutex = "(nat \<times> nat) option"

fun mutex_lock :: "nat \<Rightarrow> mutex \<Rightarrow> mutex option" where
  "mutex_lock t None = Some (Some (t, 1))"
| "mutex_lock t (Some (u, n)) = (if t = u then Some (Some (u, n + 1)) else None)"

fun mutex_unlock :: "nat \<Rightarrow> mutex \<Rightarrow> mutex option" where
  "mutex_unlock t None = None"
| "mutex_unlock t (Some (u, n)) = (if t = u then Some (if n \<le> 1 then None else Some (u, n - 1)) else None)"

section \<open>The callbacks\<close>

definition CRYPTO_LOCK :: "32 word" where "CRYPTO_LOCK = 1"

text \<open>\<open>CRYPTO_THREADID_set_numeric(pid, (unsigned long)pthread_self())\<close>: the number that identifies a thread.\<close>

definition sslIdCallback :: "64 word \<Rightarrow> 64 word" where
  "sslIdCallback self = self"

text \<open>The new contents of \<open>sslMutexes\<close>; \<open>None\<close> where the call waits or is undefined, as for an index out of range.\<close>

definition sslLockCallback :: "nat \<Rightarrow> 32 word \<Rightarrow> nat \<Rightarrow> mutex list \<Rightarrow> mutex list option" where
  "sslLockCallback t mode n sslMutexes =
     (if n < length sslMutexes
      then map_option (\<lambda>m. sslMutexes[n := m])
        (if mode AND CRYPTO_LOCK \<noteq> 0 then mutex_lock t (sslMutexes ! n) else mutex_unlock t (sslMutexes ! n))
      else None)"

section \<open>Setting up and taking down\<close>

text \<open>
  The static data of \<open>Server.cpp\<close> and what it has registered with OpenSSL: the locking callback, the
  callback for thread identifiers, and the older one for the same purpose.
\<close>

record ssl_static =
  ss_inited :: bool
  ss_mutexes :: "mutex list option"
  ss_locking :: bool
  ss_threadid :: bool
  ss_id :: bool

definition ss_start :: ssl_static where
  "ss_start = \<lparr>ss_inited = False, ss_mutexes = None, ss_locking = False, ss_threadid = False, ss_id = False\<rparr>"

text \<open>\<open>num_locks\<close> is the result of \<open>CRYPTO_num_locks()\<close>.\<close>

definition sslInit_locks :: "nat \<Rightarrow> ssl_static \<Rightarrow> ssl_static" where
  "sslInit_locks num_locks s =
     (if \<not> ss_inited s
      then s\<lparr>ss_mutexes := Some (replicate num_locks None), ss_threadid := True, ss_locking := True, ss_inited := True\<rparr>
      else s)"

definition staticDestroy_locks :: "ssl_static \<Rightarrow> ssl_static" where
  "staticDestroy_locks s =
     (if ss_inited s
      then s\<lparr>ss_inited := False, ss_locking := False, ss_id := False,
             ss_mutexes := (if ss_mutexes s \<noteq> None then None else ss_mutexes s)\<rparr>
      else s)"

section \<open>Interleavings\<close>

text \<open>
  OpenSSL calls the locking callback from several threads; the calls take effect one after the other. A
  call is a thread, a mode and the number of a lock.
\<close>

type_synonym lock_call = "nat \<times> 32 word \<times> nat"

inductive lock_step :: "mutex list \<Rightarrow> lock_call \<Rightarrow> mutex list \<Rightarrow> bool" where
  "sslLockCallback t mode i ms = Some ms' \<Longrightarrow> lock_step ms (t, mode, i) ms'"

inductive lock_run :: "mutex list \<Rightarrow> lock_call list \<Rightarrow> mutex list \<Rightarrow> bool" where
  Nil: "lock_run ms [] ms"
| Snoc: "lock_run ms cs ms' \<Longrightarrow> lock_step ms' c ms'' \<Longrightarrow> lock_run ms (cs @ [c]) ms''"

inductive_simps lock_step_iff: "lock_step ms (t, mode, i) ms'"
inductive_cases lock_stepE: "lock_step ms c ms'"

code_pred lock_step .

text \<open>How often \<open>t\<close> has locked \<open>i\<close> more than it has unlocked it.\<close>

fun held :: "lock_call list \<Rightarrow> nat \<Rightarrow> nat \<Rightarrow> int" where
  "held [] t i = 0"
| "held ((u, mode, j) # cs) t i = (if u = t \<and> j = i then (if mode AND CRYPTO_LOCK \<noteq> 0 then 1 else -1) else 0) + held cs t i"

lemma held_append [simp]: "held (cs @ ds) t i = held cs t i + held ds t i"
  by (induction cs t i rule: held.induct) simp_all

definition mutex_says :: "mutex \<Rightarrow> (nat \<Rightarrow> int) \<Rightarrow> bool" where
  "mutex_says m h \<longleftrightarrow> (case m of None \<Rightarrow> \<forall>t. h t = 0
     | Some (u, k) \<Rightarrow> 0 < k \<and> h u = int k \<and> (\<forall>t. t \<noteq> u \<longrightarrow> h t = 0))"

lemma mutex_lock_says:
  assumes "mutex_says m h" "mutex_lock t m = Some m'"
  shows "mutex_says m' (\<lambda>u. (if t = u then 1 else 0) + h u)"
  using assms by (cases m) (auto simp: mutex_says_def split: if_splits)

lemma mutex_unlock_says:
  assumes "mutex_says m h" "mutex_unlock t m = Some m'"
  shows "mutex_says m' (\<lambda>u. (if t = u then -1 else 0) + h u)"
  using assms by (cases m) (auto simp: mutex_says_def split: if_splits)

lemma lock_run_says:
  assumes "lock_run ms0 cs ms" "ms0 = replicate n None"
  shows "length ms = n \<and> (\<forall>i < n. mutex_says (ms ! i) (\<lambda>t. held cs t i))"
  using assms
proof (induction rule: lock_run.induct)
  case (Nil ms)
  then show ?case by (simp add: mutex_says_def)
next
  case (Snoc ms cs ms' c ms'')
  obtain t mode j where c: "c = (t, mode, j)" by (metis prod.exhaust)
  from Snoc.hyps(2) obtain m where m: "j < length ms'" "ms'' = ms'[j := m]"
    "(if mode AND CRYPTO_LOCK \<noteq> 0 then mutex_lock t (ms' ! j) else mutex_unlock t (ms' ! j)) = Some m"
    by (auto simp: c lock_step_iff sslLockCallback_def split: if_splits)
  have IH: "length ms' = n" "i < n \<Longrightarrow> mutex_says (ms' ! i) (\<lambda>t. held cs t i)" for i
    using Snoc.IH Snoc.prems by auto
  have "mutex_says m (\<lambda>u. held (cs @ [c]) u j)"
    using mutex_lock_says [OF IH(2), of j t m] mutex_unlock_says [OF IH(2), of j t m] m IH(1)
    by (cases "mode AND CRYPTO_LOCK = 0") (simp_all add: c add.commute cong: if_cong)
  then have "mutex_says (ms'' ! i) (\<lambda>u. held (cs @ [c]) u i)" if "i < n" for i
    using IH that m(1,2) by (cases "i = j") (simp_all add: c)
  then show ?case using IH(1) m(2) by simp
qed

section \<open>Properties\<close>

text \<open>
  C23: The locks that OpenSSL is given exclude: after any interleaving of calls from any threads, at most
  one thread holds a lock. A thread's call to lock it returns exactly when no other thread holds
  it, so a thread may lock again what it has; and its call to unlock is defined exactly when it holds the lock.
\<close>

theorem ssl_locks_exclude:
  assumes "lock_run (replicate n None) cs ms" "i < n"
  shows "(0 < held cs t i \<and> 0 < held cs u i \<longrightarrow> t = u)
    \<and> (mode AND CRYPTO_LOCK \<noteq> 0 \<longrightarrow> (\<exists>ms'. lock_step ms (t, mode, i) ms') = (\<forall>v. v \<noteq> t \<longrightarrow> held cs v i = 0))
    \<and> (mode AND CRYPTO_LOCK = 0 \<longrightarrow> (\<exists>ms'. lock_step ms (t, mode, i) ms') = (0 < held cs t i))"
proof -
  have l: "i < length ms" "mutex_says (ms ! i) (\<lambda>t. held cs t i)" using lock_run_says [OF assms(1) refl] assms(2) by auto
  show ?thesis
  proof (cases "ms ! i")
    case None
    then show ?thesis using l by (simp add: mutex_says_def lock_step_iff sslLockCallback_def)
  next
    case (Some p)
    obtain v k where p: "p = (v, k)" by fastforce
    have h: "held cs v i = int k" "0 < k" "\<And>x. x \<noteq> v \<Longrightarrow> held cs x i = 0"
      using l(2) Some p by (simp_all add: mutex_says_def)
    have ex: "x = v" if "0 < held cs x i" for x using h(3) [of x] that by (cases "x = v") auto
    have "(\<exists>ms'. lock_step ms (t, mode, i) ms') = (t = v)"
      using l(1) Some p by (simp add: lock_step_iff sslLockCallback_def)
    moreover have "(\<forall>x. x \<noteq> t \<longrightarrow> held cs x i = 0) = (t = v)"
      using h(1,2,3) by (metis less_irrefl of_nat_0_less_iff)
    moreover have "(0 < held cs t i) = (t = v)" using h(1,2) ex [of t] by auto
    moreover have "0 < held cs t i \<and> 0 < held cs u i \<longrightarrow> t = u" using ex by metis
    ultimately show ?thesis by simp
  qed
qed

lemma ssl_locks_exclude_witness:
  "\<not> (\<exists>ms'. lock_step [Some (7, 1), None] (8, CRYPTO_LOCK, 0) ms') \<and> (\<exists>ms'. lock_step [Some (7, 1), None] (7, CRYPTO_LOCK, 0) ms')"
proof -
  have "lock_run (replicate 2 None) ([] @ [(7, CRYPTO_LOCK, 0)]) [Some (7, 1), None]"
    by (rule lock_run.Snoc [OF lock_run.Nil]) (simp add: lock_step_iff sslLockCallback_def numeral_2_eq_2 CRYPTO_LOCK_def)
  from ssl_locks_exclude [OF this, of 0 8 7 CRYPTO_LOCK] ssl_locks_exclude [OF this, of 0 7 7 CRYPTO_LOCK]
  show ?thesis by (auto simp: CRYPTO_LOCK_def)
qed

text \<open>
  \<open>sslInit\<close> gives OpenSSL free locks once, however often it is called, and \<open>staticDestroy\<close> takes the array and the locking
  callback away; but the callback for thread identifiers that \<open>sslInit\<close> has registered stays, as
  \<open>staticDestroy\<close> resets the other one.
\<close>

theorem ssl_locks_lifecycle:
  assumes "\<not> ss_inited s"
  shows "ss_mutexes (sslInit_locks n s) = Some (replicate n None)"
    "sslInit_locks m (sslInit_locks n s) = sslInit_locks n s"
    "ss_mutexes (staticDestroy_locks (sslInit_locks n s)) = None" "\<not> ss_locking (staticDestroy_locks (sslInit_locks n s))"
    "ss_threadid (staticDestroy_locks (sslInit_locks n s))"
  using assms by (simp_all add: sslInit_locks_def staticDestroy_locks_def)

end
