(* ===== verification/TransferBuffer.thy ===== *)
theory TransferBuffer
  imports TransferArea
begin

text \<open>
  \<open>src/utils/TransferBuffer.h\<close>: a linear buffer over memory it does not own, which the log
  writer lays over its mapped file. \<open>tb_buf = None\<close> is \<open>buf == nullptr\<close>.
\<close>

record linear_buffer =
  tb_buf :: "string option"
  tb_readHead :: nat
  tb_writeHead :: nat
  tb_bufSize :: nat

definition tb_empty :: linear_buffer where
  "tb_empty = \<lparr>tb_buf = None, tb_readHead = 0, tb_writeHead = 0, tb_bufSize = 0\<rparr>"

definition tb_clear :: "linear_buffer \<Rightarrow> linear_buffer" where
  "tb_clear b = b\<lparr>tb_writeHead := 0, tb_readHead := 0\<rparr>"

definition tb_init :: "string option \<Rightarrow> nat \<Rightarrow> linear_buffer \<Rightarrow> linear_buffer" where
  "tb_init buffer n b = tb_clear (b\<lparr>tb_buf := buffer, tb_bufSize := n\<rparr>)"

definition tb_startWrite :: "linear_buffer \<Rightarrow> region" where
  "tb_startWrite b =
     (if tb_writeHead b \<ge> tb_bufSize b then (False, 0, 0)
      else (True, tb_writeHead b, tb_bufSize b - tb_writeHead b))"

definition tb_endWrite :: "nat \<Rightarrow> linear_buffer \<Rightarrow> linear_buffer" where
  "tb_endWrite n b = b\<lparr>tb_writeHead := tb_writeHead b + n\<rparr>"

definition tb_startRead :: "linear_buffer \<Rightarrow> region" where
  "tb_startRead b =
     (let sz = int (tb_writeHead b) - int (tb_readHead b)
      in (sz > 0, tb_readHead b, nat sz))"

definition tb_endRead :: "nat \<Rightarrow> linear_buffer \<Rightarrow> linear_buffer" where
  "tb_endRead n b = b\<lparr>tb_readHead := tb_readHead b + n\<rparr>"

definition tb_readAvailable :: "linear_buffer \<Rightarrow> bool" where
  "tb_readAvailable b = fst (tb_startRead b)"

definition tb_getDataPtr :: "linear_buffer \<Rightarrow> string option" where
  "tb_getDataPtr b = tb_buf b"

definition tb_mem :: "linear_buffer \<Rightarrow> string" where
  "tb_mem b = (case tb_buf b of None \<Rightarrow> [] | Some m \<Rightarrow> m)"

definition tb_store :: "nat \<Rightarrow> string \<Rightarrow> linear_buffer \<Rightarrow> linear_buffer" where
  "tb_store p bs b = b\<lparr>tb_buf := map_option (mem_write p bs) (tb_buf b)\<rparr>"

definition tb_content :: "linear_buffer \<Rightarrow> string" where
  "tb_content b = mem_read (tb_readHead b) (tb_writeHead b - tb_readHead b) (tb_mem b)"

definition tb_inv :: "linear_buffer \<Rightarrow> bool" where
  "tb_inv b \<longleftrightarrow> length (tb_mem b) = tb_bufSize b \<and> tb_readHead b \<le> tb_writeHead b
     \<and> tb_writeHead b \<le> tb_bufSize b"

lemmas tb_defs = tb_startWrite_def tb_endWrite_def tb_startRead_def tb_endRead_def tb_store_def
  tb_content_def tb_inv_def tb_mem_def mem_read_def

lemma tb_inv_empty: "tb_inv tb_empty"
  by (simp add: tb_inv_def tb_empty_def tb_mem_def)

lemma tb_init_inv: "tb_inv (tb_init (Some m) (length m) b)" "tb_inv (tb_init None 0 b)"
  by (simp_all add: tb_init_def tb_clear_def tb_inv_def tb_mem_def)

lemma tb_init_content [simp]: "tb_content (tb_init m n b) = []"
  by (simp add: tb_init_def tb_clear_def tb_content_def mem_read_def)

lemma tb_write:
  "tb_inv b \<Longrightarrow> tb_startWrite b = (True, p, n) \<Longrightarrow> length bs \<le> n \<Longrightarrow>
     tb_inv (tb_endWrite (length bs) (tb_store p bs b))
     \<and> tb_content (tb_endWrite (length bs) (tb_store p bs b)) = tb_content b @ bs"
  by (cases "tb_buf b") (auto simp: tb_defs mem_write_def drop_take split: if_splits)

lemma tb_startRead_region:
  "tb_inv b \<Longrightarrow> tb_startRead b = (True, p, n) \<Longrightarrow>
     p + n \<le> length (tb_mem b) \<and> n \<le> length (tb_content b)
     \<and> mem_read p n (tb_mem b) = take n (tb_content b)"
  by (cases "tb_buf b") (auto simp: tb_defs Let_def nat_diff_distrib split: if_splits)

interpretation tb: transfer_area "\<lambda>b. (tb_startWrite b, b)" tb_endWrite tb_startRead tb_endRead
    tb_store tb_mem tb_content tb_inv
proof (unfold_locales, goal_cases)
  case (1 q reg q')
  then show ?case by simp
next
  case (2 q p n q')
  then show ?case by (auto simp: tb_startWrite_def tb_inv_def split: if_splits)
next
  case (3 q p n q' bs)
  then show ?case using tb_write by blast
next
  case (4 q ok p n)
  then show ?case by (cases "tb_buf q") (auto simp: tb_defs Let_def)
next
  case (5 q p n)
  then show ?case by (rule tb_startRead_region)
next
  case (6 q p n k)
  then show ?case
    by (cases "tb_buf q") (auto simp: tb_defs Let_def drop_take add.commute nat_diff_distrib)
qed

section \<open>Properties\<close>

text \<open>
  The linear buffer is a queue of bytes as well, until it is full.
\<close>

theorem linear_fifo:
  assumes "tb_inv q" "area_run (area_put (\<lambda>b. (tb_startWrite b, b)) tb_store tb_endWrite)
      (area_get tb_startRead tb_mem tb_endRead) ops q = (taken, given, q')"
  shows "tb_inv q' \<and> tb_content q @ taken = given @ tb_content q'"
  using assms by (rule tb.run_fifo)

lemma linear_fifo_witness:
  "case area_run (area_put (\<lambda>b. (tb_startWrite b, b)) tb_store tb_endWrite)
      (area_get tb_startRead tb_mem tb_endRead) [Put ''abc'', Get 2, Put ''de'', Get 5]
      (tb_init (Some ''....'') 4 tb_empty) of
    (taken, given, q') \<Rightarrow> taken = ''abcd'' \<and> given = ''abcd'' \<and> taken = given @ tb_content q'"
proof -
  have i: "tb_inv (tb_init (Some ''....'') 4 tb_empty)" by code_simp
  have "area_run (area_put (\<lambda>b. (tb_startWrite b, b)) tb_store tb_endWrite)
      (area_get tb_startRead tb_mem tb_endRead) [Put ''abc'', Get 2, Put ''de'', Get 5]
      (tb_init (Some ''....'') 4 tb_empty)
    = (''abcd'', ''abcd'', \<lparr>tb_buf = Some ''abcd'', tb_readHead = 4, tb_writeHead = 4, tb_bufSize = 4\<rparr>)"
    by code_simp
  with linear_fifo [OF i this] show ?thesis by simp
qed

end
