(* ===== verification/Server.thy ===== *)
theory Server
  imports PollLoopReachable
begin

text \<open>
  \<open>src/Server.cpp\<close>: the server owns a poll loop and a thread per loop. It starts and stops them, deals
  the ports out to the loops, and gives every accepted connection to the loop with the fewest
  descriptors. A loop's call \<open>srv->createRequestExecutor\<close> is the field \<open>os_srv_createRequestExecutor\<close>
  of its world; \<open>Server_createRequestExecutor\<close> is what it runs. Calls of the log only write text and are left out, as is
  the name given to a thread. A thread's body, \<open>threadEntry\<close>, is the \<open>run\<close> of its loop.
\<close>

section \<open>The world of the server\<close>

text \<open>
  The calls of \<open>Server.cpp\<close> to OpenSSL, to \<open>std::thread\<close> and to the log objects. Each loop \<open>i\<close> has its
  own queue and flag, so it calls \<open>os i\<close>; all act on one world.
\<close>

record 'w server_os =
  so_log_init :: "log_type \<Rightarrow> server_parameters \<Rightarrow> 'w \<Rightarrow> int \<times> 'w"
  so_log_delete :: "log_type \<Rightarrow> 'w \<Rightarrow> unit \<times> 'w"
  so_ssl_library_init :: "'w \<Rightarrow> unit \<times> 'w"
  so_ssl_library_free :: "'w \<Rightarrow> unit \<times> 'w"
  so_SSL_CTX_new :: "'w \<Rightarrow> nat option \<times> 'w"
  so_SSL_CTX_use_certificate_file :: "nat \<Rightarrow> string \<Rightarrow> 'w \<Rightarrow> int \<times> 'w"
  so_SSL_CTX_use_PrivateKey_file :: "nat \<Rightarrow> string \<Rightarrow> 'w \<Rightarrow> int \<times> 'w"
  so_SSL_CTX_check_private_key :: "nat \<Rightarrow> 'w \<Rightarrow> int \<times> 'w"
  so_SSL_CTX_free :: "nat \<Rightarrow> 'w \<Rightarrow> unit \<times> 'w"
  so_thread_start :: "nat \<Rightarrow> 'w \<Rightarrow> unit \<times> 'w"
  so_thread_join :: "nat \<Rightarrow> 'w \<Rightarrow> unit \<times> 'w"
  so_ERR_remove_state :: "'w \<Rightarrow> unit \<times> 'w"

text \<open>
  The members of \<open>Server\<close> and the static flag \<open>sslInited\<close>; a null pointer is \<open>None\<close>. The world the
  loops share is kept here; the copy inside a loop's record is only used while the loop runs.
\<close>

record 'w server =
  sv_world :: 'w
  sv_parameters :: server_parameters
  sv_loops :: "'w poll_loop list option"
  sv_threads :: "nat list option"
  sv_log :: "log_type option"
  sv_sslCtx :: "nat option"
  sv_sslInited :: bool

definition sv_init :: "'w \<Rightarrow> 'w server" where
  "sv_init w = \<lparr>sv_world = w, sv_parameters = sp_defaults, sv_loops = None, sv_threads = None, sv_log = None,
     sv_sslCtx = None, sv_sslInited = False\<rparr>"

definition srv_sys :: "('w \<Rightarrow> 'a \<times> 'w) \<Rightarrow> ('w server, 'a) state" where
  "srv_sys f = State (\<lambda>s. case f (sv_world s) of (r, w) \<Rightarrow> (r, s\<lparr>sv_world := w\<rparr>))"

definition loops_of :: "'w server \<Rightarrow> 'w poll_loop list" where
  "loops_of s = (case sv_loops s of None \<Rightarrow> [] | Some ls \<Rightarrow> ls)"

text \<open>A member function of \<open>loops[i]\<close>.\<close>

definition on_loop :: "nat \<Rightarrow> ('w poll_loop, 'a) state \<Rightarrow> ('w server, 'a) state" where
  "on_loop i m = State (\<lambda>s. case run_state m ((loops_of s ! i)\<lparr>pl_world := sv_world s\<rparr>) of
     (r, l) \<Rightarrow> (r, s\<lparr>sv_world := pl_world l,
       sv_loops := Some ((loops_of s)[i := l\<lparr>pl_world := pl_world (loops_of s ! i)\<rparr>])\<rparr>))"

section \<open>OpenSSL\<close>

definition Server_sslInit :: "'w server_os \<Rightarrow> ('w server, int) state" where
  "Server_sslInit so = do {
     inited \<leftarrow> gets sv_sslInited;
     (if \<not> inited then do {
        srv_sys (so_ssl_library_init so);
        modify (\<lambda>s. s\<lparr>sv_sslInited := True\<rparr>)
      } else State_Monad.return ());
     State_Monad.return 0
   }"

definition staticDestroy :: "'w server_os \<Rightarrow> ('w server, unit) state" where
  "staticDestroy so = do {
     inited \<leftarrow> gets sv_sslInited;
     if inited then do {
       modify (\<lambda>s. s\<lparr>sv_sslInited := False\<rparr>);
       srv_sys (so_ssl_library_free so)
     } else State_Monad.return ()
   }"

definition sslCreateContext :: "'w server_os \<Rightarrow> ('w server, nat option) state" where
  "sslCreateContext so = do {
     sslCtx \<leftarrow> srv_sys (so_SSL_CTX_new so);
     case sslCtx of
       None \<Rightarrow> State_Monad.return None
     | Some ctx \<Rightarrow> do {
         rc \<leftarrow> srv_sys (so_SSL_CTX_use_certificate_file so ctx ''server.pem'');
         if rc \<le> 0 then do { srv_sys (so_SSL_CTX_free so ctx); State_Monad.return None }
         else do {
           rc \<leftarrow> srv_sys (so_SSL_CTX_use_PrivateKey_file so ctx ''server.pem'');
           if rc \<le> 0 then do { srv_sys (so_SSL_CTX_free so ctx); State_Monad.return None }
           else do {
             rc \<leftarrow> srv_sys (so_SSL_CTX_check_private_key so ctx);
             if rc \<le> 0 then do { srv_sys (so_SSL_CTX_free so ctx); State_Monad.return None }
             else State_Monad.return (Some ctx)
           }
         }
       }
   }"

definition sslDestroyContext :: "'w server_os \<Rightarrow> nat \<Rightarrow> ('w server, unit) state" where
  "sslDestroyContext so sslCtx = srv_sys (so_SSL_CTX_free so sslCtx)"

section \<open>Stopping\<close>

text \<open>
  \<open>delete[] loops\<close> runs the destructors from the last loop to the first; a loop's destructor calls
  \<open>destroy\<close>.
\<close>

definition stop_threads :: "(nat \<Rightarrow> 'w os) \<Rightarrow> 'w server_os \<Rightarrow> ('w server, unit) state" where
  "stop_threads os so = do {
     n \<leftarrow> gets (\<lambda>s. nat (sp_threadCount (sv_parameters s)));
     loops \<leftarrow> gets sv_loops;
     (if loops \<noteq> None then for_each (\<lambda>i. on_loop i (PollLoop_stop (os i))) [0..<n] else State_Monad.return ());
     threads \<leftarrow> gets sv_threads;
     (if threads \<noteq> None then for_each (\<lambda>i. srv_sys (so_thread_join so i)) [0..<n] else State_Monad.return ())
   }"

definition delete_loops :: "(nat \<Rightarrow> 'w os) \<Rightarrow> ('w server, unit) state" where
  "delete_loops os = do {
     loops \<leftarrow> gets sv_loops;
     if loops \<noteq> None then do {
       k \<leftarrow> gets (\<lambda>s. length (loops_of s));
       for_each (\<lambda>i. on_loop i (destroy (os i))) (rev [0..<k]);
       modify (\<lambda>s. s\<lparr>sv_loops := None\<rparr>)
     } else State_Monad.return ()
   }"

definition delete_objects :: "'w server_os \<Rightarrow> ('w server, unit) state" where
  "delete_objects so = do {
     modify (\<lambda>s. s\<lparr>sv_threads := None\<rparr>);
     ctx \<leftarrow> gets sv_sslCtx;
     (case ctx of
        None \<Rightarrow> State_Monad.return ()
      | Some c \<Rightarrow> do { sslDestroyContext so c; modify (\<lambda>s. s\<lparr>sv_sslCtx := None\<rparr>) });
     log \<leftarrow> gets sv_log;
     (case log of
        None \<Rightarrow> State_Monad.return ()
      | Some t \<Rightarrow> do { srv_sys (so_log_delete so t); modify (\<lambda>s. s\<lparr>sv_log := None\<rparr>) })
   }"

definition Server_stop :: "(nat \<Rightarrow> 'w os) \<Rightarrow> 'w server_os \<Rightarrow> ('w server, unit) state" where
  "Server_stop os so = do { stop_threads os so; delete_loops os; delete_objects so }"

section \<open>Starting\<close>

text \<open>
  The loops over the threads and the ports, which \<open>return -1\<close> at the first failure: the result is the
  list of those that are left, empty when all succeeded.
\<close>

fun init_loops :: "(nat \<Rightarrow> 'w os) \<Rightarrow> server_parameters \<Rightarrow> nat list \<Rightarrow> ('w server, bool) state" where
  "init_loops os parameters [] = State_Monad.return True"
| "init_loops os parameters (i # is) = do {
     rc \<leftarrow> on_loop i (PollLoop_init (os i) parameters);
     if rc \<noteq> 0 then State_Monad.return False else init_loops os parameters is
   }"

fun listen_ports :: "(nat \<Rightarrow> 'w os) \<Rightarrow> nat \<Rightarrow> executor_type \<Rightarrow> nat \<Rightarrow> int list \<Rightarrow> ('w server, bool) state" where
  "listen_ports os threadCount execType counter [] = State_Monad.return True"
| "listen_ports os threadCount execType counter (port # ports) = do {
     rc \<leftarrow> on_loop (counter mod threadCount) (listenPort (os (counter mod threadCount)) port execType);
     if rc \<noteq> 0 then State_Monad.return False
     else listen_ports os threadCount execType (counter + 1) ports
   }"

text \<open>
  \<open>None\<close>: the program ends abnormally. \<open>new PollLoop[n]\<close> throws for a negative \<open>n\<close>, and the
  first port is assigned with a division by \<open>n\<close>.
\<close>

definition start_ssl :: "'w server_os \<Rightarrow> server_parameters \<Rightarrow> ('w server, bool) state" where
  "start_ssl so parameters =
     (if sp_httpsPorts parameters \<noteq> [] then do {
        rc \<leftarrow> Server_sslInit so;
        if rc \<noteq> 0 then State_Monad.return False
        else do {
          ctx \<leftarrow> sslCreateContext so;
          modify (\<lambda>s. s\<lparr>sv_sslCtx := ctx\<rparr>);
          State_Monad.return (ctx \<noteq> None)
        }
      } else State_Monad.return True)"

definition start_ports :: "(nat \<Rightarrow> 'w os) \<Rightarrow> server_parameters \<Rightarrow> ('w server, bool) state" where
  "start_ports os parameters = do {
     ok \<leftarrow> listen_ports os (nat (sp_threadCount parameters)) ET_server 0 (sp_httpPorts parameters);
     if \<not> ok then State_Monad.return False
     else listen_ports os (nat (sp_threadCount parameters)) ET_serverSsl (length (sp_httpPorts parameters))
       (sp_httpsPorts parameters)
   }"

definition Server_start :: "(nat \<Rightarrow> 'w os) \<Rightarrow> 'w server_os \<Rightarrow> server_parameters \<Rightarrow> ('w server, int option) state" where
  "Server_start os so parameters = do {
     modify (\<lambda>s. s\<lparr>sv_parameters := parameters\<rparr>);
     modify (\<lambda>s. s\<lparr>sv_log := Some (sp_logType parameters)\<rparr>);
     rc \<leftarrow> srv_sys (so_log_init so (sp_logType parameters) parameters);
     if rc \<noteq> 0 then do { Server_stop os so; State_Monad.return (Some (-1)) }
     else do {
       ok \<leftarrow> start_ssl so parameters;
       if \<not> ok then do { Server_stop os so; State_Monad.return (Some (-1)) }
       else if sp_threadCount parameters < 0 then State_Monad.return None
       else do {
         modify (\<lambda>s. s\<lparr>sv_loops := Some (replicate (nat (sp_threadCount parameters)) (pl_empty sp_defaults (sv_world s)))\<rparr>);
         ok \<leftarrow> init_loops os parameters [0..<nat (sp_threadCount parameters)];
         if \<not> ok then do { Server_stop os so; State_Monad.return (Some (-1)) }
         else if sp_threadCount parameters = 0 \<and> (sp_httpPorts parameters \<noteq> [] \<or> sp_httpsPorts parameters \<noteq> [])
         then State_Monad.return None
         else do {
           ok \<leftarrow> start_ports os parameters;
           if \<not> ok then do { Server_stop os so; State_Monad.return (Some (-1)) }
           else do {
             modify (\<lambda>s. s\<lparr>sv_threads := Some [0..<nat (sp_threadCount parameters)]\<rparr>);
             for_each (\<lambda>i. srv_sys (so_thread_start so i)) [0..<nat (sp_threadCount parameters)];
             State_Monad.return (Some 0)
           }
         }
       }
     }
   }"

section \<open>New connections\<close>

definition INT_MAX :: int where "INT_MAX = 2 ^ 31 - 1"

text \<open>The loop over the loops' counters: \<open>i\<close> is the index of the first of the list.\<close>

fun least_loaded :: "int list \<Rightarrow> nat \<Rightarrow> int \<Rightarrow> nat \<Rightarrow> nat" where
  "least_loaded [] i minPollFds minIndex = minIndex"
| "least_loaded (numberOfFds # ns) i minPollFds minIndex =
     (if numberOfFds < minPollFds then least_loaded ns (i + 1) numberOfFds i
      else least_loaded ns (i + 1) minPollFds minIndex)"

definition Server_createRequestExecutor :: "(nat \<Rightarrow> 'w os) \<Rightarrow> int \<Rightarrow> executor_type \<Rightarrow> ('w server, int) state" where
  "Server_createRequestExecutor os fd execType = do {
     counts \<leftarrow> gets (\<lambda>s. map numberOfPollFds (take (nat (sp_threadCount (sv_parameters s))) (loops_of s)));
     minIndex \<leftarrow> State_Monad.return (least_loaded counts 0 INT_MAX 0);
     rc \<leftarrow> on_loop minIndex (enqueueClientFd (os minIndex) fd execType);
     if rc \<noteq> 0 then do { srv_sys (os_close (os minIndex) fd); State_Monad.return (-1) }
     else State_Monad.return 0
   }"

text \<open>The sum that \<open>logStats\<close> writes.\<close>

definition totalNumberOfFds :: "'w server \<Rightarrow> int" where
  "totalNumberOfFds s = sum_list (map numberOfPollFds (take (nat (sp_threadCount (sv_parameters s))) (loops_of s)))"

section \<open>Rules\<close>

lemma wp_srv_sys [wp_simps]: "wp (srv_sys f) Q s \<longleftrightarrow> (\<forall>r w. f (sv_world s) = (r, w) \<longrightarrow> Q r (s\<lparr>sv_world := w\<rparr>))"
  by (simp add: srv_sys_def wp_def split: prod.splits)

definition put_loop :: "nat \<Rightarrow> 'w poll_loop \<Rightarrow> 'w server \<Rightarrow> 'w server" where
  "put_loop i l s = s\<lparr>sv_world := pl_world l, sv_loops := Some ((loops_of s)[i := l\<lparr>pl_world := pl_world (loops_of s ! i)\<rparr>])\<rparr>"

lemma wp_on_loop: "wp (on_loop i m) Q s \<longleftrightarrow> wp m (\<lambda>r l. Q r (put_loop i l s)) ((loops_of s ! i)\<lparr>pl_world := sv_world s\<rparr>)"
  by (simp add: on_loop_def wp_def put_loop_def split: prod.splits)

lemma put_loop_sel [simp]:
  "loops_of (put_loop i l s) = (loops_of s)[i := l\<lparr>pl_world := pl_world (loops_of s ! i)\<rparr>]" "sv_world (put_loop i l s) = pl_world l"
  "sv_parameters (put_loop i l s) = sv_parameters s" "sv_threads (put_loop i l s) = sv_threads s"
  "sv_log (put_loop i l s) = sv_log s" "sv_sslCtx (put_loop i l s) = sv_sslCtx s" "sv_loops (put_loop i l s) \<noteq> None"
  by (simp_all add: put_loop_def loops_of_def)

lemma loops_of_upd [simp]: "loops_of (s\<lparr>sv_world := w\<rparr>) = loops_of s" "loops_of (s\<lparr>sv_loops := Some ls\<rparr>) = ls"
  "loops_of (s\<lparr>sv_threads := t\<rparr>) = loops_of s"
  by (simp_all add: loops_of_def)

section \<open>The least loaded loop\<close>

lemma least_loaded_cases:
  "(least_loaded ns i m j = j \<and> (\<forall>x \<in> set ns. m \<le> x)) \<or>
   (\<exists>k < length ns. least_loaded ns i m j = i + k \<and> ns ! k < m \<and> (\<forall>l < length ns. ns ! k \<le> ns ! l) \<and> (\<forall>l < k. ns ! k < ns ! l))"
proof (induction ns arbitrary: i m j)
  case (Cons n ns)
  show ?case
  proof (cases "n < m")
    case True
    from Cons [of "i + 1" n i] show ?thesis
    proof (elim disjE exE conjE)
      assume "least_loaded ns (i + 1) n i = i" "\<forall>x \<in> set ns. n \<le> x"
      then show ?thesis using True by (intro disjI2 exI [of _ 0]) (auto simp: nth_Cons split: nat.splits)
    next
      fix k assume "k < length ns" "least_loaded ns (i + 1) n i = i + 1 + k" "ns ! k < n" "\<forall>l < length ns. ns ! k \<le> ns ! l"
        "\<forall>l < k. ns ! k < ns ! l"
      then show ?thesis using True by (intro disjI2 exI [of _ "Suc k"]) (auto simp: nth_Cons split: nat.splits)
    qed
  next
    case False
    from Cons [of "i + 1" m j] show ?thesis
    proof (elim disjE exE conjE)
      assume "least_loaded ns (i + 1) m j = j" "\<forall>x \<in> set ns. m \<le> x"
      then show ?thesis using False by auto
    next
      fix k assume "k < length ns" "least_loaded ns (i + 1) m j = i + 1 + k" "ns ! k < m" "\<forall>l < length ns. ns ! k \<le> ns ! l"
        "\<forall>l < k. ns ! k < ns ! l"
      then show ?thesis using False by (intro disjI2 exI [of _ "Suc k"]) (auto simp: nth_Cons split: nat.splits)
    qed
  qed
qed simp

lemma least_loaded_least:
  assumes "ns \<noteq> []" "\<forall>x \<in> set ns. x < INT_MAX" "least_loaded ns 0 INT_MAX 0 = k"
  shows "k < length ns" "l < length ns \<Longrightarrow> ns ! k \<le> ns ! l" "l < k \<Longrightarrow> ns ! k < ns ! l"
proof -
  obtain x where "x \<in> set ns" using assms(1) by (cases ns) auto
  then have "\<not> (\<forall>x \<in> set ns. INT_MAX \<le> x)" using assms(2) by fastforce
  then show "k < length ns" "l < length ns \<Longrightarrow> ns ! k \<le> ns ! l" "l < k \<Longrightarrow> ns ! k < ns ! l"
    using least_loaded_cases [of ns 0 INT_MAX 0] assms(3) by auto
qed

section \<open>Stopping twice\<close>

definition released :: "'w server \<Rightarrow> bool" where
  "released s \<longleftrightarrow> sv_loops s = None \<and> sv_threads s = None \<and> sv_log s = None \<and> sv_sslCtx s = None"

lemma delete_loops_None: "wp (delete_loops os) (\<lambda>_ s. sv_loops s = None) s"
  unfolding delete_loops_def wp_simps by (auto intro!: wp_mono [OF wp_True])

lemma delete_objects_released: "sv_loops s = None \<Longrightarrow> wp (delete_objects so) (\<lambda>_. released) s"
  by (auto simp: delete_objects_def sslDestroyContext_def wp_simps released_def)

lemma Server_stop_released: "wp (Server_stop os so) (\<lambda>_. released) s"
  unfolding Server_stop_def wp_bind
  by (rule wp_mono [OF wp_True], rule wp_mono [OF delete_loops_None], rule delete_objects_released)

lemma Server_stop_again: "released s \<Longrightarrow> run_state (Server_stop os so) s = ((), s)"
  unfolding Server_stop_def stop_threads_def delete_loops_def delete_objects_def by (simp add: released_def)

section \<open>Starting\<close>

text \<open>A loop that was initialised and then listened on the ports of a list, in order.\<close>

inductive listening :: "'w os \<Rightarrow> server_parameters \<Rightarrow> (int \<times> executor_type) list \<Rightarrow> 'w poll_loop \<Rightarrow> bool" for os params where
  initialised: "run_state (PollLoop_init os params) (pl_empty params0 w) = (0, l) \<Longrightarrow> listening os params [] l"
| port: "listening os params ps l \<Longrightarrow> run_state (listenPort os port t) l = (0, l') \<Longrightarrow> listening os params (ps @ [(port, t)]) l'"
| environment: "listening os params ps l \<Longrightarrow> listening os params ps (l\<lparr>pl_world := w\<rparr>)"

lemma listening_reachable: "listening os params ps l \<Longrightarrow> reachable os params l"
  by (induction rule: listening.induct) (auto intro: reachable.intros)

text \<open>The ports of loop \<open>i\<close> of \<open>n\<close>: those whose number in the list is \<open>i\<close> modulo \<open>n\<close>.\<close>

definition assigned :: "nat \<Rightarrow> 'a list \<Rightarrow> nat \<Rightarrow> 'a list" where
  "assigned n ps i = map fst (filter (\<lambda>(p, k). k mod n = i) (zip ps [0..<length ps]))"

lemma assigned_Nil [simp]: "assigned n [] i = []"
  by (simp add: assigned_def)

lemma assigned_snoc: "assigned n (ps @ [p]) i = assigned n ps i @ (if length ps mod n = i then [p] else [])"
  by (simp add: assigned_def)

definition all_listening :: "(nat \<Rightarrow> 'w os) \<Rightarrow> server_parameters \<Rightarrow> nat \<Rightarrow> (int \<times> executor_type) list \<Rightarrow> 'w server \<Rightarrow> bool" where
  "all_listening os params n ps s \<longleftrightarrow> length (loops_of s) = n \<and> sv_loops s \<noteq> None
     \<and> (\<forall>i < n. listening (os i) params (assigned n ps i) (loops_of s ! i))"

definition initialised_to :: "(nat \<Rightarrow> 'w os) \<Rightarrow> server_parameters \<Rightarrow> nat \<Rightarrow> nat \<Rightarrow> 'w server \<Rightarrow> bool" where
  "initialised_to os params n k s \<longleftrightarrow> length (loops_of s) = n \<and> sv_loops s \<noteq> None
     \<and> (\<forall>i < k. listening (os i) params [] (loops_of s ! i)) \<and> (\<forall>i. k \<le> i \<longrightarrow> i < n \<longrightarrow> (\<exists>w. loops_of s ! i = pl_empty sp_defaults w))"

lemma pl_empty_world: "(pl_empty params w)\<lparr>pl_world := w'\<rparr> = pl_empty params w'"
  by (simp add: pl_empty_def)

text \<open>Every call of \<open>start\<close> on a loop succeeds.\<close>

definition loops_work :: "(nat \<Rightarrow> 'w os) \<Rightarrow> server_parameters \<Rightarrow> bool" where
  "loops_work os params \<longleftrightarrow> (\<forall>i w. fst (run_state (PollLoop_init (os i) params) (pl_empty sp_defaults w)) = 0)
     \<and> (\<forall>i l port. reachable (os i) params l \<longrightarrow> fst (run_state (listenPort (os i) port ET_server) l) = 0
         \<and> fst (run_state (listenPort (os i) port ET_serverSsl) l) = 0)"

lemma init_loops_listening:
  "k \<le> n \<Longrightarrow> initialised_to os params n k s \<Longrightarrow>
     wp (init_loops os params [k..<n]) (\<lambda>r s'. (r \<longrightarrow> all_listening os params n [] s') \<and> (loops_work os params \<longrightarrow> r)) s"
proof (induction k arbitrary: s rule: inc_induct)
  case base
  then show ?case by (simp add: wp_simps initialised_to_def all_listening_def)
next
  case (step k)
  obtain w where w: "loops_of s ! k = pl_empty sp_defaults w" using step by (auto simp: initialised_to_def)
  show ?case
    unfolding upt_conv_Cons [OF step(2)] init_loops.simps wp_bind wp_if wp_return wp_on_loop w pl_empty_world
  proof (subst wp_def, split prod.split, intro allI impI conjI)
    fix rc l assume l: "run_state (PollLoop_init (os k) params) (pl_empty sp_defaults (sv_world s)) = (rc, l)"
    show False if "rc \<noteq> 0" "loops_work os params" using that l by (auto simp: loops_work_def) (metis fst_conv)
    assume "\<not> rc \<noteq> 0"
    with l have "listening (os k) params [] (l\<lparr>pl_world := w'\<rparr>)" for w' by (auto intro: listening.intros)
    then have "initialised_to os params n (Suc k) (put_loop k l s)"
      using step by (auto simp: initialised_to_def nth_list_update less_Suc_eq)
    then show "wp (init_loops os params [Suc k..<n])
        (\<lambda>r s'. (r \<longrightarrow> all_listening os params n [] s') \<and> (loops_work os params \<longrightarrow> r)) (put_loop k l s)"
      by (rule step.IH)
  qed simp
qed

lemma listen_ports_listening:
  "0 < n \<Longrightarrow> t \<in> {ET_server, ET_serverSsl} \<Longrightarrow> all_listening os params n qs s \<Longrightarrow>
     wp (listen_ports os n t (length qs) ps)
       (\<lambda>r s'. (r \<longrightarrow> all_listening os params n (qs @ map (\<lambda>p. (p, t)) ps) s') \<and> (loops_work os params \<longrightarrow> r)) s"
proof (induction ps arbitrary: qs s)
  case Nil
  then show ?case by (simp add: wp_simps)
next
  case (Cons p ps)
  let ?i = "length qs mod n"
  let ?l = "(loops_of s ! ?i)\<lparr>pl_world := sv_world s\<rparr>"
  have L: "listening (os ?i) params (assigned n qs ?i) ?l"
    using Cons.prems by (intro listening.environment) (auto simp: all_listening_def)
  show ?case
    unfolding listen_ports.simps wp_bind wp_if wp_return wp_on_loop
  proof (subst wp_def, split prod.split, intro allI impI conjI)
    fix rc l assume l: "run_state (listenPort (os ?i) p t) ?l = (rc, l)"
    show False if "rc \<noteq> 0" "loops_work os params"
    proof -
      have "fst (run_state (listenPort (os ?i) p t) ?l) = 0"
        using that(2) listening_reachable [OF L] Cons.prems(2) by (auto simp: loops_work_def)
      then show False using that(1) l by simp
    qed
    assume rc: "\<not> rc \<noteq> 0"
    have "listening (os ?i) params (assigned n qs ?i @ [(p, t)]) (l\<lparr>pl_world := w'\<rparr>)" for w'
      using L l rc by (intro listening.environment listening.port) auto
    then have "all_listening os params n (qs @ [(p, t)]) (put_loop ?i l s)"
      using Cons.prems by (auto simp: all_listening_def nth_list_update assigned_snoc)
    from Cons.IH [OF Cons.prems(1,2) this]
    show "wp (listen_ports os n t (length qs + 1) ps)
       (\<lambda>r s'. (r \<longrightarrow> all_listening os params n (qs @ map (\<lambda>p. (p, t)) (p # ps)) s') \<and> (loops_work os params \<longrightarrow> r))
       (put_loop ?i l s)" by simp
  qed simp
qed

text \<open>The ports in the order in which \<open>start\<close> assigns them.\<close>

definition all_ports :: "server_parameters \<Rightarrow> (int \<times> executor_type) list" where
  "all_ports params = map (\<lambda>p. (p, ET_server)) (sp_httpPorts params) @ map (\<lambda>p. (p, ET_serverSsl)) (sp_httpsPorts params)"

lemma start_ports_listening:
  assumes "0 < sp_threadCount params" "all_listening os params (nat (sp_threadCount params)) [] s"
  shows "wp (start_ports os params) (\<lambda>r s'. (r \<longrightarrow> all_listening os params (nat (sp_threadCount params)) (all_ports params) s')
     \<and> (loops_work os params \<longrightarrow> r)) s"
  unfolding start_ports_def wp_bind
proof (rule wp_mono [OF listen_ports_listening [where qs = "[]" and params = params, simplified]])
  let ?n = "nat (sp_threadCount params)"
  fix r s' assume 1: "(r \<longrightarrow> all_listening os params ?n (map (\<lambda>p. (p, ET_server)) (sp_httpPorts params)) s')
     \<and> (loops_work os params \<longrightarrow> r)"
  show "wp (if \<not> r then State_Monad.return False
      else listen_ports os ?n ET_serverSsl (length (sp_httpPorts params)) (sp_httpsPorts params))
     (\<lambda>r s'. (r \<longrightarrow> all_listening os params ?n (all_ports params) s') \<and> (loops_work os params \<longrightarrow> r)) s'"
    unfolding wp_if wp_return all_ports_def
    using 1 listen_ports_listening [where params = params and n = ?n and
        qs = "map (\<lambda>p. (p, ET_server)) (sp_httpPorts params)"] assms(1) by auto
qed (use assms in auto)

definition started :: "(nat \<Rightarrow> 'w os) \<Rightarrow> server_parameters \<Rightarrow> 'w server \<Rightarrow> bool" where
  "started os params s \<longleftrightarrow> all_listening os params (nat (sp_threadCount params)) (all_ports params) s
     \<and> sv_threads s = Some [0..<nat (sp_threadCount params)]"

lemma start_threads: "started os params s \<Longrightarrow> wp (for_each (\<lambda>i. srv_sys (so_thread_start so i)) xs) (\<lambda>_. started os params) s"
  by (rule wp_for_each [where I = "\<lambda>_. started os params"]) (auto simp: wp_simps started_def all_listening_def)

definition start_outcome :: "(nat \<Rightarrow> 'w os) \<Rightarrow> server_parameters \<Rightarrow> int option \<Rightarrow> 'w server \<Rightarrow> bool" where
  "start_outcome os params r s \<longleftrightarrow> (case r of
     None \<Rightarrow> sp_threadCount params \<le> 0
   | Some rc \<Rightarrow> if rc = 0 then 0 < sp_threadCount params \<and> started os params s \<or> sp_threadCount params = 0 \<and> all_ports params = []
               else rc = -1 \<and> released s)"

lemma start_failed: "wp (Server_stop os so) (\<lambda>_. start_outcome os params (Some (-1))) s"
  by (rule wp_mono [OF Server_stop_released]) (simp add: start_outcome_def)

text \<open>The last part of \<open>start\<close>, the threads, and the part before it, the ports.\<close>

lemma threads_outcome:
  assumes "0 < sp_threadCount params \<and> all_listening os params (nat (sp_threadCount params)) (all_ports params) t
    \<or> sp_threadCount params = 0 \<and> all_ports params = []"
  shows "wp (do { modify (\<lambda>s. s\<lparr>sv_threads := Some [0..<nat (sp_threadCount params)]\<rparr>);
      for_each (\<lambda>i. srv_sys (so_thread_start so i)) [0..<nat (sp_threadCount params)];
      State_Monad.return (Some 0) }) (start_outcome os params) t"
proof -
  let ?n = "nat (sp_threadCount params)"
  let ?t = "t\<lparr>sv_threads := Some [0..<?n]\<rparr>"
  have "wp (for_each (\<lambda>i. srv_sys (so_thread_start so i)) [0..<?n]) (\<lambda>_. start_outcome os params (Some 0)) ?t"
    using assms
  proof (elim disjE conjE)
    assume "0 < sp_threadCount params" "all_listening os params ?n (all_ports params) t"
    then have "started os params ?t" by (simp add: started_def all_listening_def)
    then show ?thesis
      using \<open>0 < sp_threadCount params\<close> by (intro wp_mono [OF start_threads]) (auto simp: start_outcome_def)
  next
    assume "sp_threadCount params = 0" "all_ports params = []"
    then show ?thesis by (intro wp_mono [OF wp_True]) (simp add: start_outcome_def)
  qed
  then show ?thesis by (simp only: wp_bind wp_modify wp_return)
qed

lemma ports_outcome:
  assumes "all_listening os params (nat (sp_threadCount params)) [] t"
    and "0 < sp_threadCount params \<or> sp_threadCount params = 0 \<and> all_ports params = []"
  shows "wp (do { ok \<leftarrow> start_ports os params;
      if \<not> ok then do { Server_stop os so; State_Monad.return (Some (-1)) }
      else do { modify (\<lambda>s. s\<lparr>sv_threads := Some [0..<nat (sp_threadCount params)]\<rparr>);
        for_each (\<lambda>i. srv_sys (so_thread_start so i)) [0..<nat (sp_threadCount params)];
        State_Monad.return (Some 0) } }) (start_outcome os params) t"
  using assms(2)
proof
  assume "0 < sp_threadCount params"
  then show ?thesis
    unfolding wp_bind [of "start_ports os params"]
    by (intro wp_mono [OF start_ports_listening [OF _ assms(1)]])
      (auto simp: wp_bind [of "Server_stop os so"] wp_return wp_if start_failed intro!: threads_outcome)
next
  assume z: "sp_threadCount params = 0 \<and> all_ports params = []"
  show ?thesis
    unfolding wp_bind [of "start_ports os params"] wp_if wp_bind [of "Server_stop os so"] wp_return
    by (rule wp_mono [OF wp_True], intro conjI impI start_failed threads_outcome disjI2 z)
qed

lemma Server_start_outcome: "wp (Server_start os so params) (start_outcome os params) s"
  unfolding Server_start_def wp_bind [of "modify _"] wp_modify wp_bind [of "srv_sys _"] wp_srv_sys wp_if
    wp_bind [of "Server_stop os so"] wp_return wp_bind [of "start_ssl so params"]
  apply (intro allI conjI impI start_failed)
  apply (rule wp_mono [OF wp_True])
  apply (intro conjI impI start_failed)
  subgoal by (simp add: start_outcome_def)
  subgoal for r w r' t
    unfolding wp_bind [of "init_loops _ _ _"] wp_if wp_bind [of "Server_stop os so"] wp_return
    apply (rule wp_mono [OF init_loops_listening])
      apply simp
     apply (auto simp: initialised_to_def)[1]
    apply (intro conjI impI start_failed ports_outcome)
    subgoal by (auto simp: start_outcome_def)
    subgoal by auto
    subgoal by (auto simp: all_ports_def)
    done
  done

end
