(* ===== verification/ServerProperties.thy ===== *)
theory ServerProperties
  imports Server PollLoopProperties
begin

text \<open>
  What \<open>Server\<close> promises: the outcomes of \<open>start\<close>, that \<open>stop\<close> releases everything once, and where an
  accepted connection goes.
\<close>

lemma Server_start_succeeds:
  assumes "loops_work os params" "0 < sp_threadCount params" "sp_httpsPorts params = []"
    and "\<And>w. fst (so_log_init so (sp_logType params) params w) = 0"
  shows "fst (run_state (Server_start os so params) s) = Some 0"
proof -
  let ?n = "nat (sp_threadCount params)"
  obtain w where w: "so_log_init so (sp_logType params) params (sv_world s) = (0, w)"
    using assms(4) [of "sv_world s"] by (metis prod.collapse)
  let ?Q = "\<lambda>r _. r = Some 0"
  have ssl: "start_ssl so params = State_Monad.return True" using assms(3) by (simp add: start_ssl_def)
  have P: "wp (start_ports os params) (\<lambda>ok. wp (if \<not> ok then do { Server_stop os so; State_Monad.return (Some (-1)) }
      else do { modify (\<lambda>s. s\<lparr>sv_threads := Some [0..<?n]\<rparr>); for_each (\<lambda>i. srv_sys (so_thread_start so i)) [0..<?n];
        State_Monad.return (Some 0) }) ?Q) t" if "all_listening os params ?n [] t" for t
    by (rule wp_mono [OF start_ports_listening [OF assms(2) that]]) (use assms(1) in \<open>simp add: wp_simps\<close>)
  have z: "\<not> sp_threadCount params < 0" "sp_threadCount params \<noteq> 0" using assms(2) by simp_all
  have I: "wp (init_loops os params [0..<?n]) (\<lambda>ok. wp (if \<not> ok then do { Server_stop os so; State_Monad.return (Some (-1)) }
      else do { ok \<leftarrow> start_ports os params;
        if \<not> ok then do { Server_stop os so; State_Monad.return (Some (-1)) }
        else do { modify (\<lambda>s. s\<lparr>sv_threads := Some [0..<?n]\<rparr>); for_each (\<lambda>i. srv_sys (so_thread_start so i)) [0..<?n];
          State_Monad.return (Some 0) } }) ?Q) t" if "initialised_to os params ?n 0 t" for t
  proof (rule wp_mono [OF init_loops_listening [OF _ that]], goal_cases)
    case (2 r s')
    then have r: "\<not> \<not> r" "all_listening os params ?n [] s'" using assms(1) by simp_all
    show ?case unfolding if_not_P [OF r(1)] wp_bind [of "start_ports _ _"] by (rule P [OF r(2)])
  qed simp
  have "wp (Server_start os so params) ?Q s"
    unfolding Server_start_def ssl wp_bind [of "modify _"] wp_modify wp_bind [of "srv_sys _"] wp_srv_sys
    using w z by (auto simp: wp_bind [of "State_Monad.return True"] wp_bind [of "modify _"] wp_bind [of "init_loops _ _ _"]
        wp_modify wp_return initialised_to_def intro!: I)
  then show ?thesis by (simp add: wp_def split: prod.splits)
qed

section \<open>Properties\<close>


text \<open>
  \<open>stop\<close> releases everything, and a second call, which the destructor makes, does nothing.\<close>

theorem stop_idempotent:
  "let s1 = snd (run_state (Server_stop os so) s)
   in sv_loops s1 = None \<and> sv_threads s1 = None \<and> sv_log s1 = None \<and> sv_sslCtx s1 = None
      \<and> run_state (Server_stop os so) s1 = ((), s1)"
proof -
  have "released (snd (run_state (Server_stop os so) s))"
    using Server_stop_released [of os so s] by (simp add: wp_def split: prod.splits)
  then show ?thesis using Server_stop_again [of _ os so] by (simp add: released_def Let_def)
qed

text \<open>
  C30: A connection goes to the first of the loops with the fewest registered descriptors: it is put into
  that loop's queue and the loop is woken, and if the queue is full the connection is closed. No
  loop's own data change.
\<close>

theorem connection_least_loaded:
  assumes "sv_loops s = Some ls" "0 < sp_threadCount (sv_parameters s)" "int (length ls) = sp_threadCount (sv_parameters s)"
    and "\<forall>l \<in> set ls. pl_numOfPollFds l < INT_MAX"
  shows "\<exists>k < length ls. (\<forall>i < length ls. pl_numOfPollFds (ls ! k) \<le> pl_numOfPollFds (ls ! i))
     \<and> (\<forall>i < k. pl_numOfPollFds (ls ! k) < pl_numOfPollFds (ls ! i))
     \<and> run_state (Server_createRequestExecutor os fd t) s =
         (case os_queue_push (os k) (fd, t) (sv_world s) of
            (True, w) \<Rightarrow> (0, s\<lparr>sv_world := snd (os_eventfd_write (os k) (pl_eventFd (ls ! k)) w)\<rparr>)
          | (False, w) \<Rightarrow> (-1, s\<lparr>sv_world := snd (os_close (os k) fd w)\<rparr>))"
proof -
  let ?ns = "map pl_numOfPollFds ls"
  define k where "k = least_loaded ?ns 0 INT_MAX 0"
  have ne: "?ns \<noteq> []" using assms(2,3) by auto
  have lt: "\<forall>x \<in> set ?ns. x < INT_MAX" using assms(4) by auto
  note L = least_loaded_least [OF ne lt k_def [symmetric]]
  have n: "map numberOfPollFds (take (nat (sp_threadCount (sv_parameters s))) (loops_of s)) = ?ns"
    using assms(1) by (simp add: loops_of_def numberOfPollFds_def [abs_def] flip: assms(3))
  have k: "k < length ls" using L(1) by simp
  have R: "run_state (Server_createRequestExecutor os fd t) s =
         (case os_queue_push (os k) (fd, t) (sv_world s) of
            (True, w) \<Rightarrow> (0, s\<lparr>sv_world := snd (os_eventfd_write (os k) (pl_eventFd (ls ! k)) w)\<rparr>)
          | (False, w) \<Rightarrow> (-1, s\<lparr>sv_world := snd (os_close (os k) fd w)\<rparr>))"
  proof -
    have "run_state (Server_createRequestExecutor os fd t) s = run_state (do {
        rc \<leftarrow> on_loop k (enqueueClientFd (os k) fd t);
        if rc \<noteq> 0 then do { srv_sys (os_close (os k) fd); State_Monad.return (-1) } else State_Monad.return 0 }) s"
      unfolding Server_createRequestExecutor_def k_def by (simp add: n)
    then show ?thesis
      using k assms(1)
      by (simp add: on_loop_def enqueueClientFd_def sys_def srv_sys_def loops_of_def list_update_same_conv
          split: prod.splits bool.splits)
  qed
  show ?thesis
    using L(2) L(3) k R by (intro exI [of _ k]) (auto dest: less_trans)
qed

text \<open>
  A server without threads cannot serve a port: when the log opens, \<open>start\<close> with zero threads and a
  port divides by zero.
\<close>

theorem start_without_threads:
  assumes "sp_threadCount params = 0" "sp_httpPorts params \<noteq> []" "sp_httpsPorts params = []"
    and "\<And>w. fst (so_log_init so (sp_logType params) params w) = 0"
  shows "fst (run_state (Server_start os so params) s) = None"
proof -
  obtain w where "so_log_init so (sp_logType params) params (sv_world s) = (0, w)"
    using assms(4) [of "sv_world s"] by (metis prod.collapse)
  then show ?thesis using assms(1-3) by (simp add: Server_start_def srv_sys_def start_ssl_def)
qed

text \<open>
  When every call on the loops and the log succeeds, a server with at least one thread starts.
\<close>

theorem start_succeeds:
  assumes "loops_work os params" "0 < sp_threadCount params" "sp_httpsPorts params = []"
    and "\<And>w. fst (so_log_init so (sp_logType params) params w) = 0"
  shows "fst (run_state (Server_start os so params) s) = Some 0"
  using assms by (rule Server_start_succeeds)

section \<open>Concrete instances\<close>

definition sample_so :: "sample_world server_os" where
  "sample_so = \<lparr>so_log_init = (\<lambda>t p w. (0, w)), so_log_delete = (\<lambda>t w. ((), w)), so_ssl_library_init = (\<lambda>w. ((), w)),
     so_ssl_library_free = (\<lambda>w. ((), w)), so_SSL_CTX_new = (\<lambda>w. (Some 1, w)),
     so_SSL_CTX_use_certificate_file = (\<lambda>c f w. (1, w)), so_SSL_CTX_use_PrivateKey_file = (\<lambda>c f w. (1, w)),
     so_SSL_CTX_check_private_key = (\<lambda>c w. (1, w)), so_SSL_CTX_free = (\<lambda>c w. ((), w)),
     so_thread_start = (\<lambda>i w. ((), w)), so_thread_join = (\<lambda>i w. ((), w)), so_ERR_remove_state = (\<lambda>w. ((), w))\<rparr>"

lemma start_without_threads_witness:
  "fst (run_state (Server_start (\<lambda>_. sample_os) sample_so (sp_defaults\<lparr>sp_threadCount := 0, sp_httpPorts := [80]\<rparr>))
     (sv_init (sample_world []))) = None"
  by (rule start_without_threads) (simp_all add: sp_defaults_def sample_so_def)

lemma connection_least_loaded_witness:
  "\<exists>s :: sample_world server. map pl_numOfPollFds (loops_of s) = [3, 1, 1]
     \<and> fst (run_state (Server_createRequestExecutor (\<lambda>_. sample_os) 9 ET_request) s) = 0"
proof -
  let ?l = "\<lambda>n. (pl_empty sp_defaults (sample_world []))\<lparr>pl_numOfPollFds := n\<rparr>"
  let ?s = "(sv_init (sample_world []))\<lparr>sv_parameters := sp_defaults\<lparr>sp_threadCount := 3\<rparr>, sv_loops := Some [?l 3, ?l 1, ?l 1]\<rparr>"
  have "fst (run_state (Server_createRequestExecutor (\<lambda>_. sample_os) 9 ET_request) ?s) = 0"
    using connection_least_loaded [of ?s "[?l 3, ?l 1, ?l 1]" "\<lambda>_. sample_os" 9 ET_request] by (auto simp: INT_MAX_def)
  then show ?thesis by (intro exI [of _ ?s]) simp
qed

text \<open>Three ports dealt out to two loops.\<close>

lemma sample_socketListen:
  fixes s :: "sample_world poll_loop"
  assumes "at us a d s" "\<And>s'. at us a d s' \<Longrightarrow> Q 8 s'"
  shows "wp (socketListen sample_os port) Q s"
  using assms unfolding socketListen_def by (auto simp: wp_simps wp_sys_iff at_world)

lemma sample_ServerExecutor_up:
  assumes "at us a d s" "ed_pExecutor d \<noteq> None" "ed_pollData0 d = None" "ed_pollData1 d = None"
  shows "wp (ServerExecutor_up sample_os a) (\<lambda>r _. r = 0) s"
  unfolding ServerExecutor_up_def wp_bind wp_if wp_return
  apply (rule wp_upd_free [OF assms(1)], rule free_upds)
  apply (rule wp_set_state, assumption, use assms in simp)
  apply (rule wp_exec, assumption)
  apply (rule sample_socketListen, assumption)
  apply (rule wp_upd_fd0, assumption, simp add: assms, simp add: assms)
  apply (intro conjI impI, simp)
  apply (rule wp_mono [OF addPollFd_succeeds], assumption)
  using assms by auto

lemma sample_listenPort:
  assumes "loop_rep us l" "t = ET_server \<or> t = ET_serverSsl"
  shows "fst (run_state (listenPort sample_os port t) l) = 0"
proof -
  have u: "executor_up sample_os (getExecutor t) = ServerExecutor_up sample_os"
    using assms(2) by (auto simp: Ssl_server_server fun_eq_iff)
  have "wp (listenPort sample_os port t) (\<lambda>r _. r = 0) l"
    unfolding listenPort_def wp_bind u
    apply (rule wp_createExecutorData [of us], rule assms)
    apply (simp only: option.case wp_bind wp_if wp_return)
    apply (rule wp_upd_executor, assumption, simp add: ed_dead_def)
    apply (rule wp_upd_free, assumption, rule free_upds)
    apply (rule wp_mono [OF sample_ServerExecutor_up], assumption)
    by (auto simp: ed_dead_def)
  then show ?thesis by (simp add: wp_def split: prod.splits)
qed

lemma sample_loops_work: "loops_work (\<lambda>_. sample_os) params"
proof -
  have "fst (run_state (listenPort sample_os port t) l) = 0"
    if r: "reachable sample_os params l" "t = ET_server \<or> t = ET_serverSsl" for l port t
  proof -
    obtain us where "loop_rep us l" using reachable_in_order [OF r(1) sample_os_ok(1)] by (auto simp: in_order_def)
    from sample_listenPort [OF this r(2)] show ?thesis .
  qed
  then show ?thesis by (simp add: loops_work_def sample_init)
qed

lemma sample_start:
  assumes "0 < sp_threadCount params" "sp_httpsPorts params = []"
  shows "fst (run_state (Server_start (\<lambda>_. sample_os) sample_so params) s) = Some 0"
  by (rule Server_start_succeeds [OF sample_loops_work assms]) (simp add: sample_so_def)

lemma start_succeeds_witness:
  "fst (run_state (Server_start (\<lambda>_. sample_os) sample_so (sp_defaults\<lparr>sp_threadCount := 2, sp_httpPorts := [80, 81, 82]\<rparr>))
     (sv_init (sample_world []))) = Some 0"
  by (rule start_succeeds [OF sample_loops_work]) (simp_all add: sp_defaults_def sample_so_def)

end
