(* ===== verification/ConfigReader.thy ===== *)
theory ConfigReader
  imports Prelude "HOL-Library.List_Lexorder" "HOL-Library.RBT"
begin

text \<open>
  \<open>src/utils/ConfigReader.cpp\<close>: the configuration text of lines \<open>key = value\<close> and comments. The
  reader keeps an index into the zero-terminated text; it is refined to a recursion on the text that
  is left, over which the file reader, the printer and the round trip are verified.
\<close>

text \<open>\<open>std::map<std::string, std::string>\<close>: a red-black tree, iterated in the order of its keys.\<close>

type_synonym config_map = "(string, string) rbt"

section \<open>The reader\<close>

definition isSpace :: "char \<Rightarrow> bool" where
  "isSpace c \<longleftrightarrow> c = SP \<or> c = TAB"

definition isBreak :: "char \<Rightarrow> bool" where
  "isBreak c \<longleftrightarrow> c = CR \<or> c = LF"

definition isKey :: "char \<Rightarrow> bool" where
  "isKey c \<longleftrightarrow> (CHR ''a'' \<le> c \<and> c \<le> CHR ''z'') \<or> (CHR ''A'' \<le> c \<and> c \<le> CHR ''Z'')
     \<or> (CHR ''0'' \<le> c \<and> c < CHR ''9'') \<or> c = CHR ''.''"

definition CommentSymbol :: char where "CommentSymbol = CHR ''#''"
definition ParamSeparatorSymbol :: char where "ParamSeparatorSymbol = CHR ''=''"

text \<open>\<open>for (; s[i] != 0 && p(s[i]); ++i);\<close>\<close>

abbreviation scan0 :: "(char \<Rightarrow> bool) \<Rightarrow> string \<Rightarrow> nat \<Rightarrow> nat" where
  "scan0 p \<equiv> scan (\<lambda>c. c \<noteq> NUL \<and> p c)"

text \<open>\<open>for (; valueEnd > valueStart && isSpace(s[valueEnd]); --valueEnd);\<close>\<close>

fun removeTrailingSpaces :: "string \<Rightarrow> nat \<Rightarrow> nat \<Rightarrow> nat" where
  "removeTrailingSpaces s valueStart valueEnd =
     (if valueEnd > valueStart \<and> isSpace (cstr_at s valueEnd)
      then removeTrailingSpaces s valueStart (valueEnd - 1) else valueEnd)"

declare removeTrailingSpaces.simps [simp del]

text \<open>
  The body of the loop: \<open>Inl\<close> is a return with its result, \<open>Inr\<close> the position and the parameters
  with which the loop goes on.
\<close>

definition configStep :: "string \<Rightarrow> nat \<Rightarrow> config_map \<Rightarrow> bool + nat \<times> config_map" where
  "configStep s i params =
     (let i = scan0 (\<lambda>c. isSpace c \<or> isBreak c) s i
      in if cstr_at s i = NUL then Inl True
         else if cstr_at s i = CommentSymbol
         then Inr (scan0 (\<lambda>c. \<not> isBreak c) s i, params)
         else if isKey (cstr_at s i)
         then let keyStart = i;
                  i = scan0 isKey s i
              in if \<not> isSpace (cstr_at s i) \<and> cstr_at s i \<noteq> ParamSeparatorSymbol then Inl False
                 else let keyEnd = i;
                          i = scan0 isSpace s i
                      in if cstr_at s i \<noteq> ParamSeparatorSymbol then Inl False
                         else let i = scan0 isSpace s (i + 1)
                              in if cstr_at s i = NUL then Inl False
                                 else let valueStart = i;
                                          i = scan0 (\<lambda>c. \<not> isBreak c) s i;
                                          valueEnd = removeTrailingSpaces s valueStart i
                                      in if valueEnd \<le> valueStart then Inl False
                                         else Inr (i, RBT.insert (mem_read keyStart (keyEnd - keyStart) s)
                                                        (mem_read valueStart (valueEnd - valueStart) s) params)
         else Inl False)"

lemma cstr_at_scan: "cstr_at s i \<noteq> NUL \<Longrightarrow> i < length s \<and> cstr_at s i = s ! i"
  by (simp add: cstr_at_def split: if_splits)

lemma scan_moves: "i < length s \<Longrightarrow> p (s ! i) \<Longrightarrow> i < scan p s i"
  using scan_ge [of "Suc i" p s] by (simp add: scan.simps [of p s i])

lemma configStep_moves:
  assumes "configStep s i params = Inr (j, params')" shows "i < j \<and> j \<le> length s"
proof -
  define k where "k = scan0 (\<lambda>c. isSpace c \<or> isBreak c) s i"
  have ik: "i \<le> k" by (simp add: k_def scan_ge)
  have k: "cstr_at s k \<noteq> NUL" using assms by (auto simp: configStep_def Let_def k_def split: if_splits)
  note kl = cstr_at_scan [OF k]
  show ?thesis
  proof (cases "cstr_at s k = CommentSymbol")
    case True
    then have "j = scan0 (\<lambda>c. \<not> isBreak c) s k" using assms k by (simp add: configStep_def Let_def k_def)
    moreover have "k < scan0 (\<lambda>c. \<not> isBreak c) s k"
      by (rule scan_moves) (use kl True k in \<open>auto simp: CommentSymbol_def isBreak_def\<close>)
    ultimately show ?thesis using ik kl scan_le [of k s "\<lambda>c. c \<noteq> NUL \<and> \<not> isBreak c"] by auto
  next
    case False
    define k2 where "k2 = scan0 isKey s k"
    define k3 where "k3 = scan0 isSpace s k2"
    define k4 where "k4 = scan0 isSpace s (k3 + 1)"
    have *: "isKey (cstr_at s k)" "cstr_at s k3 = ParamSeparatorSymbol" "cstr_at s k4 \<noteq> NUL" "j = scan0 (\<lambda>c. \<not> isBreak c) s k4"
      using assms k False unfolding k2_def k3_def k4_def
      by (auto simp: configStep_def Let_def k_def split: if_splits)
    have "k \<le> k2" "k2 \<le> k3" "k3 + 1 \<le> k4" "k4 \<le> j" using scan_ge unfolding k2_def k3_def k4_def *(4) by blast+
    moreover have "k4 < length s" using cstr_at_scan [OF *(3)] by simp
    ultimately show ?thesis using ik scan_le [of k4 s] *(4) by simp
  qed
qed

function configReadLoop :: "string \<Rightarrow> nat \<Rightarrow> config_map \<Rightarrow> bool \<times> config_map" where
  "configReadLoop s i params =
     (case configStep s i params of
        Inl result \<Rightarrow> (result, params)
      | Inr (i, params) \<Rightarrow> configReadLoop s i params)"
  by pat_completeness auto
termination
  by (relation "measure (\<lambda>(s, i, params). length s - i)") (auto dest!: configStep_moves)

declare configReadLoop.simps [simp del]

definition configReadString :: "string \<Rightarrow> config_map \<Rightarrow> bool \<times> config_map" where
  "configReadString s params = configReadLoop s 0 params"

section \<open>Files\<close>

text \<open>The lines that \<open>std::getline\<close> delivers.\<close>

function getlines :: "string \<Rightarrow> string list" where
  "getlines [] = []"
| "getlines (c # cs) = takeWhile (\<lambda>c. c \<noteq> LF) (c # cs) # getlines (drop 1 (dropWhile (\<lambda>c. c \<noteq> LF) (c # cs)))"
  by pat_completeness auto
termination
  by (relation "measure length") (auto simp: le_imp_less_Suc less_Suc_eq_le length_dropWhile_le intro: le_trans [OF diff_le_self])

declare getlines.simps(2) [simp del]

fun configReadLines :: "string list \<Rightarrow> config_map \<Rightarrow> bool \<times> config_map" where
  "configReadLines [] params = (True, params)"
| "configReadLines (line # ls) params =
     (case configReadString (cstr line) params of
        (False, params) \<Rightarrow> (False, params)
      | (True, params) \<Rightarrow> configReadLines ls params)"

text \<open>\<open>content\<close> is what the file holds, \<open>None\<close> when it cannot be opened.\<close>

definition configReadFile :: "string option \<Rightarrow> config_map \<Rightarrow> bool \<times> config_map" where
  "configReadFile content params =
     (case content of None \<Rightarrow> (False, params) | Some fs \<Rightarrow> configReadLines (getlines fs) params)"

definition configToString :: "config_map \<Rightarrow> string" where
  "configToString params = concat (map (\<lambda>p. fst p @ [ParamSeparatorSymbol] @ snd p @ [LF]) (RBT.entries params))"

section \<open>The reader on the remaining text\<close>

text \<open>The same reader as a recursion on the text that is left; \<open>configReadLoop\<close> refines it.\<close>

definition splitStep :: "string \<Rightarrow> config_map \<Rightarrow> bool + string \<times> config_map" where
  "splitStep xs p =
     (let xs = dropWhile (\<lambda>c. isSpace c \<or> isBreak c) xs
      in if xs = [] then Inl True
         else if hd xs = CommentSymbol then Inr (dropWhile (\<lambda>c. \<not> isBreak c) xs, p)
         else if takeWhile isKey xs = [] then Inl False
         else case dropWhile isSpace (dropWhile isKey xs) of
             [] \<Rightarrow> Inl False
           | c # r \<Rightarrow> (let v = dropWhile isSpace r
                       in if c \<noteq> ParamSeparatorSymbol \<or> takeWhile (\<lambda>c. \<not> isBreak c) v = [] then Inl False
                          else Inr (dropWhile (\<lambda>c. \<not> isBreak c) v,
                                 RBT.insert (takeWhile isKey xs) (takeWhile (\<lambda>c. \<not> isBreak c) v) p)))"

lemma scan0_scan: "NUL \<notin> set s \<Longrightarrow> scan0 p s i = scan p s i"
  by (auto simp: scan_takeWhile intro!: arg_cong [of _ _ length] takeWhile_cong dest: in_set_dropD)

lemma drop_scan0: "drop (scan p s i) s = dropWhile p (drop i s)"
  by (simp add: scan_takeWhile dropWhile_eq_drop add.commute)

lemma cstr_at_end: "NUL \<notin> set s \<Longrightarrow> cstr_at s i = NUL \<longleftrightarrow> drop i s = []"
  by (auto simp: cstr_at_def in_set_conv_nth)

lemma cstr_at_hd: "drop i s \<noteq> [] \<Longrightarrow> hd (drop i s) = cstr_at s i"
  by (simp add: cstr_at_def hd_drop_conv_nth)

lemma trailing_spaces_stay: "removeTrailingSpaces s k (scan (\<lambda>c. \<not> isBreak c) s k) = scan (\<lambda>c. \<not> isBreak c) s k"
proof -
  let ?e = "scan (\<lambda>c. \<not> isBreak c) s k"
  have "\<not> isSpace (cstr_at s ?e)"
  proof (cases "?e < length s")
    case True
    then show ?thesis using scan_stop [of "\<lambda>c. \<not> isBreak c" s k] by (auto simp: cstr_at_def isBreak_def isSpace_def)
  qed (simp add: cstr_at_def isSpace_def)
  then show ?thesis by (simp add: removeTrailingSpaces.simps)
qed

lemma mem_read_scan: "mem_read i (scan p s i - i) s = takeWhile p (drop i s)"
  unfolding mem_read_def scan_takeWhile add_diff_cancel_left' by (metis takeWhile_eq_take)

lemma configStep_split:
  assumes s: "NUL \<notin> set s"
  shows "splitStep (drop i s) p = (case configStep s i p of Inl r \<Rightarrow> Inl r | Inr (j, p') \<Rightarrow> Inr (drop j s, p'))"
proof -
  note z = scan0_scan [OF s]
  define k where "k = scan (\<lambda>c. isSpace c \<or> isBreak c) s i"
  define k2 where "k2 = scan isKey s k"
  define k3 where "k3 = scan isSpace s k2"
  define k4 where "k4 = scan isSpace s (k3 + 1)"
  define k5 where "k5 = scan (\<lambda>c. \<not> isBreak c) s k4"
  have e: "removeTrailingSpaces s k4 k5 = k5" unfolding k5_def by (rule trailing_spaces_stay)
  have L: "configStep s i p = (if cstr_at s k = NUL then Inl True
     else if cstr_at s k = CommentSymbol then Inr (scan (\<lambda>c. \<not> isBreak c) s k, p)
     else if isKey (cstr_at s k) then
       if \<not> isSpace (cstr_at s k2) \<and> cstr_at s k2 \<noteq> ParamSeparatorSymbol then Inl False
       else if cstr_at s k3 \<noteq> ParamSeparatorSymbol then Inl False
       else if cstr_at s k4 = NUL then Inl False
       else if k5 \<le> k4 then Inl False
       else Inr (k5, RBT.insert (mem_read k (k2 - k) s) (mem_read k4 (k5 - k4) s) p)
     else Inl False)"
    unfolding configStep_def Let_def z k_def [symmetric] k2_def [symmetric] k3_def [symmetric] k4_def [symmetric]
      k5_def [symmetric] e ..
  have d: "dropWhile (\<lambda>c. isSpace c \<or> isBreak c) (drop i s) = drop k s" "dropWhile isKey (drop k s) = drop k2 s"
    "dropWhile isSpace (drop k2 s) = drop k3 s" "dropWhile isSpace (drop (Suc k3) s) = drop k4 s"
    "dropWhile (\<lambda>c. \<not> isBreak c) (drop k4 s) = drop k5 s"
    "dropWhile (\<lambda>c. \<not> isBreak c) (drop k s) = drop (scan (\<lambda>c. \<not> isBreak c) s k) s"
    unfolding k_def k2_def k3_def k4_def k5_def drop_scan0 Suc_eq_plus1 by (rule refl)+
  have m: "mem_read k (k2 - k) s = takeWhile isKey (drop k s)"
    "mem_read k4 (k5 - k4) s = takeWhile (\<lambda>c. \<not> isBreak c) (drop k4 s)"
    unfolding k2_def k5_def by (rule mem_read_scan)+
  have n: "takeWhile (\<lambda>c. \<not> isBreak c) (drop k4 s) = [] \<longleftrightarrow> k5 \<le> k4"
    unfolding k5_def scan_takeWhile by simp
  have key: "takeWhile isKey (drop k s) = [] \<longleftrightarrow> \<not> isKey (cstr_at s k)" if "cstr_at s k \<noteq> NUL"
    using that cstr_at_end [OF s, of k] cstr_at_hd [of k s] by (cases "drop k s") auto
  have sp: "isSpace (cstr_at s k2) \<or> cstr_at s k2 = ParamSeparatorSymbol" if "cstr_at s k3 = ParamSeparatorSymbol"
    using that unfolding k3_def by (cases "isSpace (cstr_at s k2)")
      (auto simp: scan.simps [of isSpace s k2] cstr_at_def ParamSeparatorSymbol_def split: if_splits)
  have c: "drop k3 s = cstr_at s k3 # drop (Suc k3) s" if "cstr_at s k3 \<noteq> NUL"
    using cstr_at_scan [OF that] by (simp add: Cons_nth_drop_Suc)
  have k4: "drop k4 s = [] \<Longrightarrow> k5 \<le> k4" by (simp add: k5_def scan_takeWhile)
  have R: "splitStep (drop i s) p = (if cstr_at s k = NUL then Inl True
     else if cstr_at s k = CommentSymbol then Inr (drop (scan (\<lambda>c. \<not> isBreak c) s k) s, p)
     else if \<not> isKey (cstr_at s k) then Inl False
     else if cstr_at s k3 \<noteq> ParamSeparatorSymbol \<or> k5 \<le> k4 then Inl False
     else Inr (drop k5 s, RBT.insert (mem_read k (k2 - k) s) (mem_read k4 (k5 - k4) s) p))"
  proof (cases "cstr_at s k3 = NUL")
    case True
    then have "drop k3 s = []" using cstr_at_end [OF s] by simp
    with True show ?thesis
      using key cstr_at_end [OF s, of k] cstr_at_hd [of k s] by (auto simp: splitStep_def Let_def d ParamSeparatorSymbol_def)
  next
    case False
    show ?thesis
      using key cstr_at_end [OF s, of k] cstr_at_hd [of k s] by (auto simp: splitStep_def Let_def d c [OF False] n m)
  qed
  show ?thesis
    unfolding L R using sp k4 cstr_at_end [OF s, of k4] by auto
qed

lemma splitStep_shorter:
  assumes "splitStep xs p = Inr (ys, p')" shows "length ys < length xs"
proof -
  define zs where "zs = dropWhile (\<lambda>c. isSpace c \<or> isBreak c) xs"
  have l: "length zs \<le> length xs" by (simp add: zs_def length_dropWhile_le)
  have z: "zs \<noteq> []" using assms by (auto simp: splitStep_def zs_def [symmetric] Let_def split: if_splits)
  show ?thesis
  proof (cases "hd zs = CommentSymbol")
    case True
    then have "ys = dropWhile (\<lambda>c. \<not> isBreak c) zs" using assms z by (simp add: splitStep_def zs_def [symmetric])
    moreover have "\<not> isBreak (hd zs)" by (simp add: True CommentSymbol_def isBreak_def)
    ultimately show ?thesis using z l length_dropWhile_le [of "\<lambda>c. \<not> isBreak c" "tl zs"] by (cases zs) auto
  next
    case False
    then obtain c r where r: "dropWhile isSpace (dropWhile isKey zs) = c # r"
        and y: "ys = dropWhile (\<lambda>c. \<not> isBreak c) (dropWhile isSpace r)"
      using assms z by (auto simp: splitStep_def zs_def [symmetric] Let_def split: if_splits list.splits)
    have "length (c # r) \<le> length zs"
      unfolding r [symmetric] by (rule order_trans [OF length_dropWhile_le length_dropWhile_le])
    moreover have "length ys \<le> length r" unfolding y by (rule order_trans [OF length_dropWhile_le length_dropWhile_le])
    ultimately show ?thesis using l by simp
  qed
qed

function configSplit :: "string \<Rightarrow> config_map \<Rightarrow> bool \<times> config_map" where
  "configSplit xs p = (case splitStep xs p of Inl r \<Rightarrow> (r, p) | Inr (ys, p') \<Rightarrow> configSplit ys p')"
  by pat_completeness auto
termination by (relation "measure (\<lambda>(xs, p). length xs)") (auto dest: splitStep_shorter)

declare configSplit.simps [simp del]

lemma configReadLoop_split: "NUL \<notin> set s \<Longrightarrow> configReadLoop s i p = configSplit (drop i s) p"
proof (induction s i p rule: configReadLoop.induct)
  case (1 s i p)
  show ?case
    using 1 configStep_split [OF 1(2), of i p]
    by (subst configReadLoop.simps, subst configSplit.simps) (auto split: sum.splits)
qed

lemma configReadString_split: "NUL \<notin> set s \<Longrightarrow> configReadString s p = configSplit s p"
  by (simp add: configReadString_def configReadLoop_split)

text \<open>A line at a time.\<close>

lemma dropWhile_stop: "\<not> P x \<Longrightarrow> dropWhile P (l @ x # r) = dropWhile P l @ x # r"
  by (induction l) auto

lemma takeWhile_stop: "\<not> P x \<Longrightarrow> takeWhile P (l @ x # r) = takeWhile P l"
  by (induction l) auto

lemma dropWhile_all: "(\<And>c. c \<in> set l \<Longrightarrow> P c) \<Longrightarrow> dropWhile P (l @ r) = dropWhile P r"
  by (induction l) auto

lemma class_simps [simp]: "isBreak LF" "\<not> isSpace LF" "\<not> isKey LF" "\<not> isKey ParamSeparatorSymbol"
  "\<not> isSpace ParamSeparatorSymbol" "\<not> isKey CommentSymbol" "\<not> isKey NUL"
  by (simp_all add: isBreak_def isSpace_def isKey_def ParamSeparatorSymbol_def CommentSymbol_def)

lemma splitStep_blank:
  "dropWhile (\<lambda>c. isSpace c \<or> isBreak c) xs = dropWhile (\<lambda>c. isSpace c \<or> isBreak c) ys \<Longrightarrow> splitStep xs p = splitStep ys p"
  by (simp add: splitStep_def)

lemma splitStep_line:
  "splitStep (l @ LF # r) p = (case splitStep l p of
     Inl b \<Rightarrow> if b then splitStep r p else Inl False
   | Inr (ys, p') \<Rightarrow> Inr (ys @ LF # r, p'))"
proof -
  let ?B = "\<lambda>c. isSpace c \<or> isBreak c"
  show ?thesis
  proof (cases "dropWhile ?B l")
    case Nil
    then have "splitStep (l @ LF # r) p = splitStep r p"
      by (intro splitStep_blank) (auto simp: dropWhile_eq_Nil_conv intro!: dropWhile_all [of "l @ [LF]", simplified])
    with Nil show ?thesis by (simp add: splitStep_def)
  next
    case (Cons z zs)
    then have l: "dropWhile ?B (l @ LF # r) = (z # zs) @ LF # r" by (metis dropWhile_append1 dropWhile_eq_Nil_conv list.distinct(1))
    define zz where "zz = z # zs"
    have z: "zz \<noteq> []" "hd (zz @ LF # r) = hd zz" by (simp_all add: zz_def)
    have s: "dropWhile P (zz @ LF # r) = dropWhile P zz @ LF # r" "takeWhile P (zz @ LF # r) = takeWhile P zz"
      if "\<not> P LF" for P
      using dropWhile_stop [where P = P, OF that] takeWhile_stop [where P = P, OF that] by simp_all
    have t: "dropWhile isSpace (y @ LF # r) = dropWhile isSpace y @ LF # r" for y by (rule dropWhile_stop) simp
    have u: "dropWhile (\<lambda>c. \<not> isBreak c) (y @ LF # r) = dropWhile (\<lambda>c. \<not> isBreak c) y @ LF # r"
      "takeWhile (\<lambda>c. \<not> isBreak c) (y @ LF # r) = takeWhile (\<lambda>c. \<not> isBreak c) y" for y
      using dropWhile_stop [of "\<lambda>c. \<not> isBreak c" LF] takeWhile_stop [of "\<lambda>c. \<not> isBreak c" LF] by simp_all
    have l': "dropWhile ?B (l @ LF # r) = zz @ LF # r" "dropWhile ?B l = zz" using l Cons by (simp_all add: zz_def)
    show ?thesis
      unfolding splitStep_def Let_def l' z
      by (cases "dropWhile isSpace (dropWhile isKey zz)") (simp_all add: s t u z ParamSeparatorSymbol_def del: dropWhile_eq_Nil_conv)
  qed
qed

lemma configSplit_line:
  "configSplit (l @ LF # r) p = (case configSplit l p of (False, q) \<Rightarrow> (False, q) | (True, q) \<Rightarrow> configSplit r q)"
proof (induction l p rule: configSplit.induct)
  case (1 l p)
  show ?case
  proof (cases "splitStep l p")
    case (Inl b)
    then show ?thesis
      by (cases b) (simp_all add: configSplit.simps [of l] configSplit.simps [of r] configSplit.simps [of "l @ LF # r"] splitStep_line)
  next
    case (Inr y)
    then obtain ys p' where "splitStep l p = Inr (ys, p')" by (cases y) auto
    then show ?thesis
      using 1 by (simp add: configSplit.simps [of l] configSplit.simps [of "l @ LF # r"] splitStep_line)
  qed
qed

lemma configSplit_Nil [simp]: "configSplit [] p = (True, p)"
  by (simp add: configSplit.simps splitStep_def)

lemma cstr_id: "NUL \<notin> set s \<Longrightarrow> cstr s = s"
  by (auto simp: cstr_def takeWhile_eq_all_conv)

lemma configReadLines_split: "NUL \<notin> set fs \<Longrightarrow> configReadLines (getlines fs) p = configSplit fs p"
proof (induction fs arbitrary: p rule: getlines.induct)
  case (2 c cs)
  let ?l = "takeWhile (\<lambda>c. c \<noteq> LF) (c # cs)" and ?r = "dropWhile (\<lambda>c. c \<noteq> LF) (c # cs)"
  have f: "c # cs = ?l @ ?r" by (simp only: takeWhile_dropWhile_id)
  have n: "NUL \<notin> set ?l" "NUL \<notin> set (drop 1 ?r)"
    using 2(2) set_takeWhileD set_dropWhileD in_set_dropD by (metis (no_types, lifting))+
  have "configSplit (c # cs) p = (case configSplit ?l p of (False, q) \<Rightarrow> (False, q) | (True, q) \<Rightarrow> configSplit (drop 1 ?r) q)"
  proof (cases ?r)
    case Nil
    have l: "?l = c # cs" using takeWhile_dropWhile_id [of "\<lambda>c. c \<noteq> LF" "c # cs"] unfolding Nil by (simp only: append_Nil2)
    show ?thesis unfolding Nil l by (simp split: prod.splits bool.splits)
  next
    case (Cons x r)
    then have "x = LF" using hd_dropWhile [of "\<lambda>c. c \<noteq> LF" "c # cs"] by auto
    have e: "?l @ LF # r = c # cs" using f unfolding Cons \<open>x = LF\<close> by (rule sym)
    show ?thesis using configSplit_line [of ?l r p] unfolding e Cons by (simp only: One_nat_def drop_Suc_Cons drop_0)
  qed
  then show ?case
    using 2(1) [OF n(2)] n(1) by (simp add: getlines.simps(2) cstr_id configReadString_split del: takeWhile.simps dropWhile.simps
        split: prod.splits bool.splits)
qed simp

section \<open>What a file can hold\<close>

text \<open>The parameters that the reader can produce, which are those that it reads back.\<close>

definition key_ok :: "string \<Rightarrow> bool" where
  "key_ok k \<longleftrightarrow> k \<noteq> [] \<and> list_all isKey k"

definition value_ok :: "string \<Rightarrow> bool" where
  "value_ok v \<longleftrightarrow> v \<noteq> [] \<and> \<not> isSpace (hd v) \<and> list_all (\<lambda>c. c \<noteq> NUL \<and> \<not> isBreak c) v"

definition config_ok :: "config_map \<Rightarrow> bool" where
  "config_ok m \<longleftrightarrow> (\<forall>(k, v) \<in> set (RBT.entries m). key_ok k \<and> value_ok v)"

lemma config_ok_lookup: "config_ok m \<longleftrightarrow> (\<forall>k v. RBT.lookup m k = Some v \<longrightarrow> key_ok k \<and> value_ok v)"
  by (auto simp: config_ok_def lookup_in_tree [symmetric])

lemma config_ok_insert: "config_ok m \<Longrightarrow> key_ok k \<Longrightarrow> value_ok v \<Longrightarrow> config_ok (RBT.insert k v m)"
  by (auto simp: config_ok_lookup)

lemma config_ok_empty: "config_ok RBT.empty"
  by (simp add: config_ok_lookup)

lemma splitStep_ok:
  assumes "splitStep xs p = Inr (ys, p')" "NUL \<notin> set xs" "config_ok p"
  shows "config_ok p' \<and> NUL \<notin> set ys"
proof -
  define zs where "zs = dropWhile (\<lambda>c. isSpace c \<or> isBreak c) xs"
  have n: "NUL \<notin> set zs" using assms(2) by (auto simp: zs_def dest: set_dropWhileD)
  have z: "zs \<noteq> []" using assms by (auto simp: splitStep_def zs_def [symmetric] Let_def split: if_splits)
  show ?thesis
  proof (cases "hd zs = CommentSymbol")
    case True
    then show ?thesis using assms z n by (auto simp: splitStep_def zs_def [symmetric] dest: set_dropWhileD)
  next
    case False
    then obtain c r where r: "dropWhile isSpace (dropWhile isKey zs) = c # r"
        and k: "takeWhile isKey zs \<noteq> []" and v: "takeWhile (\<lambda>c. \<not> isBreak c) (dropWhile isSpace r) \<noteq> []"
        and y: "ys = dropWhile (\<lambda>c. \<not> isBreak c) (dropWhile isSpace r)"
        and p: "p' = RBT.insert (takeWhile isKey zs) (takeWhile (\<lambda>c. \<not> isBreak c) (dropWhile isSpace r)) p"
      using assms z by (auto simp: splitStep_def zs_def [symmetric] Let_def split: if_splits list.splits)
    have "set r \<subseteq> set (dropWhile isSpace (dropWhile isKey zs))" by (auto simp: r)
    then have R: "NUL \<notin> set (dropWhile isSpace r)" using n by (auto dest!: set_dropWhileD)
    have "\<not> isSpace (hd (takeWhile (\<lambda>c. \<not> isBreak c) (dropWhile isSpace r)))"
      using v hd_dropWhile [of isSpace r] by (cases "dropWhile isSpace r") (auto split: if_splits)
    then have "value_ok (takeWhile (\<lambda>c. \<not> isBreak c) (dropWhile isSpace r))"
      using v R by (auto simp: value_ok_def list_all_iff dest: set_takeWhileD)
    moreover have "key_ok (takeWhile isKey zs)" using k by (auto simp: key_ok_def list_all_iff dest: set_takeWhileD)
    ultimately show ?thesis using config_ok_insert [OF assms(3)] R by (auto simp: p y dest: set_dropWhileD)
  qed
qed

lemma configSplit_ok: "NUL \<notin> set xs \<Longrightarrow> config_ok p \<Longrightarrow> config_ok (snd (configSplit xs p))"
proof (induction xs p rule: configSplit.induct)
  case (1 xs p)
  show ?case
    using 1 splitStep_ok [of xs p] by (subst configSplit.simps) (auto split: sum.splits)
qed

lemma NUL_cstr: "NUL \<notin> set (cstr s)"
  by (auto simp: cstr_def dest: set_takeWhileD)

lemma configReadLines_ok: "config_ok p \<Longrightarrow> config_ok (snd (configReadLines ls p))"
proof (induction ls arbitrary: p)
  case (Cons l ls)
  have "config_ok (snd (configSplit (cstr l) p))" by (rule configSplit_ok [OF NUL_cstr Cons.prems])
  then show ?case
    using Cons.IH by (auto simp: configReadString_split [OF NUL_cstr] split: prod.splits bool.splits)
qed simp

lemma configReadFile_ok: "config_ok p \<Longrightarrow> config_ok (snd (configReadFile content p))"
  by (auto simp: configReadFile_def configReadLines_ok split: option.splits)

text \<open>Reading back one parameter, and all.\<close>

lemma splitStep_entry:
  assumes k: "key_ok k" and v: "value_ok v"
  shows "splitStep (k @ [ParamSeparatorSymbol] @ v @ LF # r) p = Inr (LF # r, RBT.insert k v p)"
proof -
  obtain c k' where kc: "k = c # k'" "isKey c" using k by (cases k) (auto simp: key_ok_def)
  have c: "\<not> isSpace c" "\<not> isBreak c" "c \<noteq> CommentSymbol"
    using kc(2) by (auto simp: isKey_def isSpace_def isBreak_def CommentSymbol_def)
  have K: "takeWhile isKey (k @ ParamSeparatorSymbol # y) = k" "dropWhile isKey (k @ ParamSeparatorSymbol # y) = ParamSeparatorSymbol # y" for y
    using k by (auto simp: key_ok_def list_all_iff dropWhile_all takeWhile_append)
  have V: "takeWhile (\<lambda>c. \<not> isBreak c) (v @ LF # r) = v" "dropWhile (\<lambda>c. \<not> isBreak c) (v @ LF # r) = LF # r"
    using v by (auto simp: value_ok_def list_all_iff dropWhile_all takeWhile_append)
  have S: "dropWhile isSpace (v @ LF # r) = v @ LF # r" using v by (cases v) (auto simp: value_ok_def)
  have B: "dropWhile (\<lambda>c. isSpace c \<or> isBreak c) (k @ ParamSeparatorSymbol # v @ LF # r) = k @ ParamSeparatorSymbol # v @ LF # r"
    using c by (simp add: kc)
  have h: "hd (k @ y) = c" "k @ y \<noteq> []" for y by (simp_all add: kc)
  have "v \<noteq> []" "k \<noteq> []" using v k by (simp_all add: value_ok_def key_ok_def)
  then show ?thesis
    using c by (simp add: splitStep_def B K V S h)
qed

lemma configSplit_break: "configSplit (LF # r) p = configSplit r p"
  by (simp add: configSplit.simps [of "LF # r"] configSplit.simps [of r] splitStep_blank [of "LF # r" r])

lemma configSplit_entries:
  "(\<forall>(k, v) \<in> set es. key_ok k \<and> value_ok v) \<Longrightarrow>
     configSplit (concat (map (\<lambda>p. fst p @ [ParamSeparatorSymbol] @ snd p @ [LF]) es)) p
       = (True, fold (\<lambda>(k, v). RBT.insert k v) es p)"
proof (induction es arbitrary: p)
  case (Cons e es)
  obtain k v where e: "e = (k, v)" by (cases e)
  let ?r = "concat (map (\<lambda>p. fst p @ [ParamSeparatorSymbol] @ snd p @ [LF]) es)"
  have "configSplit (k @ [ParamSeparatorSymbol] @ v @ LF # ?r) p = configSplit ?r (RBT.insert k v p)"
    using Cons.prems e by (subst configSplit.simps) (simp add: splitStep_entry [simplified] configSplit_break)
  then show ?case using Cons e by simp
qed simp

lemma lookup_fold_insert:
  "distinct (map fst es) \<Longrightarrow> RBT.lookup (fold (\<lambda>(k, v). RBT.insert k v) es p) k
     = (case map_of es k of Some v \<Rightarrow> Some v | None \<Rightarrow> RBT.lookup p k)"
proof (induction es arbitrary: p)
  case (Cons e es)
  obtain j v where e: "e = (j, v)" by (cases e)
  then show ?case
    using Cons by (auto split: option.splits dest!: map_of_SomeD simp: rev_image_eqI)
qed simp

lemma configToString_reads:
  assumes "config_ok m"
  shows "\<exists>m'. configReadFile (Some (configToString m)) RBT.empty = (True, m') \<and> RBT.lookup m' = RBT.lookup m"
proof -
  let ?es = "RBT.entries m"
  have n: "key_ok k \<Longrightarrow> NUL \<notin> set k" "value_ok v \<Longrightarrow> NUL \<notin> set v" for k v
    using class_simps(7) unfolding key_ok_def value_ok_def list_all_iff by blast+
  have "NUL \<notin> set (fst e @ [ParamSeparatorSymbol] @ snd e @ [LF])" if "e \<in> set ?es" for e
    using bspec [OF assms [unfolded config_ok_def] that] n by (cases e) (simp add: ParamSeparatorSymbol_def)
  then have "NUL \<notin> set (configToString m)" by (auto simp only: configToString_def set_concat set_map)
  then have "configReadFile (Some (configToString m)) RBT.empty = (True, fold (\<lambda>(k, v). RBT.insert k v) ?es RBT.empty)"
    using configSplit_entries [of ?es] assms
    by (simp add: configReadFile_def configReadLines_split) (simp add: configToString_def config_ok_def)
  then show ?thesis
    by (auto simp: lookup_fold_insert distinct_entries map_of_entries fun_eq_iff split: option.splits)
qed

section \<open>Properties\<close>

text \<open>
  Reading a file line by line is reading its text at once: the two entry points accept the
  same texts without zero bytes and build the same map.
\<close>

theorem config_file_string:
  assumes "NUL \<notin> set fs"
  shows "configReadFile (Some fs) params = configReadString fs params"
  using assms by (simp add: configReadFile_def configReadLines_split configReadString_split)

text \<open>
  C21: What a file was read into can be written out and read back: every key and value that the
  reader accepts, trailing spaces of the value included, survives \<open>configToString\<close>.
\<close>

theorem config_roundtrip:
  assumes "configReadFile content RBT.empty = (result, m)"
  shows "\<exists>m'. configReadFile (Some (configToString m)) RBT.empty = (True, m') \<and> RBT.lookup m' = RBT.lookup m"
  using configToString_reads configReadFile_ok [OF config_ok_empty, of content] assms by simp

text \<open>
  A key is read up to the first character that \<open>isKey\<close> refuses. The digit nine is one, so a
  parameter whose name contains it makes the whole text invalid.
\<close>

theorem config_no_nine:
  assumes "list_all isKey k" "NUL \<notin> set rest"
  shows "configReadString (k @ CHR ''9'' # rest) params = (False, params)"
proof -
  have n: "NUL \<notin> set (k @ CHR ''9'' # rest)" using assms class_simps(7) by (auto simp: list_all_iff)
  have nine: "\<not> isKey (CHR ''9'')" "\<not> isSpace (CHR ''9'')" "\<not> isBreak (CHR ''9'')" "CHR ''9'' \<noteq> CommentSymbol"
    "CHR ''9'' \<noteq> ParamSeparatorSymbol"
    by (simp_all add: isKey_def isSpace_def isBreak_def CommentSymbol_def ParamSeparatorSymbol_def)
  have d: "dropWhile isKey (k @ CHR ''9'' # rest) = CHR ''9'' # rest"
    using assms nine by (simp add: dropWhile_all list_all_iff)
  have "splitStep (k @ CHR ''9'' # rest) params = Inl False"
  proof (cases k)
    case Nil
    then show ?thesis using nine by (simp add: splitStep_def)
  next
    case (Cons c cs)
    then have "isKey c" using assms by simp
    then have c: "\<not> isSpace c" "\<not> isBreak c" "c \<noteq> CommentSymbol"
      by (auto simp: isKey_def isSpace_def isBreak_def CommentSymbol_def)
    have "dropWhile (\<lambda>c. isSpace c \<or> isBreak c) (k @ CHR ''9'' # rest) = k @ CHR ''9'' # rest" using c Cons by simp
    moreover have "dropWhile isSpace (CHR ''9'' # rest) = CHR ''9'' # rest" using nine by simp
    moreover have "hd (k @ CHR ''9'' # rest) \<noteq> CommentSymbol" using c Cons by simp
    ultimately show ?thesis
      using nine d by (simp add: splitStep_def Let_def)
  qed
  then show ?thesis by (simp add: configReadString_split [OF n] configSplit.simps)
qed

lemma config_file_string_witness: "configReadFile (Some ''a=1'') RBT.empty = configReadString ''a=1'' RBT.empty"
  by (rule config_file_string) simp

lemma config_roundtrip_witness:
  "\<exists>m m'. configReadFile (Some ''a=1 '') RBT.empty = (True, m) \<and> RBT.lookup m ''a'' = Some ''1 ''
     \<and> configReadFile (Some (configToString m)) RBT.empty = (True, m') \<and> RBT.lookup m' = RBT.lookup m"
proof -
  have r: "configReadFile (Some ''a=1 '') RBT.empty = (True, RBT.insert ''a'' ''1 '' RBT.empty)"
    by (simp add: config_file_string configReadString_split configSplit.simps splitStep_def isSpace_def isBreak_def
        isKey_def CommentSymbol_def ParamSeparatorSymbol_def)
  obtain m' where "configReadFile (Some (configToString (RBT.insert ''a'' ''1 '' RBT.empty))) RBT.empty = (True, m')"
    "RBT.lookup m' = RBT.lookup (RBT.insert ''a'' ''1 '' RBT.empty)" using config_roundtrip [OF r] by blast
  then show ?thesis
    using r by (intro exI [of _ "RBT.insert ''a'' ''1 '' RBT.empty"] exI [of _ m']) simp
qed

lemma config_no_nine_witness: "configReadString ''httpPort9=80'' RBT.empty = (False, RBT.empty)"
  using config_no_nine [of "''httpPort''" "''=80''" RBT.empty] by (simp add: isKey_def)

end
