(* ===== verification/ServerParametersLoad.thy ===== *)
theory ServerParametersLoad
  imports ConfigReader ServerParameters
begin

text \<open>
  \<open>src/ServerParameters.cpp\<close>: loading the parameters of the server from a configuration file. The
  content of the file is an argument, \<open>None\<close> when it cannot be opened. The messages printed on a
  failure and \<open>writeToLog\<close>, which only writes the parameters as text, are left out.
\<close>

section \<open>Loading\<close>

text \<open>\<open>std::stoi\<close>: \<open>None\<close> when it throws, for want of a number or because it does not fit an \<open>int\<close>.\<close>

definition stoi :: "string \<Rightarrow> int option" where
  "stoi s = (case read_integer s of (found, v) \<Rightarrow>
     if found \<and> - (2 ^ 31) \<le> v \<and> v < 2 ^ 31 then Some v else None)"

text \<open>\<open>None\<close> is the result \<open>false\<close>, otherwise the new value of \<open>param\<close>.\<close>

definition getOptionalInt :: "config_map \<Rightarrow> string \<Rightarrow> int \<Rightarrow> int option" where
  "getOptionalInt params paramName param =
     (case RBT.lookup params paramName of
        None \<Rightarrow> Some param
      | Some s \<Rightarrow> stoi s)"

text \<open>
  \<open>load\<close> in the order of the source. Each part gives its success and the parameters as they are
  then, also when it fails.
\<close>

definition load_ints :: "config_map \<Rightarrow> server_parameters \<Rightarrow> bool \<times> server_parameters" where
  "load_ints configMap sp =
     (case getOptionalInt configMap ''threadCount'' (sp_threadCount sp) of
        None \<Rightarrow> (False, sp)
      | Some v \<Rightarrow> let sp = sp\<lparr>sp_threadCount := v\<rparr> in
     (case getOptionalInt configMap ''executorTimeoutMillis'' (sp_executorTimeoutMillis sp) of
        None \<Rightarrow> (False, sp)
      | Some v \<Rightarrow> let sp = sp\<lparr>sp_executorTimeoutMillis := v\<rparr> in
     (case getOptionalInt configMap ''logFileSize'' (sp_logFileSize sp) of
        None \<Rightarrow> (False, sp)
      | Some v \<Rightarrow> let sp = sp\<lparr>sp_logFileSize := v\<rparr> in
     (case getOptionalInt configMap ''logArchiveCount'' (sp_logArchiveCount sp) of
        None \<Rightarrow> (False, sp)
      | Some v \<Rightarrow> (True, sp\<lparr>sp_logArchiveCount := v\<rparr>)))))"

definition load_folders :: "config_map \<Rightarrow> server_parameters \<Rightarrow> server_parameters" where
  "load_folders configMap sp =
     (let sp = (case RBT.lookup configMap ''rootFolder'' of None \<Rightarrow> sp | Some s \<Rightarrow> sp\<lparr>sp_rootFolder := s\<rparr>)
      in case RBT.lookup configMap ''logFolder'' of None \<Rightarrow> sp | Some s \<Rightarrow> sp\<lparr>sp_rootFolder := s\<rparr>)"

definition load_logLevel :: "config_map \<Rightarrow> server_parameters \<Rightarrow> bool \<times> server_parameters" where
  "load_logLevel configMap sp =
     (case RBT.lookup configMap ''logLevel'' of
        None \<Rightarrow> (True, sp)
      | Some s \<Rightarrow>
          if s = ''debug'' then (True, sp\<lparr>sp_logLevel := LL_debug\<rparr>)
          else if s = ''info'' then (True, sp\<lparr>sp_logLevel := LL_info\<rparr>)
          else if s = ''warning'' then (True, sp\<lparr>sp_logLevel := LL_warning\<rparr>)
          else if s = ''error'' then (True, sp\<lparr>sp_logLevel := LL_error\<rparr>)
          else (False, sp))"

definition load_logType :: "config_map \<Rightarrow> server_parameters \<Rightarrow> bool \<times> server_parameters" where
  "load_logType configMap sp =
     (case RBT.lookup configMap ''logType'' of
        None \<Rightarrow> (True, sp)
      | Some s \<Rightarrow>
          if s = ''stdout'' then (True, sp\<lparr>sp_logType := LT_stdout\<rparr>)
          else if s = ''mmap'' then (True, sp\<lparr>sp_logType := LT_mmap\<rparr>)
          else (False, sp))"

text \<open>The loops over \<open>portNum\<close> and \<open>proxyNum\<close>, which take the values of the list.\<close>

fun load_ports :: "config_map \<Rightarrow> nat list \<Rightarrow> server_parameters \<Rightarrow> bool \<times> server_parameters" where
  "load_ports configMap [] sp = (True, sp)"
| "load_ports configMap (portNum # ns) sp =
     (case getOptionalInt configMap (''httpPort'' @ show_nat portNum) (-1) of
        None \<Rightarrow> (False, sp)
      | Some port \<Rightarrow>
          if port < 0 then (True, sp)
          else load_ports configMap ns (sp\<lparr>sp_httpPorts := sp_httpPorts sp @ [port]\<rparr>))"

text \<open>The rest of a proxy's parameters: \<open>None\<close> is the return of \<open>-1\<close>.\<close>

definition load_socketType :: "config_map \<Rightarrow> string \<Rightarrow> socket_type option" where
  "load_socketType configMap key =
     (case RBT.lookup configMap key of
        None \<Rightarrow> Some ST_tcp
      | Some s \<Rightarrow> if s = ''tcp'' then Some ST_tcp else if s = ''unix'' then Some ST_unix else None)"

definition load_proxy :: "config_map \<Rightarrow> nat \<Rightarrow> int \<Rightarrow> proxy_parameters option" where
  "load_proxy configMap proxyNum port =
     (case RBT.lookup configMap (''proxy'' @ show_nat proxyNum @ ''.address'') of
        None \<Rightarrow> None
      | Some address \<Rightarrow>
     (case RBT.lookup configMap (''proxy'' @ show_nat proxyNum @ ''.prefix'') of
        None \<Rightarrow> None
      | Some pfx \<Rightarrow>
     (case load_socketType configMap (''proxy'' @ show_nat proxyNum @ ''.socket'') of
        None \<Rightarrow> None
      | Some socketType \<Rightarrow>
          Some \<lparr>px_prefix = pfx, px_address = address, px_port = port,
                px_connectionType = CT_clear, px_socketType = socketType\<rparr>)))"

fun load_proxies :: "config_map \<Rightarrow> nat list \<Rightarrow> server_parameters \<Rightarrow> bool \<times> server_parameters" where
  "load_proxies configMap [] sp = (True, sp)"
| "load_proxies configMap (proxyNum # ns) sp =
     (case getOptionalInt configMap (''proxy'' @ show_nat proxyNum @ ''.port'') 0 of
        None \<Rightarrow> (False, sp)
      | Some port \<Rightarrow>
          if port \<le> 0 then (True, sp)
          else (case load_proxy configMap proxyNum port of
             None \<Rightarrow> (False, sp)
           | Some proxy \<Rightarrow> load_proxies configMap ns (sp\<lparr>sp_proxies := sp_proxies sp @ [proxy]\<rparr>)))"

text \<open>\<open>content\<close> is what the file holds, \<open>None\<close> when it cannot be opened.\<close>

definition load :: "string option \<Rightarrow> server_parameters \<Rightarrow> int \<times> server_parameters" where
  "load content this =
     (let sp = sp_defaults in
     case configReadFile content RBT.empty of
       (False, _) \<Rightarrow> (-1, sp)
     | (True, configMap) \<Rightarrow>
     (case load_ints configMap sp of
       (False, sp) \<Rightarrow> (-1, sp)
     | (True, sp) \<Rightarrow>
     (case load_logLevel configMap (load_folders configMap sp) of
       (False, sp) \<Rightarrow> (-1, sp)
     | (True, sp) \<Rightarrow>
     (case load_logType configMap sp of
       (False, sp) \<Rightarrow> (-1, sp)
     | (True, sp) \<Rightarrow>
     (case load_ports configMap [0..<100] sp of
       (False, sp) \<Rightarrow> (-1, sp)
     | (True, sp) \<Rightarrow>
       if length (sp_httpPorts sp) < 1 then (-1, sp)
       else
     (case load_proxies configMap [0..<100] sp of
       (False, sp) \<Rightarrow> (-1, sp)
     | (True, sp) \<Rightarrow> (0, sp)))))))"

section \<open>What is loaded\<close>

text \<open>Parameters that a file can give.\<close>

definition int_ok :: "int \<Rightarrow> bool" where "int_ok v \<longleftrightarrow> - (2 ^ 31) \<le> v \<and> v < 2 ^ 31"

definition proxy_ok :: "proxy_parameters \<Rightarrow> bool" where
  "proxy_ok px \<longleftrightarrow> 0 < px_port px \<and> int_ok (px_port px) \<and> px_connectionType px = CT_clear
     \<and> px_socketType px \<noteq> ST_none \<and> value_ok (px_prefix px) \<and> value_ok (px_address px)"

definition parameters_ok :: "server_parameters \<Rightarrow> bool" where
  "parameters_ok sp \<longleftrightarrow> int_ok (sp_threadCount sp) \<and> int_ok (sp_executorTimeoutMillis sp)
     \<and> int_ok (sp_logFileSize sp) \<and> int_ok (sp_logArchiveCount sp) \<and> value_ok (sp_rootFolder sp)
     \<and> (\<forall>port \<in> set (sp_httpPorts sp). 0 \<le> port \<and> int_ok port) \<and> list_all proxy_ok (sp_proxies sp)"

lemma getOptionalInt_ok: "getOptionalInt m k v = Some w \<Longrightarrow> int_ok v \<Longrightarrow> int_ok w"
  by (auto simp: getOptionalInt_def stoi_def int_ok_def split: option.splits prod.splits if_splits)

lemma sp_defaults_ok: "parameters_ok sp_defaults"
  by (simp add: parameters_ok_def sp_defaults_def int_ok_def value_ok_def isSpace_def isBreak_def)

lemma load_ints_ok:
  "load_ints m sp = (True, sp') \<Longrightarrow> parameters_ok sp \<Longrightarrow> parameters_ok sp'"
  "load_ints m sp = (True, sp') \<Longrightarrow> sp_httpPorts sp' = sp_httpPorts sp \<and> sp_proxies sp' = sp_proxies sp"
  unfolding load_ints_def Let_def parameters_ok_def by (auto split: option.splits dest: getOptionalInt_ok)

lemma load_folders_ok:
  "parameters_ok sp \<Longrightarrow> config_ok m \<Longrightarrow> parameters_ok (load_folders m sp)"
  "sp_httpPorts (load_folders m sp) = sp_httpPorts sp \<and> sp_proxies (load_folders m sp) = sp_proxies sp"
  by (auto simp: load_folders_def Let_def parameters_ok_def config_ok_lookup split: option.splits)

lemma load_log_ok:
  "load_logLevel m sp = (b, sp') \<Longrightarrow> parameters_ok sp' = parameters_ok sp \<and> sp_httpPorts sp' = sp_httpPorts sp \<and> sp_proxies sp' = sp_proxies sp"
  "load_logType m sp = (b, sp') \<Longrightarrow> parameters_ok sp' = parameters_ok sp \<and> sp_httpPorts sp' = sp_httpPorts sp \<and> sp_proxies sp' = sp_proxies sp"
  by (auto simp: load_logLevel_def load_logType_def parameters_ok_def split: option.splits if_splits)

text \<open>The ports are the values of the consecutive parameters up to the first that is missing.\<close>

definition port_of :: "config_map \<Rightarrow> nat \<Rightarrow> int option" where
  "port_of m n = getOptionalInt m (''httpPort'' @ show_nat n) (-1)"

lemma load_ports_spec:
  "load_ports m ns sp = (True, sp') \<Longrightarrow>
     \<exists>ps. sp' = sp\<lparr>sp_httpPorts := sp_httpPorts sp @ ps\<rparr> \<and> length ps \<le> length ns
       \<and> (\<forall>i < length ps. port_of m (ns ! i) = Some (ps ! i) \<and> 0 \<le> ps ! i)
       \<and> (length ps < length ns \<longrightarrow> (\<exists>v < 0. port_of m (ns ! length ps) = Some v))"
proof (induction m ns sp rule: load_ports.induct)
  case (2 m n ns sp)
  show ?case
  proof (cases "port_of m n")
    case None
    then show ?thesis using 2(2) by (simp add: port_of_def)
  next
    case (Some port)
    show ?thesis
    proof (cases "port < 0")
      case True
      then show ?thesis using Some 2(2) by (intro exI [of _ "[]"]) (auto simp: port_of_def)
    next
      case False
      then obtain ps where "sp' = sp\<lparr>sp_httpPorts := sp_httpPorts sp @ port # ps\<rparr>" "length ps \<le> length ns"
        "\<forall>i < length ps. port_of m (ns ! i) = Some (ps ! i) \<and> 0 \<le> ps ! i"
        "length ps < length ns \<longrightarrow> (\<exists>v < 0. port_of m (ns ! length ps) = Some v)"
        using 2 Some by (auto simp: port_of_def)
      then show ?thesis using Some False
        by (intro exI [of _ "port # ps"]) (auto simp: nth_Cons split: nat.splits)
    qed
  qed
qed auto

text \<open>The same of the proxies.\<close>

definition proxy_of :: "config_map \<Rightarrow> nat \<Rightarrow> proxy_parameters option" where
  "proxy_of m n = (case getOptionalInt m (''proxy'' @ show_nat n @ ''.port'') 0 of
     None \<Rightarrow> None | Some port \<Rightarrow> if port \<le> 0 then None else load_proxy m n port)"

lemma load_proxies_spec:
  "load_proxies m ns sp = (True, sp') \<Longrightarrow>
     \<exists>ps. sp' = sp\<lparr>sp_proxies := sp_proxies sp @ ps\<rparr> \<and> length ps \<le> length ns
       \<and> (\<forall>i < length ps. proxy_of m (ns ! i) = Some (ps ! i))"
proof (induction m ns sp rule: load_proxies.induct)
  case (2 m n ns sp)
  obtain port where p: "getOptionalInt m (''proxy'' @ show_nat n @ ''.port'') 0 = Some port"
    using 2(2) by (auto split: option.splits)
  show ?case
  proof (cases "port \<le> 0")
    case True
    then show ?thesis using p 2(2) by (intro exI [of _ "[]"]) auto
  next
    case False
    then obtain px where x: "load_proxy m n port = Some px" using 2(2) p by (auto split: option.splits)
    then obtain ps where "sp' = sp\<lparr>sp_proxies := sp_proxies sp @ px # ps\<rparr>" "length ps \<le> length ns"
      "\<forall>i < length ps. proxy_of m (ns ! i) = Some (ps ! i)"
      using 2(1) [OF p False x] 2(2) p x False by auto
    then show ?thesis using p x False
      by (intro exI [of _ "px # ps"]) (auto simp: nth_Cons proxy_of_def split: nat.splits)
  qed
qed auto

lemma proxy_of_ok: "proxy_of m n = Some px \<Longrightarrow> config_ok m \<Longrightarrow> proxy_ok px"
  by (auto simp: proxy_of_def load_proxy_def load_socketType_def proxy_ok_def config_ok_lookup int_ok_def
      dest: getOptionalInt_ok [unfolded int_ok_def] split: option.splits if_splits)

lemma no_nine:
  assumes "config_ok m" shows "port_of m 9 = Some (-1)" "proxy_of m 9 = None"
proof -
  have n: "show_nat 9 = ''9''" by code_simp
  have "RBT.lookup m k = None" if "\<not> key_ok k" for k using assms that by (auto simp: config_ok_lookup) (metis option.exhaust)
  moreover have "\<not> key_ok ''httpPort9''" "\<not> key_ok ''proxy9.port''" by (simp_all add: key_ok_def isKey_def)
  ultimately show "port_of m 9 = Some (-1)" "proxy_of m 9 = None"
    by (simp_all add: port_of_def proxy_of_def n getOptionalInt_def)
qed

lemma load_cases:
  assumes "load content this = (0, sp)"
  obtains m sp1 sp2 sp3 sp4 where "config_ok m" "configReadFile content RBT.empty = (True, m)" "load_ints m sp_defaults = (True, sp1)"
    "load_logLevel m (load_folders m sp1) = (True, sp2)" "load_logType m sp2 = (True, sp3)"
    "load_ports m [0..<100] sp3 = (True, sp4)" "sp_httpPorts sp4 \<noteq> []" "load_proxies m [0..<100] sp4 = (True, sp)"
  using assms configReadFile_ok [OF config_ok_empty, of content] unfolding load_def Let_def
  by (auto split: prod.splits bool.splits if_splits)

lemma load_parts:
  assumes "load content this = (0, sp)"
  shows "parameters_ok sp" "0 < length (sp_httpPorts sp)" "length (sp_httpPorts sp) \<le> 9" "length (sp_proxies sp) \<le> 9"
proof -
  obtain m sp1 sp2 sp3 sp4 where m: "config_ok m" and c: "load_ints m sp_defaults = (True, sp1)"
    "load_logLevel m (load_folders m sp1) = (True, sp2)" "load_logType m sp2 = (True, sp3)"
    "load_ports m [0..<100] sp3 = (True, sp4)" "sp_httpPorts sp4 \<noteq> []" "load_proxies m [0..<100] sp4 = (True, sp)" using load_cases [OF assms] by metis
  have 3: "parameters_ok sp3" "sp_httpPorts sp3 = []" "sp_proxies sp3 = []"
    using load_ints_ok [OF c(1)] sp_defaults_ok load_folders_ok(1) [of sp1 m] load_folders_ok(2) [of m sp1] load_log_ok(1) [OF c(2)] load_log_ok(2) [OF c(3)] m
    by (auto simp: sp_defaults_def)
  from load_ports_spec [OF c(4)] obtain ps where ps: "sp4 = sp3\<lparr>sp_httpPorts := ps\<rparr>" "length ps \<le> 100"
      "\<forall>i < length ps. port_of m i = Some (ps ! i) \<and> 0 \<le> ps ! i" using 3 by auto
  from load_proxies_spec [OF c(6)] obtain xs where xs: "sp = sp4\<lparr>sp_proxies := xs\<rparr>" "length xs \<le> 100"
      "\<forall>i < length xs. proxy_of m i = Some (xs ! i)" using 3 ps by auto
  show "0 < length (sp_httpPorts sp)" using c(5) xs by simp
  show "length (sp_httpPorts sp) \<le> 9"
    using ps no_nine(1) [OF m] xs by (cases "9 < length ps") auto
  show "length (sp_proxies sp) \<le> 9"
    using xs no_nine(2) [OF m] by (cases "9 < length xs") auto
  have "int_ok (ps ! i)" if "i < length ps" for i
    using ps(3) that getOptionalInt_ok [of m _ "-1" "ps ! i"] by (auto simp: port_of_def int_ok_def)
  moreover have "proxy_ok (xs ! i)" if "i < length xs" for i using xs(3) that proxy_of_ok [OF _ m] by blast
  ultimately show "parameters_ok sp"
    using 3(1) ps xs by (auto simp: parameters_ok_def list_all_length in_set_conv_nth)
qed

section \<open>Properties\<close>

text \<open>
  C31: Parameters that load are well-formed: numbers are values of an \<open>int\<close>, there is an HTTP port,
  ports are not negative, every proxy has a positive port, an address, a prefix and a kind of socket.
  A name with the digit nine cannot be given, so there are at most nine ports and nine proxies.
\<close>

theorem load_valid:
  assumes "load content this = (0, sp)"
  shows "parameters_ok sp \<and> 0 < length (sp_httpPorts sp) \<and> length (sp_httpPorts sp) \<le> 9 \<and> length (sp_proxies sp) \<le> 9"
  using load_parts [OF assms] by simp

text \<open>
  The folder for the log is taken for the root folder: a file that names a \<open>logFolder\<close>
  serves the log folder's files, and the log goes to its default place.
\<close>

theorem load_log_folder:
  assumes "load content this = (0, sp)" "configReadFile content RBT.empty = (True, m)" "RBT.lookup m ''logFolder'' = Some folder"
  shows "sp_rootFolder sp = folder \<and> sp_logFolder sp = ''./log''"
proof -
  obtain m sp1 sp2 sp3 sp4 where c: "configReadFile content RBT.empty = (True, m)" "load_ints m sp_defaults = (True, sp1)"
    "load_logLevel m (load_folders m sp1) = (True, sp2)" "load_logType m sp2 = (True, sp3)"
    "load_ports m [0..<100] sp3 = (True, sp4)" "load_proxies m [0..<100] sp4 = (True, sp)"
    using load_cases [OF assms(1)] by metis
  have "sp_rootFolder (load_folders m sp1) = folder" "sp_logFolder (load_folders m sp1) = sp_logFolder sp1"
    using assms(2,3) c(1) by (simp_all add: load_folders_def Let_def split: option.splits)
  moreover have "sp_logFolder sp1 = ''./log''"
    using c(2) by (auto simp: load_ints_def Let_def sp_defaults_def split: option.splits)
  moreover have "sp_rootFolder sp3 = sp_rootFolder (load_folders m sp1)" "sp_logFolder sp3 = sp_logFolder (load_folders m sp1)"
    using c(3,4) by (auto simp: load_logLevel_def load_logType_def split: option.splits if_splits)
  moreover have "sp_rootFolder sp = sp_rootFolder sp3" "sp_logFolder sp = sp_logFolder sp3"
    using load_ports_spec [OF c(5)] load_proxies_spec [OF c(6)] by auto
  ultimately show ?thesis by simp
qed

text \<open>C92: The number of threads is not checked: zero loads.\<close>

definition no_threads_file :: string where
  "no_threads_file = ''threadCount=0'' @ LF # ''httpPort0=80'' @ LF # ''logFolder=log''"

theorem load_no_threads:
  "let (rc, sp) = load (Some no_threads_file) sp_defaults in rc = 0 \<and> sp_threadCount sp = 0 \<and> sp_httpPorts sp = [80]"
  by code_simp

lemma no_threads_loads: "fst (load (Some no_threads_file) sp_defaults) = 0"
  by code_simp

lemma no_threads_map:
  "let (b, m) = configReadFile (Some no_threads_file) RBT.empty in b \<and> RBT.lookup m ''logFolder'' = Some ''log''"
  by code_simp

lemma load_valid_witness: "parameters_ok (snd (load (Some no_threads_file) sp_defaults))"
  using load_valid [of "Some no_threads_file" sp_defaults] no_threads_loads
  by (cases "load (Some no_threads_file) sp_defaults") simp

lemma load_log_folder_witness: "sp_rootFolder (snd (load (Some no_threads_file) sp_defaults)) = ''log''"
proof -
  obtain m where "configReadFile (Some no_threads_file) RBT.empty = (True, m)" "RBT.lookup m ''logFolder'' = Some ''log''"
    using no_threads_map by (auto simp: Let_def)
  then show ?thesis
    using load_log_folder [of "Some no_threads_file" sp_defaults] no_threads_loads
    by (cases "load (Some no_threads_file) sp_defaults") simp
qed

end
