(* ===== verification/MainProgram.thy ===== *)
theory MainProgram
  imports ServerProperties ServerParametersLoad
begin

text \<open>
  \<open>src/main.cpp\<close>: the program loads the parameters, starts the server, waits until it is interrupted and
  stops the server. What it prints, the name given to the thread and the periodic \<open>logStats\<close> are left out.
\<close>

section \<open>The program\<close>

text \<open>The process's own flag, which the handler of \<open>SIGINT\<close> clears, its signals, the clock and the file.\<close>

record 'w main_os =
  mo_runFlag_store :: "bool \<Rightarrow> 'w \<Rightarrow> unit \<times> 'w"
  mo_runFlag_load :: "'w \<Rightarrow> bool \<times> 'w"
  mo_sigaction_SIGINT :: "'w \<Rightarrow> int \<times> 'w"
  mo_sigaction_SIGPIPE :: "'w \<Rightarrow> int \<times> 'w"
  mo_read_file :: "string \<Rightarrow> 'w \<Rightarrow> string option \<times> 'w"
  mo_sleep :: "int \<Rightarrow> 'w \<Rightarrow> unit \<times> 'w"

definition sigIntHandler :: "'w main_os \<Rightarrow> ('w server, unit) state" where
  "sigIntHandler mo = srv_sys (mo_runFlag_store mo False)"

definition installSigIntHandler :: "'w main_os \<Rightarrow> ('w server, int) state" where
  "installSigIntHandler mo = do {
     srv_sys (mo_runFlag_store mo True);
     rc \<leftarrow> srv_sys (mo_sigaction_SIGINT mo);
     if rc \<noteq> 0 then State_Monad.return (-1) else State_Monad.return 0
   }"

definition staticInit :: "'w main_os \<Rightarrow> ('w server, int) state" where
  "staticInit mo = do { srv_sys (mo_sigaction_SIGPIPE mo); State_Monad.return 0 }"

text \<open>\<open>while (runFlag.load())\<close>: \<open>None\<close> if the flag is never seen cleared.\<close>

partial_function (option) main_loop :: "'w main_os \<Rightarrow> 'w server \<Rightarrow> 'w server option" where
  "main_loop mo s =
     (case mo_runFlag_load mo (sv_world s) of (runFlag, w) \<Rightarrow>
        if runFlag then main_loop mo (s\<lparr>sv_world := snd (mo_sleep mo 10000 w)\<rparr>)
        else Some (s\<lparr>sv_world := w\<rparr>))"

text \<open>
  \<open>M_abort\<close> is the abnormal end of \<open>Server::start\<close>. The server is a local variable: its destructor
  stops it on every return.
\<close>

datatype main_result = M_exit int | M_abort

definition main :: "(nat \<Rightarrow> 'w os) \<Rightarrow> 'w server_os \<Rightarrow> 'w main_os \<Rightarrow> string list \<Rightarrow> 'w
    \<Rightarrow> (main_result \<times> 'w server) option" where
  "main os so mo argv w =
     (let fileName = (if length argv > 1 then argv ! 1 else ''./config.txt'');
          (rc, s) = run_state (installSigIntHandler mo) (sv_init w)
      in if rc \<noteq> 0 then Some (M_exit (-1), s)
         else let s = snd (run_state (staticInit mo) s);
                  (content, s) = run_state (srv_sys (mo_read_file mo fileName)) s;
                  (rc, params) = load content sp_defaults
              in if rc \<noteq> 0 then Some (M_exit (-1), snd (run_state (Server_stop os so) s))
                 else (case run_state (Server_start os so params) s of
                     (None, s) \<Rightarrow> Some (M_abort, s)
                   | (Some rc, s) \<Rightarrow>
                       if rc \<noteq> 0 then Some (M_exit (-1), snd (run_state (Server_stop os so) s))
                       else (case main_loop mo s of
                           None \<Rightarrow> None
                         | Some s \<Rightarrow>
                             let s = snd (run_state (Server_stop os so) s);
                                 s = snd (run_state (staticDestroy so) s)
                             in Some (M_exit 0, snd (run_state (Server_stop os so) s)))))"

text \<open>The world after \<open>n\<close> rounds of the loop.\<close>

definition main_round :: "'w main_os \<Rightarrow> 'w \<Rightarrow> 'w" where
  "main_round mo w = snd (mo_sleep mo 10000 (snd (mo_runFlag_load mo w)))"

lemma main_loop_returns:
  "\<not> fst (mo_runFlag_load mo ((main_round mo ^^ n) (sv_world s))) \<Longrightarrow> main_loop mo s \<noteq> None"
proof (induction n arbitrary: s)
  case 0
  then show ?case by (subst main_loop.simps) (auto split: prod.splits)
next
  case (Suc n)
  have "main_loop mo (s\<lparr>sv_world := main_round mo (sv_world s)\<rparr>) \<noteq> None"
    using Suc.prems by (intro Suc.IH) (simp add: funpow_swap1)
  then show ?case
    by (subst main_loop.simps) (auto simp: main_round_def split: prod.splits)
qed



definition sample_file :: string where
  "sample_file = ''threadCount=2'' @ LF # ''httpPort0=80''"

text \<open>A world that counts the rounds, and sees the flag cleared after three.\<close>

definition sample_mo :: "nat main_os" where
  "sample_mo = \<lparr>mo_runFlag_store = (\<lambda>b w. ((), w)), mo_runFlag_load = (\<lambda>w. (w < 3, w)), mo_sigaction_SIGINT = (\<lambda>w. (0, w)),
     mo_sigaction_SIGPIPE = (\<lambda>w. (0, w)), mo_read_file = (\<lambda>f w. (Some sample_file, w)), mo_sleep = (\<lambda>t w. ((), w + 1))\<rparr>"

lemma sample_mo_rounds: "(main_round sample_mo ^^ n) w = w + n"
  by (induction n) (simp_all add: main_round_def sample_mo_def)


definition sample_main :: "sample_world main_os" where
  "sample_main = \<lparr>mo_runFlag_store = (\<lambda>b w. ((), w)), mo_runFlag_load = (\<lambda>w. (False, w)), mo_sigaction_SIGINT = (\<lambda>w. (0, w)),
     mo_sigaction_SIGPIPE = (\<lambda>w. (0, w)), mo_read_file = (\<lambda>f w. (Some sample_file, w)), mo_sleep = (\<lambda>t w. ((), w))\<rparr>"

lemma sample_load:
  "let (rc, params) = load (Some sample_file) sp_defaults
   in rc = 0 \<and> sp_threadCount params = 2 \<and> sp_httpsPorts params = []"
  by code_simp

lemma sample_main_steps:
  "run_state (installSigIntHandler sample_main) s = (0, s)" "run_state (staticInit sample_main) s = (0, s)"
  "run_state (srv_sys (mo_read_file sample_main f)) s = (Some sample_file, s)" "main_loop sample_main s = Some s"
  by (simp_all add: installSigIntHandler_def staticInit_def srv_sys_def sample_main_def main_loop.simps)


end
