(* ===== verification/PollLoopRun.thy ===== *)
theory PollLoopRun
  imports PollLoopProperties
begin

text \<open>
  \<open>PollLoop::run\<close> and \<open>PollLoop::stop\<close>: when the loop returns, in what state it leaves its data, and what a
  stop from another thread does.
\<close>

section \<open>Turns\<close>

text \<open>One iteration of \<open>while (epollFd > 0 && runFlag.load())\<close>, and the turn the loop is in after \<open>n\<close> of them.\<close>

definition run_turn :: "'w os \<Rightarrow> 'w poll_loop \<Rightarrow> turn \<times> 'w poll_loop" where
  "run_turn os s =
     (if pl_epollFd s > 0
      then case run_state (sys (os_runFlag_load os)) s of (runFlag, s1) \<Rightarrow>
        if runFlag then run_state (run_body os) s1 else (T_break, s1)
      else (T_break, s))"

fun turns :: "'w os \<Rightarrow> nat \<Rightarrow> 'w poll_loop \<Rightarrow> turn \<times> 'w poll_loop" where
  "turns os 0 s = (T_continue, s)"
| "turns os (Suc n) s = (case run_turn os s of (T_continue, s') \<Rightarrow> turns os n s' | r \<Rightarrow> r)"

definition run_start :: "'w os \<Rightarrow> 'w poll_loop \<Rightarrow> 'w poll_loop" where
  "run_start os s = snd (run_state (sys (os_runFlag_store os True)) s)"

lemma run_loop_turn:
  "run_loop os s = (case run_turn os s of
     (T_continue, s') \<Rightarrow> run_loop os s'
   | (T_break, s') \<Rightarrow> Some (0, snd (run_state (destroy os) s'))
   | (T_return rc, s') \<Rightarrow> Some (rc, s')
   | (T_hang, s') \<Rightarrow> None)"
  by (subst run_loop.simps) (simp add: run_turn_def split: prod.split turn.split)

lemma run_loop_induct [consumes 1, case_names continue break return]:
  assumes "run_loop os s = Some r"
    and "\<And>s s' r. run_turn os s = (T_continue, s') \<Longrightarrow> P s' r \<Longrightarrow> P s r"
    and "\<And>s s'. run_turn os s = (T_break, s') \<Longrightarrow> P s (0, snd (run_state (destroy os) s'))"
    and "\<And>s s' rc. run_turn os s = (T_return rc, s') \<Longrightarrow> P s (rc, s')"
  shows "P s r"
proof -
  have "os' = os \<longrightarrow> P s r" if "run_loop os' s = Some r" for os' s r
  proof (rule run_loop.raw_induct [OF _ that], intro impI)
    fix loop and os' :: "'a os" and s r
    assume IH: "\<And>os' s r. loop os' s = Some r \<Longrightarrow> os' = os \<longrightarrow> P s r" and os: "os' = os"
      and eq: "(if pl_epollFd s > 0
        then case run_state (sys (os_runFlag_load os')) s of (runFlag, s1) \<Rightarrow>
          if runFlag
          then case run_state (run_body os') s1 of (t, s2) \<Rightarrow>
            (case t of T_continue \<Rightarrow> loop os' s2 | T_break \<Rightarrow> Some (0, snd (run_state (destroy os') s2))
              | T_return rc \<Rightarrow> Some (rc, s2) | T_hang \<Rightarrow> None)
          else Some (0, snd (run_state (destroy os') s1))
        else Some (0, snd (run_state (destroy os') s))) = Some r"
    from eq show "P s r"
      using os assms(2-4) [of s] IH by (auto simp: run_turn_def split: if_splits prod.splits turn.splits)
  qed
  then show ?thesis using assms(1) by blast
qed

lemma run_turn_order:
  assumes "os_ok os" "in_order s" "run_turn os s = (t, s')" shows "after_turn t s'"
proof -
  have w: "in_order (s\<lparr>pl_world := w\<rparr>)" for w using assms(2) by (simp add: in_order_def)
  have "after_turn t s'" if "run_state (run_body os) (s\<lparr>pl_world := w\<rparr>) = (t, s')" for w
    using wp_run [OF run_body_order [OF assms(1) w] that] .
  then show ?thesis
    using assms(2,3) w by (auto simp: run_turn_def sys_def split: if_splits prod.splits)
qed

lemma run_loop_result:
  assumes "run_loop os s = Some r" "os_ok os" "in_order s"
  shows "(fst r = 0 \<or> fst r = -1) \<and> loop_down (snd r) \<and> all_dead (snd r)"
  using assms(1,3)
proof (induction rule: run_loop_induct)
  case (continue s s' r)
  then show ?case using run_turn_order [OF assms(2)] by fastforce
next
  case (break s s')
  then have "in_order s'" using run_turn_order [OF assms(2)] by fastforce
  from destroy_all_dead [OF this, of os] show ?case by (simp add: wp_def split: prod.splits)
next
  case (return s s' rc)
  then show ?case using run_turn_order [OF assms(2)] by fastforce
qed

lemma run_loop_turns:
  "run_loop os s = Some r \<Longrightarrow> \<exists>n. fst (turns os n s) \<noteq> T_continue \<and> fst (turns os n s) \<noteq> T_hang"
proof (induction rule: run_loop_induct)
  case (continue s s' r)
  then obtain n where "fst (turns os n s') \<noteq> T_continue \<and> fst (turns os n s') \<noteq> T_hang" by blast
  with continue have "fst (turns os (Suc n) s) \<noteq> T_continue \<and> fst (turns os (Suc n) s) \<noteq> T_hang" by simp
  then show ?case by blast
qed (rule exI [of _ 1], simp)+

lemma turns_run_loop:
  "fst (turns os n s) \<noteq> T_continue \<Longrightarrow> run_loop os s = None \<longleftrightarrow> fst (turns os n s) = T_hang"
proof (induction n arbitrary: s)
  case (Suc n)
  then show ?case
    by (subst run_loop_turn) (auto split: prod.splits turn.splits)
qed simp

lemma run_loop_None_iff:
  "run_loop os s = None \<longleftrightarrow> (\<forall>n. fst (turns os n s) = T_continue) \<or> (\<exists>n. fst (turns os n s) = T_hang)"
proof (cases "run_loop os s")
  case None
  then show ?thesis using turns_run_loop by metis
next
  case (Some r)
  from run_loop_turns [OF Some] obtain n where n: "fst (turns os n s) \<noteq> T_continue" "fst (turns os n s) \<noteq> T_hang" by blast
  have "fst (turns os m s) \<noteq> T_hang" for m
    using turns_run_loop [of os m s] Some by auto
  then show ?thesis using Some n by auto
qed

section \<open>Stopping\<close>

text \<open>The loop's flag as a part of the world: a load reads what was stored last.\<close>

definition flag_ok :: "'w os \<Rightarrow> ('w \<Rightarrow> bool) \<Rightarrow> bool" where
  "flag_ok os flag \<longleftrightarrow> (\<forall>b w. flag (snd (os_runFlag_store os b w)) = b) \<and> (\<forall>w. os_runFlag_load os w = (flag w, w))"

lemma stop_run:
  assumes "flag_ok os flag" "turns os n (run_start os s) = (T_continue, t)"
    and "\<not> flag (pl_world t)
      \<or> (\<exists>k es w. os_epoll_wait os (pl_epollFd t) MAX_EPOLL_EVENTS (sp_executorTimeoutMillis (pl_parameters t)) (pl_world t) = ((k, es), w)
           \<and> k \<noteq> -1 \<and> \<not> flag w)"
  shows "\<exists>s'. run os s = Some (0, s')"
proof -
  have l: "os_runFlag_load os w = (flag w, w)" for w using assms(1) by (simp add: flag_ok_def)
  have "fst (run_turn os t) = T_break"
    using assms(3) by (auto simp: run_turn_def run_body_def sys_def l)
  then obtain t' where B: "run_turn os t = (T_break, t')" by (metis prod.collapse)
  have "turns os n u = (T_continue, t) \<Longrightarrow> run_loop os u = run_loop os t" for u
    by (induction n arbitrary: u) (auto simp: run_loop_turn [of os u] split: prod.splits turn.splits, subst run_loop_turn, auto)
  then have "run_loop os (run_start os s) = run_loop os t" using assms(2) by blast
  then show ?thesis using B by (simp add: run_def run_start_def run_loop_turn [of os t])
qed

section \<open>Properties\<close>




text \<open>
  \<open>run\<close> sets the flag, so a \<open>stop\<close> that comes before the thread has entered \<open>run\<close> is lost: the loop makes its
  first turn as if there had been none.
\<close>

theorem early_stop_lost:
  assumes "flag_ok os flag" "0 < pl_epollFd s"
  defines "s1 \<equiv> run_start os (snd (run_state (PollLoop_stop os) s))"
  shows "flag (pl_world s1) \<and> turns os 1 s1 = run_state (run_body os) s1"
proof -
  have e: "pl_epollFd s1 = pl_epollFd s"
    by (simp add: s1_def run_start_def PollLoop_stop_def sys_def split: prod.splits)
  have f: "flag (pl_world s1)"
    using assms(1) by (simp add: s1_def run_start_def sys_def flag_ok_def split: prod.splits) (metis snd_conv)
  have "run_turn os s1 = run_state (run_body os) s1"
    using assms(1,2) e f by (simp add: run_turn_def sys_def flag_ok_def)
  then show ?thesis using f by (simp split: prod.split turn.split)
qed

section \<open>A concrete run\<close>

text \<open>The flag is kept in the input of the sample world; a stop comes while the loop waits for its first events.\<close>

definition flag_os :: "sample_world os" where
  "flag_os = sample_os\<lparr>os_runFlag_store := (\<lambda>b w. ((), w\<lparr>sw_input := if b then ''1'' else []\<rparr>)),
     os_runFlag_load := (\<lambda>w. (sw_input w \<noteq> [], w)), os_epoll_wait := (\<lambda>ep n timeout w. ((0, []), w\<lparr>sw_input := []\<rparr>))\<rparr>"

lemma flag_os_ok: "os_ok flag_os" "kernel_works flag_os" "flag_ok flag_os (\<lambda>w. sw_input w \<noteq> [])"
  by (auto simp: flag_os_def os_ok_def io_ok_def epoll_del_ok_def kernel_works_def flag_ok_def)

lemma flag_os_reachable: "\<exists>s. reachable flag_os sp_defaults s"
proof -
  obtain s where "run_state (PollLoop_init flag_os sp_defaults) (pl_empty sp_defaults (sample_world [])) = (0, s)"
    using init_succeeds [OF flag_os_ok(2)] by (metis prod.collapse)
  then show ?thesis by (blast intro: reachable.initialised)
qed



lemma early_stop_lost_witness:
  "\<exists>s :: sample_world poll_loop. 0 < pl_epollFd s
     \<and> sw_input (pl_world (run_start flag_os (snd (run_state (PollLoop_stop flag_os) s)))) \<noteq> []"
proof -
  define s where "s = pl_empty sp_defaults (sample_world [])\<lparr>pl_epollFd := 3\<rparr>"
  have "0 < pl_epollFd s" by (simp add: s_def)
  from early_stop_lost [OF flag_os_ok(3) this] this show ?thesis by blast
qed

end
