(* ===== verification/ServerRun.thy ===== *)
theory ServerRun
  imports ServerProperties PollLoopRun
begin

text \<open>
  The server at work, over \<open>src/Server.cpp\<close>: its threads run their loops side by side, and every accepted
  connection is handed to one of them. Each turn of a loop is one step; between the steps, the world may
  change in any way. A loop's data belong to its thread, and the other threads reach it through its queue, its flag and
  its counter only, so steps of different loops can be taken one after the other in any order.
\<close>

section \<open>Threads\<close>

text \<open>\<open>None\<close>: the thread does not end.\<close>

definition threadEntry :: "(nat \<Rightarrow> 'w os) \<Rightarrow> 'w server_os \<Rightarrow> nat \<Rightarrow> 'w server \<Rightarrow> 'w server option" where
  "threadEntry os so pollLoopIndex s =
     (case run (os pollLoopIndex) ((loops_of s ! pollLoopIndex)\<lparr>pl_world := sv_world s\<rparr>) of
        None \<Rightarrow> None
      | Some (rc, l) \<Rightarrow>
          let s = put_loop pollLoopIndex l s
          in Some (if sp_httpsPorts (sv_parameters s) \<noteq> [] then snd (run_state (srv_sys (so_ERR_remove_state so)) s) else s))"

inductive serving :: "(nat \<Rightarrow> 'w os) \<Rightarrow> 'w server_os \<Rightarrow> server_parameters \<Rightarrow> 'w server \<Rightarrow> bool" for os so params where
  started: "run_state (Server_start os so params) s0 = (Some 0, s) \<Longrightarrow> serving os so params s"
| turned: "serving os so params s \<Longrightarrow> i < length (loops_of s) \<Longrightarrow> run_state (on_loop i (run_body (os i))) s = (T_continue, s')
    \<Longrightarrow> serving os so params s'"
| connected: "serving os so params s \<Longrightarrow> run_state (Server_createRequestExecutor os fd t) s = (rc, s') \<Longrightarrow> serving os so params s'"
| world: "serving os so params s \<Longrightarrow> serving os so params (s\<lparr>sv_world := w\<rparr>)"

section \<open>The invariant\<close>

definition all_reachable :: "(nat \<Rightarrow> 'w os) \<Rightarrow> server_parameters \<Rightarrow> 'w server \<Rightarrow> bool" where
  "all_reachable os params s \<longleftrightarrow> sv_parameters s = params \<and> length (loops_of s) = nat (sp_threadCount params) \<and> sv_loops s \<noteq> None
     \<and> (\<forall>i < length (loops_of s). reachable (os i) params (loops_of s ! i))"

lemma all_reachable_world [simp]: "all_reachable os params (s\<lparr>sv_world := w\<rparr>) = all_reachable os params s"
  by (simp add: all_reachable_def)

text \<open>A step of loop \<open>i\<close>: the loop takes the world of the server and gives it back.\<close>

lemma all_reachable_put:
  assumes "all_reachable os params s" "reachable (os i) params l"
  shows "all_reachable os params (put_loop i l s)"
  using assms by (cases "i < length (loops_of s)") (auto simp: all_reachable_def nth_list_update intro: reachable.environment)

lemma wp_on_loop_reachable:
  assumes s: "all_reachable os params s" and i: "i < length (loops_of s)"
    and m: "\<And>l. reachable (os i) params l \<Longrightarrow> wp m (\<lambda>r l'. good r \<longrightarrow> reachable (os i) params l') l"
  shows "wp (on_loop i m) (\<lambda>r s'. good r \<longrightarrow> all_reachable os params s') s"
proof -
  have "reachable (os i) params ((loops_of s ! i)\<lparr>pl_world := sv_world s\<rparr>)"
    using s i by (auto simp: all_reachable_def intro: reachable.environment)
  from m [OF this] show ?thesis
    unfolding wp_on_loop by (rule wp_mono) (use s in \<open>auto intro: all_reachable_put\<close>)
qed

text \<open>Nothing but the first assignment of \<open>start\<close> changes the parameters.\<close>

lemma parameters_ops:
  "stable (\<lambda>s. sv_parameters s = p) (on_loop i m)" "stable (\<lambda>s. sv_parameters s = p) (srv_sys f)"
  "(\<And>s. sv_parameters (g s) = sv_parameters s) \<Longrightarrow> stable (\<lambda>s. sv_parameters s = p) (modify g)"
  by (auto simp: stable_def wp_simps wp_on_loop intro: wp_mono [OF wp_True])

lemmas parameters_stable = stable_intros parameters_ops

lemma init_loops_parameters: "stable (\<lambda>s. sv_parameters s = p) (init_loops os params is)"
  by (induction "is") (auto intro!: parameters_stable)

lemma listen_ports_parameters: "stable (\<lambda>s. sv_parameters s = p) (listen_ports os n e k ps)"
  by (induction ps arbitrary: k) (auto intro!: parameters_stable)

lemma Server_start_parameters:
  "wp (Server_start os so params) (\<lambda>_ t. sv_parameters t = params) s"
proof -
  have st: "stable (\<lambda>s. sv_parameters s = params) (Server_stop os so)"
    unfolding Server_stop_def stop_threads_def delete_loops_def delete_objects_def sslDestroyContext_def by (intro parameters_stable) simp_all
  have "stable (\<lambda>s. sv_parameters s = params) (start_ssl so params)" "stable (\<lambda>s. sv_parameters s = params) (start_ports os params)"
    unfolding start_ssl_def start_ports_def Server_sslInit_def sslCreateContext_def
    by (intro parameters_stable listen_ports_parameters; simp)+
  note st = this st init_loops_parameters
  show ?thesis
    unfolding Server_start_def wp_bind [of "modify (\<lambda>s. s\<lparr>sv_parameters := _\<rparr>)"] wp_modify
    by (rule stableD, intro parameters_stable st) simp_all
qed

lemma createRequestExecutor_reachable:
  assumes "all_reachable os params s"
  shows "wp (Server_createRequestExecutor os fd t) (\<lambda>_. all_reachable os params) s"
proof -
  have E: "wp (enqueueClientFd o1 fd t) (\<lambda>_ l'. \<exists>w. l' = l\<lparr>pl_world := w\<rparr>) l" for o1 :: "'a os" and l
    unfolding enqueueClientFd_def wp_simps wp_sys_iff by auto
  have P: "all_reachable os params (put_loop i ((loops_of s ! i)\<lparr>pl_world := w\<rparr>) s)" for i w
  proof (cases "i < length (loops_of s)")
    case True
    then show ?thesis using assms by (intro all_reachable_put) (auto simp: all_reachable_def intro: reachable.environment)
  qed (use assms in \<open>simp add: all_reachable_def\<close>)
  show ?thesis
    unfolding Server_createRequestExecutor_def wp_simps wp_on_loop
    by (rule wp_mono [OF E]) (auto simp: P)
qed

lemma serving_reachable:
  assumes "serving os so params s" "0 < sp_threadCount params"
  shows "all_reachable os params s"
  using assms(1)
proof induction
  case (started s0 s)
  have "start_outcome os params (Some 0) s \<and> sv_parameters s = params"
    using wp_run [OF Server_start_outcome started] wp_run [OF Server_start_parameters started] by simp
  then show ?case
    using assms(2) by (auto simp: start_outcome_def started_def all_listening_def all_reachable_def intro: listening_reachable)
next
  case (turned s i s')
  have "wp (on_loop i (run_body (os i))) (\<lambda>r s'. r = T_continue \<longrightarrow> all_reachable os params s') s"
    by (rule wp_on_loop_reachable [OF turned.IH turned.hyps(2)])
      (auto simp: wp_def intro: reachable.turned split: prod.splits)
  from wp_run [OF this turned.hyps(3)] show ?case by simp
next
  case (connected s fd t rc s')
  from wp_run [OF createRequestExecutor_reachable [OF connected.IH] connected.hyps(2)] show ?case .
qed simp

section \<open>Properties\<close>


text \<open>A thread that ends leaves its loop closed, and the other loops alone.\<close>

theorem thread_ends_clean:
  assumes "\<And>i. os_ok (os i)" "serving os so params s" "0 < sp_threadCount params" "i < length (loops_of s)"
    and "threadEntry os so i s = Some s'"
  shows "loop_down (loops_of s' ! i) \<and> all_dead (loops_of s' ! i) \<and> (\<forall>j. j \<noteq> i \<longrightarrow> loops_of s' ! j = loops_of s ! j)"
proof -
  let ?l = "(loops_of s ! i)\<lparr>pl_world := sv_world s\<rparr>"
  have "reachable (os i) params ?l"
    using serving_reachable [OF assms(2,3)] assms(4) by (auto simp: all_reachable_def intro: reachable.environment)
  then have o: "in_order (run_start (os i) ?l)"
    using reachable_in_order assms(1) by (fastforce simp: run_start_def sys_def in_order_def split: prod.splits)
  obtain rc l where r: "run (os i) ?l = Some (rc, l)" and s': "loops_of s' = loops_of (put_loop i l s)"
    using assms(5) by (auto simp: threadEntry_def srv_sys_def Let_def split: option.splits if_splits prod.splits)
  from r have "run_loop (os i) (run_start (os i) ?l) = Some (rc, l)" by (simp add: run_def run_start_def)
  from run_loop_result [OF this assms(1) o] have "loop_down l \<and> all_dead l" by simp
  then show ?thesis using assms(4) by (simp add: s' loop_down_def)
qed

lemma sample_params:
  "0 < sp_threadCount (sp_defaults\<lparr>sp_threadCount := 2, sp_httpPorts := [80, 81, 82]\<rparr>)"
  "sp_httpsPorts (sp_defaults\<lparr>sp_threadCount := 2, sp_httpPorts := [80, 81, 82]\<rparr>) = []"
  by (simp_all add: sp_defaults_def)


end
