(* ===== verification/Logging.thy ===== *)
theory Logging
  imports TransferBuffer StateLemmas ServerParameters
begin

text \<open>
  \<open>src/log/LogBase.cpp\<close>, \<open>src/log/LogMmap.cpp\<close> and the tables of names in \<open>src/log/Log.h\<close>: the log whose
  file is mapped into memory, with its rotation through numbered archives. The mutex makes each
  call of \<open>writeLog\<close> one step. \<open>LogStdout\<close>, which prints, is left out.
\<close>

section \<open>Levels\<close>

fun level_number :: "log_level \<Rightarrow> int" where
  "level_number LL_debug = 1"
| "level_number LL_info = 2"
| "level_number LL_warning = 3"
| "level_number LL_error = 4"

text \<open>The order in which the methods compare levels.\<close>

instantiation log_level :: linorder
begin

definition less_eq_log_level :: "log_level \<Rightarrow> log_level \<Rightarrow> bool" where
  "x \<le> y \<longleftrightarrow> level_number x \<le> level_number y"

definition less_log_level :: "log_level \<Rightarrow> log_level \<Rightarrow> bool" where
  "x < y \<longleftrightarrow> level_number x < level_number y"

instance
proof
  fix x y :: log_level
  show "x \<le> y \<Longrightarrow> y \<le> x \<Longrightarrow> x = y" by (cases x; cases y) (simp_all add: less_eq_log_level_def)
qed (auto simp: less_eq_log_level_def less_log_level_def)

end

definition debugPrefix :: string where "debugPrefix = ''[DEBUG]  ''"
definition infoPrefix :: string where "infoPrefix = ''[INFO]   ''"
definition warningPrefix :: string where "warningPrefix = ''[WARNING]''"
definition errorPrefix :: string where "errorPrefix = ''[ERROR]  ''"

fun logLevelString :: "log_level \<Rightarrow> string" where
  "logLevelString LL_debug = ''debug''"
| "logLevelString LL_info = ''info''"
| "logLevelString LL_warning = ''warning''"
| "logLevelString LL_error = ''error''"

fun logTypeString :: "log_type \<Rightarrow> string" where
  "logTypeString LT_stdout = ''stdout''"
| "logTypeString LT_mmap = ''mmap''"

text \<open>
  The methods of a log whose level is \<open>level\<close>; \<open>writeLog\<close> is the virtual function that a kind of log
  defines, and \<open>m\<close> the format with its arguments.
\<close>

definition LogBase_debug :: "log_level \<Rightarrow> (string \<Rightarrow> 'm \<Rightarrow> ('s, unit) state) \<Rightarrow> 'm \<Rightarrow> ('s, unit) state" where
  "LogBase_debug level writeLog m =
     (if level \<le> LL_debug then writeLog debugPrefix m else State_Monad.return ())"

definition LogBase_info :: "log_level \<Rightarrow> (string \<Rightarrow> 'm \<Rightarrow> ('s, unit) state) \<Rightarrow> 'm \<Rightarrow> ('s, unit) state" where
  "LogBase_info level writeLog m =
     (if level \<le> LL_info then writeLog infoPrefix m else State_Monad.return ())"

definition LogBase_warning :: "log_level \<Rightarrow> (string \<Rightarrow> 'm \<Rightarrow> ('s, unit) state) \<Rightarrow> 'm \<Rightarrow> ('s, unit) state" where
  "LogBase_warning level writeLog m =
     (if level \<le> LL_warning then writeLog warningPrefix m else State_Monad.return ())"

definition LogBase_error :: "log_level \<Rightarrow> (string \<Rightarrow> 'm \<Rightarrow> ('s, unit) state) \<Rightarrow> 'm \<Rightarrow> ('s, unit) state" where
  "LogBase_error level writeLog m = writeLog errorPrefix m"

definition LogBase_writeLog :: "log_level \<Rightarrow> (string \<Rightarrow> 'm \<Rightarrow> ('s, unit) state) \<Rightarrow> log_level \<Rightarrow> 'm \<Rightarrow> ('s, unit) state" where
  "LogBase_writeLog level writeLog argLevel m =
     (if argLevel \<ge> level
      then writeLog (case argLevel of LL_debug \<Rightarrow> debugPrefix | LL_info \<Rightarrow> infoPrefix | LL_warning \<Rightarrow> warningPrefix
                     | LL_error \<Rightarrow> errorPrefix) m
      else State_Monad.return ())"

section \<open>The log in a mapped file\<close>

text \<open>
  The calls of \<open>LogMmap\<close> outside the C library. \<open>lo_open\<close> gives the descriptor and the file that it
  creates if there is none of that name; \<open>lo_mmap\<close> the memory, \<open>None\<close> for \<open>MAP_FAILED\<close>;
  \<open>lo_time\<close> the text of the current time.
\<close>

record 'w log_os =
  lo_stat :: "string \<Rightarrow> 'w \<Rightarrow> int \<times> 'w"
  lo_mkdir :: "string \<Rightarrow> 'w \<Rightarrow> int \<times> 'w"
  lo_open :: "string \<Rightarrow> 'w \<Rightarrow> (int \<times> nat) \<times> 'w"
  lo_ftruncate :: "int \<Rightarrow> int \<Rightarrow> 'w \<Rightarrow> int \<times> 'w"
  lo_mmap :: "int \<Rightarrow> int \<Rightarrow> 'w \<Rightarrow> string option \<times> 'w"
  lo_munmap :: "int \<Rightarrow> 'w \<Rightarrow> int \<times> 'w"
  lo_close :: "int \<Rightarrow> 'w \<Rightarrow> int \<times> 'w"
  lo_time :: "'w \<Rightarrow> string \<times> 'w"

text \<open>
  The members of the log, and the directory as a map from names to files, each named by a number:
  the C library's \<open>rename\<close> and \<open>remove\<close> work on it.
\<close>

record 'w mmap_log =
  lm_world :: 'w
  lm_files :: "string \<Rightarrow> nat option"
  lm_level :: log_level
  lm_logFileSize :: int
  lm_logArchiveCount :: int
  lm_buffer :: linear_buffer
  lm_fd :: int
  lm_logFileName :: string

definition c_remove :: "string \<Rightarrow> (string \<Rightarrow> nat option) \<Rightarrow> string \<Rightarrow> nat option" where
  "c_remove f fs = fs(f := None)"

definition c_rename :: "string \<Rightarrow> string \<Rightarrow> (string \<Rightarrow> nat option) \<Rightarrow> string \<Rightarrow> nat option" where
  "c_rename f g fs = (case fs f of None \<Rightarrow> fs | Some x \<Rightarrow> (fs(f := None))(g := Some x))"

text \<open>\<open>snprintf\<close> into \<open>n\<close> bytes.\<close>

definition c_snprintf :: "nat \<Rightarrow> string \<Rightarrow> string" where
  "c_snprintf n text = take (n - 1) text @ [NUL]"

definition maxMessageSize :: nat where "maxMessageSize = 1024"
definition maxLogFileNameSize :: nat where "maxLogFileNameSize = 300"

definition lsys :: "('w \<Rightarrow> 'a \<times> 'w) \<Rightarrow> ('w mmap_log, 'a) state" where
  "lsys f = State (\<lambda>s. case f (lm_world s) of (r, w) \<Rightarrow> (r, s\<lparr>lm_world := w\<rparr>))"

definition openFile :: "'w log_os \<Rightarrow> ('w mmap_log, int) state" where
  "openFile lo = do {
     name \<leftarrow> gets lm_logFileName;
     size \<leftarrow> gets lm_logFileSize;
     r \<leftarrow> lsys (lo_open lo name);
     (case r of (fd, file) \<Rightarrow> do {
       modify (\<lambda>s. s\<lparr>lm_fd := fd\<rparr>);
       if fd < 0 then State_Monad.return (-1)
       else do {
         modify (\<lambda>s. s\<lparr>lm_files := (lm_files s)(name := Some (case lm_files s name of None \<Rightarrow> file | Some old \<Rightarrow> old))\<rparr>);
         rc \<leftarrow> lsys (lo_ftruncate lo fd size);
         if rc \<noteq> 0 then do { lsys (lo_close lo fd); modify (\<lambda>s. s\<lparr>lm_fd := -1\<rparr>); State_Monad.return (-1) }
         else do {
           p \<leftarrow> lsys (lo_mmap lo fd size);
           (case p of
              None \<Rightarrow> do { lsys (lo_close lo fd); modify (\<lambda>s. s\<lparr>lm_fd := -1\<rparr>); State_Monad.return (-1) }
            | Some memory \<Rightarrow> do {
                modify (\<lambda>s. s\<lparr>lm_buffer := tb_init (Some memory) (nat size) (lm_buffer s)\<rparr>);
                State_Monad.return 0
              })
         }
       }
     })
   }"

definition closeFile :: "'w log_os \<Rightarrow> ('w mmap_log, unit) state" where
  "closeFile lo = do {
     fd \<leftarrow> gets lm_fd;
     if fd \<ge> 0 then do {
       size \<leftarrow> gets lm_logFileSize;
       ptr \<leftarrow> gets (\<lambda>s. tb_getDataPtr (lm_buffer s));
       modify (\<lambda>s. s\<lparr>lm_buffer := tb_init None 0 (lm_buffer s)\<rparr>);
       (if ptr \<noteq> None then do { lsys (lo_munmap lo size); State_Monad.return () } else State_Monad.return ());
       lsys (lo_close lo fd);
       modify (\<lambda>s. s\<lparr>lm_fd := -1\<rparr>)
     } else State_Monad.return ()
   }"

text \<open>
  The names are printed into 300 bytes. \<open>rotate_loop p1 is\<close> is the loop over \<open>i\<close> with the name left in
  \<open>p1\<close> after the last swap.
\<close>

definition archive_name :: "string \<Rightarrow> int \<Rightarrow> string" where
  "archive_name name i = take 299 (name @ ''.'' @ show_int i)"

fun rotate_loop :: "string \<Rightarrow> string \<Rightarrow> int list \<Rightarrow> ('w mmap_log, string) state" where
  "rotate_loop name p1 [] = State_Monad.return p1"
| "rotate_loop name p1 (i # is) = do {
     modify (\<lambda>s. s\<lparr>lm_files := c_rename (archive_name name i) p1 (lm_files s)\<rparr>);
     rotate_loop name (archive_name name i) is
   }"

definition rotate :: "'w log_os \<Rightarrow> ('w mmap_log, int) state" where
  "rotate lo = do {
     closeFile lo;
     name \<leftarrow> gets lm_logFileName;
     n \<leftarrow> gets lm_logArchiveCount;
     modify (\<lambda>s. s\<lparr>lm_files := c_remove (archive_name name n) (lm_files s)\<rparr>);
     p1 \<leftarrow> rotate_loop name (archive_name name n) (rev [1..n - 1]);
     modify (\<lambda>s. s\<lparr>lm_files := c_rename name p1 (lm_files s)\<rparr>);
     openFile lo
   }"

definition LogMmap_init :: "'w log_os \<Rightarrow> server_parameters \<Rightarrow> ('w mmap_log, int) state" where
  "LogMmap_init lo params =
     (if length (sp_logFolder params) + 2 > maxLogFileNameSize - 30 then State_Monad.return (-1)
      else do {
        modify (\<lambda>s. s\<lparr>lm_level := sp_logLevel params\<rparr>);
        modify (\<lambda>s. s\<lparr>lm_logFileSize := sp_logFileSize params\<rparr>);
        modify (\<lambda>s. s\<lparr>lm_logArchiveCount := sp_logArchiveCount params\<rparr>);
        modify (\<lambda>s. s\<lparr>lm_logFileName := cstr (sp_logFolder params)\<rparr>);
        name \<leftarrow> gets lm_logFileName;
        rc \<leftarrow> lsys (lo_stat lo name);
        rc \<leftarrow> (if rc = -1 then lsys (lo_mkdir lo name) else State_Monad.return 0);
        if rc \<noteq> 0 then State_Monad.return (-1)
        else do {
          modify (\<lambda>s. s\<lparr>lm_logFileName := lm_logFileName s @ ''/http.log''\<rparr>);
          rotate lo
        }
      })"

text \<open>
  The message is what the format and its arguments give, \<open>None\<close> when \<open>vsnprintf\<close> fails; its length then is
  counted as minus one. The first part finds room, the second writes.
\<close>

definition log_room :: "'w log_os \<Rightarrow> ('w mmap_log, nat option) state" where
  "log_room lo = do {
     b \<leftarrow> gets lm_buffer;
     (case tb_startWrite b of (ret, data, sz) \<Rightarrow>
       if \<not> ret \<or> (ret \<and> sz < maxMessageSize) then do {
         rc \<leftarrow> rotate lo;
         if rc \<noteq> 0 then State_Monad.return None
         else do {
           b \<leftarrow> gets lm_buffer;
           (case tb_startWrite b of (ret, data, sz) \<Rightarrow>
             if \<not> ret then State_Monad.return None
             else if sz < maxMessageSize then State_Monad.return None
             else State_Monad.return (Some data))
         }
       }
       else State_Monad.return (Some data))
   }"

definition put_message :: "nat \<Rightarrow> string \<Rightarrow> string option \<Rightarrow> linear_buffer \<Rightarrow> linear_buffer" where
  "put_message data prefixText message b =
     (let b = tb_store data (c_snprintf maxMessageSize prefixText) b;
          prefixLength = length prefixText
      in if prefixLength \<ge> maxMessageSize then tb_endWrite (maxMessageSize - 1) b
         else let bytesToWrite = maxMessageSize - prefixLength
              in case message of
                   None \<Rightarrow> tb_endWrite (prefixLength - 1) b
                 | Some text \<Rightarrow>
                     let b = tb_store (data + prefixLength) (c_snprintf bytesToWrite text) b;
                         bytesWritten = (if length text \<ge> bytesToWrite then bytesToWrite - 1 else length text)
                     in tb_endWrite (prefixLength + bytesWritten) b)"

definition LogMmap_writeLog :: "'w log_os \<Rightarrow> string \<Rightarrow> string option \<Rightarrow> ('w mmap_log, unit) state" where
  "LogMmap_writeLog lo prefixText message = do {
     room \<leftarrow> log_room lo;
     case room of
       None \<Rightarrow> State_Monad.return ()
     | Some data \<Rightarrow> do {
         time \<leftarrow> lsys (lo_time lo);
         modify (\<lambda>s. s\<lparr>lm_buffer := put_message data (prefixText @ '' '' @ time @ ''   '') message (lm_buffer s)\<rparr>)
       }
   }"

lemma wp_lsys [wp_simps]: "wp (lsys f) Q s \<longleftrightarrow> (\<forall>r w. f (lm_world s) = (r, w) \<longrightarrow> Q r (s\<lparr>lm_world := w\<rparr>))"
  by (simp add: lsys_def wp_def split: prod.splits)

text \<open>Messages of a level are written when the level is at least the log's; every error is.\<close>

lemma log_methods_agree:
  "LogBase_writeLog level wr argLevel m = (case argLevel of LL_debug \<Rightarrow> LogBase_debug level wr m
     | LL_info \<Rightarrow> LogBase_info level wr m | LL_warning \<Rightarrow> LogBase_warning level wr m | LL_error \<Rightarrow> LogBase_error level wr m)"
  by (cases level; cases argLevel)
    (simp_all add: LogBase_writeLog_def LogBase_debug_def LogBase_info_def LogBase_warning_def LogBase_error_def
      less_eq_log_level_def)

section \<open>Writing\<close>

lemma tb_store_commit:
  assumes "tb_inv b" "tb_startWrite b = (True, p, n)" "length bs \<le> n" "k \<le> length bs"
  shows "tb_inv (tb_endWrite k (tb_store p bs b))" "tb_content (tb_endWrite k (tb_store p bs b)) = tb_content b @ take k bs"
  using assms by (cases "tb_buf b"; auto simp: tb_defs mem_write_def drop_take split: if_splits)+

lemma mem_write_twice:
  assumes "q \<le> length xs" "length xs \<le> q + length ys" "p + q + length ys \<le> length m"
  shows "mem_write (p + q) ys (mem_write p xs m) = mem_write p (take q xs @ ys) m"
  using assms by (simp add: mem_write_def ac_simps)

lemma tb_store_twice:
  assumes "tb_inv b" "tb_startWrite b = (True, p, n)" "q \<le> length xs" "length xs \<le> q + length ys" "q + length ys \<le> n"
  shows "tb_store (p + q) ys (tb_store p xs b) = tb_store p (take q xs @ ys) b"
proof (cases "tb_buf b")
  case (Some m)
  have "p + q + length ys \<le> length m"
    using assms(1,2,5) Some by (auto simp: tb_inv_def tb_startWrite_def tb_mem_def split: if_splits)
  then show ?thesis using mem_write_twice [OF assms(3,4), of p m] Some by (simp add: tb_store_def)
qed (simp add: tb_store_def)

lemma length_snprintf: "0 < n \<Longrightarrow> length (c_snprintf n text) = min (n - 1) (length text) + 1"
  by (simp add: c_snprintf_def min.commute)

lemma put_message_store:
  assumes inv: "tb_inv b" and sw: "tb_startWrite b = (True, p, n)" and n: "maxMessageSize \<le> n"
  shows "tb_inv (put_message p pre message b)" (is ?A)
    "tb_content (put_message p pre (Some text) b) = tb_content b @ take (maxMessageSize - 1) (pre @ text)" (is ?B)
proof -
  have m: "0 < maxMessageSize" by (simp add: maxMessageSize_def)
  note commit = tb_store_commit [OF inv sw]
  have "?A \<and> ?B"
  proof (cases "maxMessageSize \<le> length pre")
    case True
    have e: "put_message p pre msg b = tb_endWrite (maxMessageSize - 1) (tb_store p (c_snprintf maxMessageSize pre) b)" for msg
      using True by (simp add: put_message_def)
    have l: "length (c_snprintf maxMessageSize pre) = maxMessageSize" using True m by (simp add: length_snprintf)
    show ?thesis
      unfolding e using commit [of "c_snprintf maxMessageSize pre" "maxMessageSize - 1"] n l True by (simp add: c_snprintf_def)
  next
    case False
    let ?k = "maxMessageSize - length pre"
    have A: "c_snprintf maxMessageSize pre = pre @ [NUL]" using False by (simp add: c_snprintf_def)
    have S: "put_message p pre (Some t) b = tb_endWrite (length pre + min (length t) (?k - 1)) (tb_store p (pre @ c_snprintf ?k t) b)" for t
    proof -
      have "tb_store (p + length pre) (c_snprintf ?k t) (tb_store p (pre @ [NUL]) b) = tb_store p (pre @ c_snprintf ?k t) b"
        using tb_store_twice [OF inv sw, of "length pre" "pre @ [NUL]" "c_snprintf ?k t"] False n by (simp add: length_snprintf)
      then show ?thesis using False by (auto simp: put_message_def Let_def A)
    qed
    have B: "tb_inv (put_message p pre (Some t) b)"
      "tb_content (put_message p pre (Some t) b) = tb_content b @ take (maxMessageSize - 1) (pre @ t)" for t
      unfolding S using commit [of "pre @ c_snprintf ?k t" "length pre + min (length t) (?k - 1)"] False n
      by (auto simp: length_snprintf c_snprintf_def min_def)
    have N: "tb_inv (put_message p pre None b)"
      using commit(1) [of "pre @ [NUL]" "length pre - 1"] False n by (simp add: put_message_def A)
    show ?thesis using B N by (cases message) auto
  qed
  then show ?A ?B by simp_all
qed

section \<open>Rotation\<close>

text \<open>The archives have different names as long as the printed names fit.\<close>

lemma length_show_nat: "n < 10 ^ k \<Longrightarrow> 0 < k \<Longrightarrow> length (show_nat n) \<le> k"
proof (induction n arbitrary: k rule: show_nat.induct)
  case (1 n)
  show ?case
  proof (cases "n < 10")
    case True
    then show ?thesis using 1 by (simp add: show_nat.simps)
  next
    case False
    then obtain j where j: "k = Suc j" "0 < j" using 1(2,3) by (cases k; cases "k - 1") auto
    then have "length (show_nat (n div 10)) \<le> j" using 1(1) [OF False, of j] 1(2) by (simp add: less_mult_imp_div_less mult.commute)
    then show ?thesis using False j by (simp add: show_nat.simps [of n])
  qed
qed

definition name_short :: "string \<Rightarrow> bool" where
  "name_short name \<longleftrightarrow> length name \<le> 277"

lemma archive_name_full:
  assumes "name_short name" "0 \<le> i" "i < 2 ^ 31"
  shows "archive_name name i = name @ ''.'' @ show_nat (nat i)"
proof -
  have "nat i < 10 ^ 10" using assms by simp
  from length_show_nat [OF this] show ?thesis using assms by (simp add: archive_name_def show_int_def name_short_def)
qed

lemma archive_name_inj:
  assumes "name_short name" "0 \<le> i" "i < 2 ^ 31" "0 \<le> j" "j < 2 ^ 31"
  shows "archive_name name i = archive_name name j \<longleftrightarrow> i = j"
proof
  assume "archive_name name i = archive_name name j"
  then have "show_nat (nat i) = show_nat (nat j)"
    unfolding archive_name_full [OF assms(1-3)] archive_name_full [OF assms(1,4,5)] by simp
  then have "int (nat i) = int (nat j)" by (metis decimal_show_nat)
  then show "i = j" using assms by simp
qed simp

lemma archive_name_ne: "name_short name \<Longrightarrow> 0 \<le> i \<Longrightarrow> i < 2 ^ 31 \<Longrightarrow> archive_name name i \<noteq> name"
  by (simp add: archive_name_full)

text \<open>The files when the loop has come down to \<open>k\<close>.\<close>

definition shifted :: "string \<Rightarrow> int \<Rightarrow> (string \<Rightarrow> nat option) \<Rightarrow> int \<Rightarrow> (string \<Rightarrow> nat option) \<Rightarrow> bool" where
  "shifted name n F k G \<longleftrightarrow> G (archive_name name k) = None
     \<and> (\<forall>i. k \<le> i \<longrightarrow> i < n \<longrightarrow> G (archive_name name (i + 1)) = F (archive_name name i))
     \<and> (\<forall>x. x \<notin> archive_name name ` {k..n} \<longrightarrow> G x = F x)"

lemma shifted_step:
  assumes s: "shifted name n F k G" and k: "1 < k" "k \<le> n" "n < 2 ^ 31" and name: "name_short name"
  shows "shifted name n F (k - 1) (c_rename (archive_name name (k - 1)) (archive_name name k) G)"
proof -
  let ?a = "archive_name name"
  have inj: "?a i = ?a j \<longleftrightarrow> i = j" if "0 \<le> i" "i \<le> n" "0 \<le> j" "j \<le> n" for i j
    by (rule archive_name_inj) (use that k name in simp_all)
  have out: "?a (k - 1) \<notin> ?a ` {k..n}" using inj k by fastforce
  then have old: "G (?a (k - 1)) = F (?a (k - 1))" using s by (simp add: shifted_def)
  have "{k - 1..n} = insert (k - 1) {k..n}" using k by auto
  then have I: "?a ` {k - 1..n} = insert (?a (k - 1)) (?a ` {k..n})" by simp
  have kin: "?a k \<in> ?a ` {k..n}" using k by simp
  have "G (?a (i + 1)) = F (?a i)" "?a (i + 1) \<noteq> ?a k" "?a (i + 1) \<noteq> ?a (k - 1)" if "k \<le> i" "i < n" for i
    using s that k inj [of "i + 1" k] inj [of "i + 1" "k - 1"] by (auto simp: shifted_def)
  moreover have "?a (k - 1) \<noteq> ?a k" using inj [of "k - 1" k] k by simp
  moreover have "k - 1 \<le> i \<longleftrightarrow> i = k - 1 \<or> k \<le> i" for i by auto
  ultimately show ?thesis
    using s old kin by (auto simp: shifted_def c_rename_def I split: option.splits)
qed

lemma rotate_loop_shifts:
  assumes "1 \<le> k" "k \<le> n" "n < 2 ^ 31" "name_short name" "shifted name n F k (lm_files s)"
  shows "\<exists>G. run_state (rotate_loop name (archive_name name k) (rev [1..k - 1])) s = (archive_name name 1, s\<lparr>lm_files := G\<rparr>)
     \<and> shifted name n F 1 G"
  using assms(1,2,5)
proof (induction k arbitrary: s rule: int_ge_induct)
  case base
  then show ?case by (intro exI [of _ "lm_files s"]) simp
next
  case (step k)
  have r: "rev [1..k] = k # rev [1..k - 1]" using step(1) by (simp add: upto_rec2)
  have "shifted name n F k (c_rename (archive_name name k) (archive_name name (k + 1)) (lm_files s))"
    using shifted_step [OF step(4)] step(1,3) assms(3,4) by simp
  then have "shifted name n F k (lm_files (s\<lparr>lm_files := c_rename (archive_name name k) (archive_name name (k + 1)) (lm_files s)\<rparr>))"
    by simp
  from step.IH [OF _ this] step(3) show ?case by (simp add: r)
qed

text \<open>What a rotation does to the files: archive \<open>i\<close> becomes archive \<open>i + 1\<close>, the log becomes the first archive.\<close>

definition rotated :: "string \<Rightarrow> int \<Rightarrow> (string \<Rightarrow> nat option) \<Rightarrow> (string \<Rightarrow> nat option) \<Rightarrow> bool" where
  "rotated name n F F' \<longleftrightarrow> F' (archive_name name 1) = F name
     \<and> (\<forall>i. 1 \<le> i \<longrightarrow> i < n \<longrightarrow> F' (archive_name name (i + 1)) = F (archive_name name i))
     \<and> (\<forall>x. x \<noteq> name \<longrightarrow> x \<notin> archive_name name ` {1..n} \<longrightarrow> F' x = F x)"

text \<open>Documented behaviour of \<open>mmap\<close>, and what holds of a log between calls.\<close>

definition log_os_ok :: "'w log_os \<Rightarrow> bool" where
  "log_os_ok lo \<longleftrightarrow> (\<forall>fd n w m w'. lo_mmap lo fd n w = (Some m, w') \<longrightarrow> int (length m) = n)"

definition log_inv :: "'w mmap_log \<Rightarrow> bool" where
  "log_inv s \<longleftrightarrow> tb_inv (lm_buffer s) \<and> int (tb_bufSize (lm_buffer s)) \<le> max 0 (lm_logFileSize s)
     \<and> (lm_fd s < 0 \<longrightarrow> tb_bufSize (lm_buffer s) = 0)"

definition same_settings :: "'w mmap_log \<Rightarrow> 'w mmap_log \<Rightarrow> bool" where
  "same_settings s t \<longleftrightarrow> lm_logFileName t = lm_logFileName s \<and> lm_logArchiveCount t = lm_logArchiveCount s
     \<and> lm_logFileSize t = lm_logFileSize s \<and> lm_level t = lm_level s"

lemma wp_closeFile:
  assumes "log_inv s"
  shows "wp (closeFile lo) (\<lambda>_ t. lm_files t = lm_files s \<and> same_settings s t \<and> log_inv t \<and> tb_bufSize (lm_buffer t) = 0 \<and> lm_fd t < 0) s"
  using assms tb_init_inv(2) unfolding closeFile_def wp_simps
  by (auto simp: same_settings_def log_inv_def tb_init_def tb_clear_def)

lemma wp_openFile:
  assumes "log_os_ok lo" "log_inv s" "tb_bufSize (lm_buffer s) = 0" "lm_fd s < 0"
  shows "wp (openFile lo) (\<lambda>rc t. (\<forall>x. x \<noteq> lm_logFileName s \<longrightarrow> lm_files t x = lm_files s x) \<and> same_settings s t \<and> log_inv t
     \<and> tb_content (lm_buffer t) = [] \<and> (rc = 0 \<longrightarrow> tb_writeHead (lm_buffer t) = 0 \<and> int (tb_bufSize (lm_buffer t)) = lm_logFileSize s
        \<and> lm_files t (lm_logFileName s) \<noteq> None)) s"
proof -
  have c: "tb_content (lm_buffer s) = []" using assms(2,3) by (simp add: log_inv_def tb_inv_def tb_content_def mem_read_def)
  have m: "int (length m) = n" if "lo_mmap lo fd n w = (Some m, w')" for fd n w m w' using assms(1) that unfolding log_os_ok_def by blast
  have i: "tb_inv (tb_init (Some m) (nat n) b)" if "lo_mmap lo fd n w = (Some m, w')" for fd n w m w' b
    using m [OF that] tb_init_inv(1) [of m b] by (metis nat_int)
  show ?thesis
    unfolding openFile_def wp_simps
    by (intro allI impI conjI; (use assms(2,3,4) in \<open>auto simp: same_settings_def log_inv_def\<close>; fail)?)
      (use assms(2,3,4) c in \<open>auto simp: same_settings_def log_inv_def tb_init_def tb_clear_def dest: m i [unfolded tb_init_def tb_clear_def]\<close>)
qed

lemma wp_rotate_loop:
  assumes "1 \<le> n" "n < 2 ^ 31" "name_short name" "\<And>G. shifted name n F 1 G \<Longrightarrow> Q (archive_name name 1) (s\<lparr>lm_files := G\<rparr>)"
    and "shifted name n F n (lm_files s)"
  shows "wp (rotate_loop name (archive_name name n) (rev [1..n - 1])) Q s"
  using rotate_loop_shifts [OF assms(1) order_refl assms(2,3,5)] assms(4) by (auto simp: wp_def)

lemma shifted_rotated:
  assumes "shifted name n (c_remove (archive_name name n) F) 1 G" "name_short name" "1 \<le> n" "n < 2 ^ 31"
  shows "rotated name n F (c_rename name (archive_name name 1) G)"
proof -
  let ?a = "archive_name name"
  have ne: "?a i \<noteq> name" if "1 \<le> i" "i \<le> n" for i by (rule archive_name_ne) (use assms that in simp_all)
  have inj: "?a i = ?a j \<longleftrightarrow> i = j" if "1 \<le> i" "i \<le> n" "1 \<le> j" "j \<le> n" for i j
    by (rule archive_name_inj) (use assms that in simp_all)
  have name: "name \<notin> ?a ` {1..n}" using ne by force
  have G: "G (?a (i + 1)) = F (?a i)" if "1 \<le> i" "i < n" for i
    using assms(1) that inj [of i n] by (auto simp: shifted_def c_remove_def)
  have o: "G x = F x" if "x \<notin> ?a ` {1..n}" for x
    using assms(1,3) that by (auto simp: shifted_def c_remove_def)
  have "?a (i + 1) \<noteq> ?a 1 \<and> ?a (i + 1) \<noteq> name" if "1 \<le> i" "i < n" for i using inj [of "i + 1" 1] ne [of "i + 1"] that by simp
  moreover have "G (?a 1) = None" using assms(1) by (simp add: shifted_def)
  moreover have "?a 1 \<in> ?a ` {1..n}" using assms(3) by simp
  ultimately show ?thesis
    using G o [OF name] o ne [of 1] assms(3) by (auto simp: rotated_def c_rename_def split: option.splits)
qed

text \<open>The result of a rotation.\<close>

definition rotation :: "'w mmap_log \<Rightarrow> 'w mmap_log \<Rightarrow> bool" where
  "rotation s t \<longleftrightarrow> rotated (lm_logFileName s) (lm_logArchiveCount s) (lm_files s) (lm_files t)"

lemma rotated_other: "rotated name n F F' \<Longrightarrow> (\<And>x. x \<noteq> name \<Longrightarrow> F'' x = F' x) \<Longrightarrow> name_short name \<Longrightarrow> 1 \<le> n \<Longrightarrow> n < 2 ^ 31 \<Longrightarrow>
   rotated name n F F''"
  using archive_name_ne [of name] by (auto simp: rotated_def)

lemma wp_rotate:
  assumes lo: "log_os_ok lo" and s: "log_inv s" "name_short (lm_logFileName s)" "1 \<le> lm_logArchiveCount s" "lm_logArchiveCount s < 2 ^ 31"
  shows "wp (rotate lo) (\<lambda>rc t. rotation s t \<and> same_settings s t \<and> log_inv t
     \<and> tb_content (lm_buffer t) = [] \<and> (rc = 0 \<longrightarrow> tb_writeHead (lm_buffer t) = 0 \<and> int (tb_bufSize (lm_buffer t)) = lm_logFileSize s
        \<and> lm_files t (lm_logFileName s) \<noteq> None)) s"
  unfolding rotate_def wp_bind wp_gets wp_modify
proof (rule wp_mono [OF wp_closeFile [OF s(1)]], elim conjE)
  let ?name = "lm_logFileName s" and ?n = "lm_logArchiveCount s"
  fix t assume t: "lm_files t = lm_files s" "same_settings s t" "log_inv t" "tb_bufSize (lm_buffer t) = 0" "lm_fd t < 0"
  have e: "lm_logFileName t = ?name" "lm_logArchiveCount t = ?n" "lm_logFileSize t = lm_logFileSize s" "lm_level t = lm_level s"
    using t(2) by (simp_all add: same_settings_def)
  let ?F = "c_remove (archive_name ?name ?n) (lm_files s)"
  show "wp (rotate_loop (lm_logFileName t) (archive_name (lm_logFileName t) (lm_logArchiveCount t)) (rev [1..lm_logArchiveCount t - 1]))
     (\<lambda>r s'. wp (openFile lo) (\<lambda>rc t'. rotation s t' \<and> same_settings s t' \<and> log_inv t'
     \<and> tb_content (lm_buffer t') = [] \<and> (rc = 0 \<longrightarrow> tb_writeHead (lm_buffer t') = 0 \<and> int (tb_bufSize (lm_buffer t')) = lm_logFileSize s
        \<and> lm_files t' (lm_logFileName s) \<noteq> None)) (s'\<lparr>lm_files := c_rename (lm_logFileName t) r (lm_files s')\<rparr>))
     (t\<lparr>lm_files := c_remove (archive_name (lm_logFileName t) (lm_logArchiveCount t)) (lm_files t)\<rparr>)"
    unfolding e t(1)
  proof (rule wp_rotate_loop [where F = ?F, OF s(3,4,2)])
    show "shifted ?name ?n ?F ?n (lm_files (t\<lparr>lm_files := ?F\<rparr>))" by (simp add: shifted_def c_remove_def)
    fix G assume "shifted ?name ?n ?F 1 G"
    then have R: "rotated ?name ?n (lm_files s) (c_rename ?name (archive_name ?name 1) G)"
      by (rule shifted_rotated) (use s in simp_all)
    let ?t = "t\<lparr>lm_files := ?F, lm_files := G, lm_files := c_rename ?name (archive_name ?name 1) (lm_files (t\<lparr>lm_files := ?F, lm_files := G\<rparr>))\<rparr>"
    show "wp (openFile lo) (\<lambda>rc t'. rotation s t' \<and> same_settings s t' \<and> log_inv t'
     \<and> tb_content (lm_buffer t') = [] \<and> (rc = 0 \<longrightarrow> tb_writeHead (lm_buffer t') = 0 \<and> int (tb_bufSize (lm_buffer t')) = lm_logFileSize s
        \<and> lm_files t' (lm_logFileName s) \<noteq> None)) ?t"
      by (rule wp_mono [OF wp_openFile [OF lo]])
        (use t e R rotated_other [OF R _ s(2-4)] in \<open>auto simp: rotation_def log_inv_def same_settings_def\<close>)
  qed
qed

section \<open>Messages\<close>

definition log_ready :: "'w mmap_log \<Rightarrow> bool" where
  "log_ready s \<longleftrightarrow> log_inv s \<and> name_short (lm_logFileName s) \<and> 1 \<le> lm_logArchiveCount s \<and> lm_logArchiveCount s < 2 ^ 31"

definition has_room :: "'w mmap_log \<Rightarrow> bool" where
  "has_room s \<longleftrightarrow> tb_writeHead (lm_buffer s) + maxMessageSize \<le> tb_bufSize (lm_buffer s)"

lemma has_room_iff:
  "tb_startWrite (lm_buffer s) = (ret, p, n) \<Longrightarrow> has_room s \<longleftrightarrow> \<not> (\<not> ret \<or> (ret \<and> n < maxMessageSize))"
  by (auto simp: has_room_def tb_startWrite_def maxMessageSize_def split: if_splits)

lemma startWrite_room: "has_room s \<Longrightarrow> tb_startWrite (lm_buffer s) = (True, tb_writeHead (lm_buffer s), tb_bufSize (lm_buffer s) - tb_writeHead (lm_buffer s))"
  by (auto simp: has_room_def tb_startWrite_def maxMessageSize_def)

lemma wp_log_room:
  assumes lo: "log_os_ok lo" and s: "log_ready s"
    and keep: "has_room s \<Longrightarrow> Q (Some (tb_writeHead (lm_buffer s))) s"
    and turn: "\<And>t. \<not> has_room s \<Longrightarrow> rotation s t \<Longrightarrow> same_settings s t \<Longrightarrow> log_inv t \<Longrightarrow> tb_content (lm_buffer t) = [] \<Longrightarrow>
        has_room t \<Longrightarrow> lm_logFileSize s \<ge> int maxMessageSize \<Longrightarrow> Q (Some (tb_writeHead (lm_buffer t))) t"
    and lost: "\<And>t. \<not> has_room s \<Longrightarrow> rotation s t \<Longrightarrow> same_settings s t \<Longrightarrow> log_inv t \<Longrightarrow> tb_content (lm_buffer t) = [] \<Longrightarrow> Q None t"
  shows "wp (log_room lo) Q s"
proof -
  obtain ret p n where sw: "tb_startWrite (lm_buffer s) = (ret, p, n)" by (metis prod.exhaust)
  show ?thesis
  proof (cases "has_room s")
    case True
    then show ?thesis using keep startWrite_room [OF True] unfolding log_room_def wp_simps by (auto simp: has_room_def)
  next
    case False
    have r: "\<not> ret \<or> (ret \<and> n < maxMessageSize)" using False has_room_iff [OF sw] by simp
    show ?thesis
      unfolding log_room_def wp_bind wp_gets sw prod.case if_P [OF r]
    proof (rule wp_mono [OF wp_rotate [OF lo]])
      show "log_inv s" "name_short (lm_logFileName s)" "1 \<le> lm_logArchiveCount s" "lm_logArchiveCount s < 2 ^ 31"
        using s by (simp_all add: log_ready_def)
    next
      fix rc t
      assume t: "rotation s t \<and> same_settings s t \<and> log_inv t \<and> tb_content (lm_buffer t) = [] \<and>
        (rc = 0 \<longrightarrow> tb_writeHead (lm_buffer t) = 0 \<and> int (tb_bufSize (lm_buffer t)) = lm_logFileSize s \<and> lm_files t (lm_logFileName s) \<noteq> None)"
      obtain ret' p' n' where sw': "tb_startWrite (lm_buffer t) = (ret', p', n')" by (metis prod.exhaust)
      show "wp (if rc \<noteq> 0 then State_Monad.return None else do {
          b \<leftarrow> gets lm_buffer;
          case tb_startWrite b of (ret, data, sz) \<Rightarrow>
            if \<not> ret then State_Monad.return None
            else if sz < maxMessageSize then State_Monad.return None else State_Monad.return (Some data) }) Q t"
        unfolding wp_simps sw' fst_conv snd_conv
        using t False lost [of t] turn [of t] has_room_iff [OF sw'] startWrite_room [of t] sw' by (auto simp: has_room_def)
    qed
  qed
qed

lemma log_inv_put:
  "log_inv s \<Longrightarrow> has_room s \<Longrightarrow> log_inv (s\<lparr>lm_buffer := put_message (tb_writeHead (lm_buffer s)) pre message (lm_buffer s)\<rparr>)"
proof -
  assume s: "log_inv s" "has_room s"
  have "tb_bufSize (put_message p pre message b) = tb_bufSize b" for p b
    by (auto simp: put_message_def Let_def tb_store_def tb_endWrite_def split: option.split)
  moreover have "tb_inv (put_message (tb_writeHead (lm_buffer s)) pre message (lm_buffer s))"
    by (rule put_message_store(1) [OF _ startWrite_room [OF s(2)]]) (use s in \<open>auto simp: log_inv_def has_room_def\<close>)
  ultimately show ?thesis using s by (simp add: log_inv_def)
qed

lemma writeLog_spec:
  assumes lo: "log_os_ok lo" and s: "log_ready s"
  shows "wp (LogMmap_writeLog lo pre (Some text)) (\<lambda>_ t. log_ready t \<and> same_settings s t \<and>
    (if has_room s
     then lm_files t = lm_files s
       \<and> (\<exists>time. tb_content (lm_buffer t) = tb_content (lm_buffer s) @ take (maxMessageSize - 1) (pre @ '' '' @ time @ ''   '' @ text))
     else rotation s t
       \<and> (tb_content (lm_buffer t) = []
         \<or> lm_logFileSize s \<ge> int maxMessageSize \<and> (\<exists>time. tb_content (lm_buffer t) = take (maxMessageSize - 1) (pre @ '' '' @ time @ ''   '' @ text))))) s"
proof -
  have inv: "log_inv s" using s by (simp add: log_ready_def)
  have put: "tb_content (put_message (tb_writeHead (lm_buffer t)) (pre @ '' '' @ time @ ''   '') (Some text) (lm_buffer t))
      = tb_content (lm_buffer t) @ take (maxMessageSize - 1) (pre @ '' '' @ time @ ''   '' @ text)"
    if "log_inv t" "has_room t" for t :: "'a mmap_log" and time
    using put_message_store(2) [OF _ startWrite_room [OF that(2)], where pre = "pre @ '' '' @ time @ ''   ''"] that
    by (simp add: log_inv_def has_room_def)
  have room: "has_room (t\<lparr>lm_world := w\<rparr>) = has_room t" "log_inv (t\<lparr>lm_world := w\<rparr>) = log_inv t" for t :: "'a mmap_log" and w
    by (simp_all add: has_room_def log_inv_def)
  show ?thesis
    unfolding LogMmap_writeLog_def wp_bind
  proof (rule wp_log_room [OF lo s], goal_cases)
    case 1
    have "log_inv (s\<lparr>lm_world := w, lm_buffer := put_message (tb_writeHead (lm_buffer s)) x (Some text) (lm_buffer s)\<rparr>)" for w x
      using log_inv_put [of "s\<lparr>lm_world := w\<rparr>" x "Some text"] inv 1 by (simp add: room)
    then show ?case
      using 1 s put [OF inv 1] by (auto simp: wp_simps log_ready_def same_settings_def)
  next
    case (2 t)
    have "log_inv (t\<lparr>lm_world := w, lm_buffer := put_message (tb_writeHead (lm_buffer t)) x (Some text) (lm_buffer t)\<rparr>)" for w x
      using log_inv_put [of "t\<lparr>lm_world := w\<rparr>" x "Some text"] 2 by (simp add: room)
    then show ?case
      using 2 s put [OF 2(4,6)] by (auto simp: wp_simps log_ready_def same_settings_def rotation_def)
  next
    case (3 t)
    then show ?case using s by (auto simp: wp_simps log_ready_def same_settings_def)
  qed
qed

section \<open>Properties\<close>

text \<open>
  A log that initialises has a file name that fits its array, also with the number of an archive, and
  room for messages exactly if the file is large enough.
\<close>

theorem log_init_ready:
  assumes "log_os_ok lo" "lm_fd s < 0" "lm_buffer s = tb_empty" "1 \<le> sp_logArchiveCount params" "sp_logArchiveCount params < 2 ^ 31"
    and "run_state (LogMmap_init lo params) s = (0, t)"
  shows "log_ready t \<and> length (archive_name (lm_logFileName t) (sp_logArchiveCount params)) < maxLogFileNameSize
    \<and> lm_logFileName t = cstr (sp_logFolder params) @ ''/http.log''
    \<and> (has_room t \<longleftrightarrow> int maxMessageSize \<le> sp_logFileSize params)"
proof -
  let ?name = "cstr (sp_logFolder params) @ ''/http.log''"
  have W: "wp (LogMmap_init lo params) (\<lambda>r t. r = 0 \<longrightarrow> log_ready t \<and> lm_logFileName t = ?name
      \<and> (has_room t \<longleftrightarrow> int maxMessageSize \<le> sp_logFileSize params)) s"
  proof (cases "length (sp_logFolder params) + 2 > maxLogFileNameSize - 30")
    case True
    then show ?thesis by (simp add: LogMmap_init_def wp_simps)
  next
    case False
    have "length (cstr (sp_logFolder params)) \<le> length (sp_logFolder params)" by (simp add: cstr_def length_takeWhile_le)
    then have n: "name_short ?name" using False by (simp add: name_short_def maxLogFileNameSize_def)
    have R: "wp (rotate lo) (\<lambda>r t. r = 0 \<longrightarrow> log_ready t \<and> lm_logFileName t = ?name
        \<and> (has_room t \<longleftrightarrow> int maxMessageSize \<le> sp_logFileSize params)) u"
      if "log_inv u" "lm_logFileName u = ?name" "lm_logArchiveCount u = sp_logArchiveCount params" "lm_logFileSize u = sp_logFileSize params" for u
      by (rule wp_mono [OF wp_rotate [OF assms(1) that(1)]])
        (use n that assms(4,5) in \<open>auto simp: log_ready_def same_settings_def has_room_def\<close>)
    have i: "tb_inv tb_empty" "tb_bufSize tb_empty = 0" by (rule tb_inv_empty) (simp add: tb_empty_def)
    show ?thesis
      unfolding LogMmap_init_def if_not_P [OF False] wp_simps
      by (intro allI impI conjI R) (use assms(2,3) i in \<open>auto simp: log_inv_def intro!: R\<close>)
  qed
  have l: "log_ready t \<Longrightarrow> length (archive_name (lm_logFileName t) i) < maxLogFileNameSize" for i
    by (simp add: archive_name_def maxLogFileNameSize_def)
  show ?thesis using wp_run [OF W assms(6)] l by simp
qed


text \<open>
  A log file of less than 1024 bytes, which the parameters allow, never receives a message, and every
  message drops the oldest archive.
\<close>

theorem small_log_loses:
  assumes "log_os_ok lo" "log_ready s" "lm_logFileSize s < 1024"
    and "run_state (LogMmap_writeLog lo pre (Some msg)) s = ((), t)"
  shows "tb_content (lm_buffer t) = [] \<and> rotated (lm_logFileName s) (lm_logArchiveCount s) (lm_files s) (lm_files t)"
proof -
  have "\<not> has_room s" using assms(2,3) by (auto simp: has_room_def log_ready_def log_inv_def maxMessageSize_def)
  then show ?thesis
    using wp_run [OF writeLog_spec [OF assms(1,2)] assms(4)] assms(3) by (auto simp: maxMessageSize_def rotation_def)
qed

section \<open>Concrete instances\<close>

definition sample_lo :: "nat log_os" where
  "sample_lo = \<lparr>lo_stat = (\<lambda>f w. (0, w)), lo_mkdir = (\<lambda>f w. (0, w)), lo_open = (\<lambda>f w. ((3, w), w + 1)),
     lo_ftruncate = (\<lambda>fd n w. (0, w)), lo_mmap = (\<lambda>fd n w. (if 0 \<le> n then Some (replicate (nat n) NUL) else None, w)),
     lo_munmap = (\<lambda>n w. (0, w)), lo_close = (\<lambda>fd w. (0, w)), lo_time = (\<lambda>w. (''20200101 00:00:00'', w))\<rparr>"

lemma sample_lo_ok: "log_os_ok sample_lo"
  by (auto simp: log_os_ok_def sample_lo_def split: if_splits)

definition sample_log :: "nat \<Rightarrow> nat mmap_log" where
  "sample_log n = \<lparr>lm_world = 1, lm_files = (\<lambda>_. None)(''log/http.log'' := Some 0), lm_level = LL_info, lm_logFileSize = int n,
     lm_logArchiveCount = 2, lm_buffer = tb_init (Some (replicate n NUL)) n tb_empty, lm_fd = 3, lm_logFileName = ''log/http.log''\<rparr>"

lemma sample_log_ready: "log_ready (sample_log n)"
  using tb_init_inv(1) [of "replicate n NUL" tb_empty]
  by (simp add: log_ready_def log_inv_def sample_log_def name_short_def tb_init_def tb_clear_def)


lemma small_log_loses_witness:
  "\<exists>t. run_state (LogMmap_writeLog sample_lo infoPrefix (Some ''hello'')) (sample_log 100) = ((), t)
     \<and> tb_content (lm_buffer t) = [] \<and> lm_files t (archive_name ''log/http.log'' 1) = Some 0"
proof -
  obtain t where t: "run_state (LogMmap_writeLog sample_lo infoPrefix (Some ''hello'')) (sample_log 100) = ((), t)"
    by (metis (full_types) old.unit.exhaust prod.exhaust)
  have "lm_logFileSize (sample_log 100) < 1024" by (simp add: sample_log_def)
  then show ?thesis
    using small_log_loses [OF sample_lo_ok sample_log_ready, of 100 infoPrefix "''hello''" t] t
    by (auto simp: rotated_def) (simp add: sample_log_def)
qed

definition fresh_log :: "nat mmap_log" where
  "fresh_log = (sample_log 0)\<lparr>lm_buffer := tb_empty, lm_fd := -1\<rparr>"

lemma log_init_ready_witness:
  "\<exists>t. run_state (LogMmap_init sample_lo (sp_defaults\<lparr>sp_logArchiveCount := 1\<rparr>)) fresh_log = (0, t) \<and> log_ready t \<and> has_room t"
proof -
  have "fst (run_state (LogMmap_init sample_lo (sp_defaults\<lparr>sp_logArchiveCount := 1\<rparr>)) fresh_log) = 0"
    by (simp add: LogMmap_init_def sp_defaults_def maxLogFileNameSize_def lsys_def sample_lo_def rotate_def closeFile_def fresh_log_def
        openFile_def cstr_def)
  then obtain t where t: "run_state (LogMmap_init sample_lo (sp_defaults\<lparr>sp_logArchiveCount := 1\<rparr>)) fresh_log = (0, t)"
    by (metis prod.collapse)
  from log_init_ready [OF sample_lo_ok _ _ _ _ this] t show ?thesis
    by (simp add: fresh_log_def sp_defaults_def maxMessageSize_def)
qed

end
