(* ===== verification/Reports.thy ===== *)
theory Reports
  imports ServerRun Logging HttpRequestRender
begin

text \<open>
  What the program reports: \<open>writeLog\<close> of \<open>src/ExecutorData.cpp\<close>, the two functions \<open>logStats\<close> of
  \<open>src/PollLoop.cpp\<close> and \<open>src/Server.cpp\<close>, \<open>writeToLog\<close> of \<open>src/ServerParameters.cpp\<close>, \<open>print\<close> of
  \<open>src/HttpRequest.cpp\<close>, the log on the standard output, \<open>src/log/LogStdout.cpp\<close>, and the time in front of each
  message, \<open>src/utils/TimeUtils.cpp\<close>. A function that logs is modelled by the messages it hands to the log, in their order, after the
  format's directives are filled in.
\<close>

section \<open>Executors\<close>

definition NewFdExecutor_name :: string where "NewFdExecutor_name = ''newfd''"
definition ServerExecutor_name :: string where "ServerExecutor_name = ''server''"
definition RequestExecutor_name :: string where "RequestExecutor_name = ''request''"
definition FileExecutor_name :: string where "FileExecutor_name = ''file''"
definition ProxyExecutorSplice_name :: string where "ProxyExecutorSplice_name = ''proxysplice''"
definition SslServerExecutor_name :: string where "SslServerExecutor_name = ''sslserver''"
definition SslRequestExecutor_name :: string where "SslRequestExecutor_name = ''sslrequest''"
definition SslFileExecutor_name :: string where "SslFileExecutor_name = ''sslfile''"
definition SslProxyExecutor_name :: string where "SslProxyExecutor_name = ''sslproxy''"

text \<open>The virtual function \<open>name\<close>.\<close>

fun executor_name :: "executor \<Rightarrow> string" where
  "executor_name X_newFd = NewFdExecutor_name"
| "executor_name X_server = ServerExecutor_name"
| "executor_name X_request = RequestExecutor_name"
| "executor_name X_file = FileExecutor_name"
| "executor_name X_proxy = ProxyExecutorSplice_name"
| "executor_name X_sslServer = SslServerExecutor_name"
| "executor_name X_sslRequest = SslRequestExecutor_name"
| "executor_name X_sslFile = SslFileExecutor_name"
| "executor_name X_sslProxy = SslProxyExecutor_name"

text \<open>\<open>(int)state\<close>: the position of the enumerator.\<close>

fun state_number :: "exec_state \<Rightarrow> int" where
  "state_number ES_invalid = 0"
| "state_number ES_readRequest = 1"
| "state_number ES_sendHeaders = 2"
| "state_number ES_sendFile = 3"
| "state_number ES_forwardRequest = 4"
| "state_number ES_forwardResponse = 5"
| "state_number ES_forwardResponseOnlyWrite = 6"
| "state_number ES_waitConnect = 7"
| "state_number ES_sendOnlyHeaders = 8"
| "state_number ES_ok = 9"
| "state_number ES_sslHandshake = 10"

definition ExecutorData_writeLog :: "string \<Rightarrow> executor_data \<Rightarrow> string" where
  "ExecutorData_writeLog title d =
     (let execString = (case ed_pExecutor d of Some x \<Rightarrow> executor_name x | None \<Rightarrow> ''null'')
      in title @ ''   executor: '' @ execString @ ''   state: '' @ show_int (state_number (ed_state d))
         @ ''   fd0: '' @ show_int (ed_fd0 d) @ ''   fd1: '' @ show_int (ed_fd1 d) @ [LF])"

section \<open>Statistics\<close>

text \<open>
  \<open>tid\<close> is \<open>pthread_self()\<close>, put into 30 bytes. \<open>None\<close>: one of the walks along a list does not end.
\<close>

definition PollLoop_logStats :: "nat \<Rightarrow> 'w poll_loop \<Rightarrow> string list option" where
  "PollLoop_logStats tid s =
     (let tidBuf = take 29 (''['' @ show_nat tid @ '']'')
      in Option.bind (bs_getStorageInfo (pl_execDatas s)) (\<lambda>siExec.
         Option.bind (bs_getStorageInfo (pl_pollDatas s)) (\<lambda>siPoll.
         Option.bind (pool_walk bs_next_item (pl_execDatas s) (bs_head (pl_execDatas s))) (\<lambda>items.
         Some ([tidBuf @ ''<<<<<<<'' @ [LF],
                tidBuf @ ''   executors. allocated: '' @ show_nat siExec @ [LF],
                tidBuf @ ''   poll data. allocated: '' @ show_nat siPoll @ [LF]]
               @ map (\<lambda>a. ExecutorData_writeLog tidBuf (pl_execs s a)) items
               @ [tidBuf @ ''>>>>>>>'' @ [LF]])))))"

text \<open>The loop over the loops' counters, \<open>i\<close> the index of the first.\<close>

fun logStats_loop :: "int list \<Rightarrow> nat \<Rightarrow> int \<Rightarrow> string list" where
  "logStats_loop [] i tot = [''poll files. total:    '' @ show_int tot @ [LF]]"
| "logStats_loop (numberOfFds # ns) i tot =
     (''poll files. thread '' @ show_nat i @ '': '' @ show_int numberOfFds @ [LF])
       # logStats_loop ns (i + 1) (tot + numberOfFds)"

definition Server_logStats :: "'w server \<Rightarrow> string list" where
  "Server_logStats s =
     logStats_loop (map numberOfPollFds (take (nat (sp_threadCount (sv_parameters s))) (loops_of s))) 0 0"

section \<open>Parameters\<close>

definition proxy_line :: "proxy_parameters \<Rightarrow> string" where
  "proxy_line proxy =
     (let conTypeString =
            (if has (px_connectionType proxy) CT_clear \<and> has (px_connectionType proxy) CT_ssl then ''clear, ssl''
             else if has (px_connectionType proxy) CT_clear then ''clear''
             else if has (px_connectionType proxy) CT_ssl then ''ssl'' else ''none'');
          socketTypeString =
            (if px_socketType proxy = ST_tcp then ''tcp'' else if px_socketType proxy = ST_unix then ''unix'' else ''none'')
      in ''proxy   prefix: '' @ cstr (px_prefix proxy) @ ''   address: '' @ cstr (px_address proxy)
         @ ''   port: '' @ show_int (px_port proxy) @ ''   connection: '' @ conTypeString
         @ ''   socket: '' @ socketTypeString @ [LF])"

definition writeToLog :: "server_parameters \<Rightarrow> string list" where
  "writeToLog sp =
     [''----- server parameters -----'' @ [LF],
      ''rootFolder: '' @ cstr (sp_rootFolder sp) @ [LF],
      ''threadCount: '' @ show_int (sp_threadCount sp) @ [LF],
      ''executorTimeoutMillis: '' @ show_int (sp_executorTimeoutMillis sp) @ [LF],
      ''logLevel: '' @ logLevelString (sp_logLevel sp) @ [LF],
      ''logType: '' @ logTypeString (sp_logType sp) @ [LF],
      ''logFileSize: '' @ show_int (sp_logFileSize sp) @ [LF],
      ''logArchiveCount: '' @ show_int (sp_logArchiveCount sp) @ [LF]]
     @ map (\<lambda>port. ''httpPort: '' @ show_int port @ [LF]) (sp_httpPorts sp)
     @ map (\<lambda>port. ''httpsPort: '' @ show_int port @ [LF]) (sp_httpsPorts sp)
     @ map proxy_line (sp_proxies sp)
     @ [''-----------------------------'' @ [LF]]"

section \<open>Requests\<close>

text \<open>
  \<open>%.*s\<close> prints the bytes up to the given number or up to a zero byte. The bytes printed are those received: a
  finished request has received its whole content.
\<close>

definition printed :: "http_request \<Rightarrow> nat \<Rightarrow> nat \<Rightarrow> string" where
  "printed r start n = cstr (mem_read start n (rq_data r))"

definition print :: "http_request \<Rightarrow> int \<times> string" where
  "print r = (0,
     (if rq_methodLength r > 0 then ''method: ['' @ printed r (rq_methodStart r) (rq_methodLength r) @ '']'' @ [LF] else [])
   @ (if rq_urlLength r > 0 then ''url: ['' @ printed r (rq_urlStart r) (rq_urlLength r) @ '']'' @ [LF] else [])
   @ (if rq_urlParametersLength r > 0
      then ''url params: ['' @ printed r (rq_urlParametersStart r) (rq_urlParametersLength r) @ '']'' @ [LF] else [])
   @ concat (map (\<lambda>head. ''['' @ printed r (fld_start (hdr_key head)) (fld_length (hdr_key head)) @ '']: [''
       @ printed r (fld_start (hdr_value head)) (fld_length (hdr_value head)) @ '']'' @ [LF]) (rq_headers r))
   @ (if rq_contentLength r > 0
      then ''content ('' @ show_int (rq_contentLength r) @ ''): [''
        @ printed r (rq_contentStart r) (nat (rq_contentLength r)) @ '']'' @ [LF] else []))"

section \<open>Time and the standard output\<close>

text \<open>\<open>struct tm\<close>, with the members that the format names.\<close>

record tm =
  tm_year :: int
  tm_mon :: int
  tm_mday :: int
  tm_hour :: int
  tm_min :: int
  tm_sec :: int

text \<open>
  \<open>duration_cast\<close> to milliseconds of the clock's time since the epoch, which \<open>system_clock\<close> counts in
  nanoseconds: the division rounds towards zero.
\<close>

definition getMilliseconds :: "int \<Rightarrow> int" where
  "getMilliseconds nanoseconds = sgn nanoseconds * (\<bar>nanoseconds\<bar> div 1000000)"

lemma getMilliseconds_mono: "m \<le> n \<Longrightarrow> getMilliseconds m \<le> getMilliseconds n"
proof (cases "0 \<le> m")
  case True
  then show "m \<le> n \<Longrightarrow> ?thesis" by (auto simp: getMilliseconds_def sgn_if zdiv_mono1)
next
  case False
  then show "m \<le> n \<Longrightarrow> ?thesis"
    using zdiv_mono1 [of "- n" "- m" 1000000] pos_imp_zdiv_nonneg_iff [of 1000000 "- m"]
    by (auto simp: getMilliseconds_def sgn_if intro: order_trans [of _ 0])
qed

definition two_digits :: "int \<Rightarrow> string" where
  "two_digits n = (if n < 10 then ''0'' @ show_int n else show_int n)"

text \<open>
  The result and the text that is left in the buffer; after a failure of \<open>strftime\<close>, which returns 0 when text and zero
  byte do not fit, the buffer's content is unspecified, \<open>None\<close>.
\<close>

definition getCurrentTimeString :: "tm \<Rightarrow> nat \<Rightarrow> int \<times> string option" where
  "getCurrentTimeString t timeBufferSize =
     (let txt = show_int (1900 + tm_year t) @ two_digits (tm_mon t + 1) @ two_digits (tm_mday t) @ '' ''
        @ two_digits (tm_hour t) @ '':'' @ two_digits (tm_min t) @ '':'' @ two_digits (tm_sec t)
      in if length txt < timeBufferSize then (0, Some txt) else (-1, None))"

definition LogStdout_writeLog :: "string \<Rightarrow> string \<Rightarrow> string \<Rightarrow> string" where
  "LogStdout_writeLog timeBuffer pre message = pre @ '' '' @ timeBuffer @ ''   '' @ message"

section \<open>What the reports say\<close>

lemma logStats_loop_lines:
  "logStats_loop ns i tot = map (\<lambda>(i, n). ''poll files. thread '' @ show_nat i @ '': '' @ show_int n @ [LF]) (enumerate i ns)
     @ [''poll files. total:    '' @ show_int (tot + sum_list ns) @ [LF]]"
  by (induction ns i tot rule: logStats_loop.induct) (simp_all add: ac_simps)

theorem server_stats_total:
  "last (Server_logStats s) = ''poll files. total:    '' @ show_int (totalNumberOfFds s) @ [LF]
   \<and> length (Server_logStats s) = Suc (min (nat (sp_threadCount (sv_parameters s))) (length (loops_of s)))"
  by (simp add: Server_logStats_def logStats_loop_lines totalNumberOfFds_def)

text \<open>
  In a reachable loop the statistics come to an end. They count the executors in use and the registered
  descriptors, and have one line for each executor in use.
\<close>

theorem stats_complete:
  assumes "os_ok os" "reachable os params s" "tidBuf = take 29 (''['' @ show_nat tid @ '']'')"
  shows "\<exists>us. pool_walk bs_next_item (pl_execDatas s) (bs_head (pl_execDatas s)) = Some us \<and> distinct us
    \<and> PollLoop_logStats tid s = Some (
        [tidBuf @ ''<<<<<<<'' @ [LF],
         tidBuf @ ''   executors. allocated: '' @ show_nat (length us) @ [LF],
         tidBuf @ ''   poll data. allocated: '' @ show_int (numberOfPollFds s) @ [LF]]
        @ map (\<lambda>a. ExecutorData_writeLog tidBuf (pl_execs s a)) us
        @ [tidBuf @ ''>>>>>>>'' @ [LF]])"
proof -
  from reachable_in_order [OF assms(2,1)] obtain us ps where e: "bs_used BLOCK_SIZE (pl_execDatas s) us"
      and p: "bs_used BLOCK_SIZE (pl_pollDatas s) ps" and n: "pl_numOfPollFds s = int (length ps)"
    by (auto simp: in_order_def loop_rep_def)
  have "bs_getStorageInfo (pl_execDatas s) = Some (length us)" "bs_getStorageInfo (pl_pollDatas s) = Some (length ps)"
    using e p bs_getStorageInfo_spec by (auto simp: bs_used_def)
  then show ?thesis
    using bs.walk_used [OF e] bs.used_distinct [OF e] n
    by (simp add: PollLoop_logStats_def assms(3) numberOfPollFds_def show_int_def)
qed

text \<open>
  The two logs write the same messages: what a message adds to the log in the mapped file, while it has room, is what the
  log on the standard output prints for it, cut to 1023 bytes.
\<close>

theorem logs_agree:
  assumes "log_os_ok lo" "log_ready s" "has_room s"
    and "run_state (LogMmap_writeLog lo pre (Some msg)) s = ((), t)"
  shows "tb_content (lm_buffer t) =
    tb_content (lm_buffer s) @ take 1023 (LogStdout_writeLog (fst (lo_time lo (lm_world s))) pre msg)"
proof -
  let ?b = "lm_buffer s" and ?x = "pre @ '' '' @ fst (lo_time lo (lm_world s)) @ ''   ''"
  have b: "tb_inv ?b" "tb_writeHead ?b + maxMessageSize \<le> tb_bufSize ?b"
    using assms(2,3) by (auto simp: log_ready_def log_inv_def has_room_def)
  have "wp (LogMmap_writeLog lo pre (Some msg)) (\<lambda>_ t. lm_buffer t = put_message (tb_writeHead ?b) ?x (Some msg) ?b) s"
    unfolding LogMmap_writeLog_def wp_bind
    by (rule wp_log_room [OF assms(1,2)]) (use assms(3) in \<open>auto simp: wp_simps\<close>)
  from wp_run [OF this assms(4)] have "lm_buffer t = put_message (tb_writeHead ?b) ?x (Some msg) ?b" .
  then show ?thesis
    using put_message_store(2) [OF b(1) startWrite_room [OF assms(3)], where pre = ?x] b(2)
    by (simp add: LogStdout_writeLog_def maxMessageSize_def)
qed

lemma two_digits_length: "0 \<le> n \<Longrightarrow> n < 100 \<Longrightarrow> length (two_digits n) = 2"
  by (auto simp: two_digits_def show_int_def show_nat.simps)

text \<open>The 50 bytes that the logs give to the time are enough in the years of four digits.\<close>

theorem current_time_fits:
  assumes "1000 \<le> 1900 + tm_year t" "1900 + tm_year t < 10000" "0 \<le> tm_mon t" "tm_mon t < 12" "1 \<le> tm_mday t" "tm_mday t \<le> 31"
    "0 \<le> tm_hour t" "tm_hour t < 24" "0 \<le> tm_min t" "tm_min t < 60" "0 \<le> tm_sec t" "tm_sec t \<le> 60"
  shows "\<exists>txt. getCurrentTimeString t 50 = (0, Some txt) \<and> length txt = 17"
proof -
  have y: "length (show_int (1900 + tm_year t)) = 4"
    using assms(1,2) by (auto simp: show_int_def show_nat.simps nat_less_iff)
  show ?thesis using assms y by (simp add: getCurrentTimeString_def Let_def two_digits_length)
qed

section \<open>Concrete instances\<close>

lemma stats_complete_witness:
  "\<exists>s. reachable sample_os sp_defaults s \<and> PollLoop_logStats 7 s \<noteq> None"
proof -
  obtain s where s: "reachable sample_os sp_defaults s" using sample_reachable by blast
  show ?thesis using stats_complete [OF sample_os_ok(1) s refl, of 7] s by auto
qed

lemma run_unit: "run_state m s = ((), snd (run_state m s))"
  by (simp add: prod_eq_iff)

lemma logs_agree_witness:
  "tb_content (lm_buffer (snd (run_state (LogMmap_writeLog sample_lo ''[INFO]'' (Some ''started'')) (sample_log 2048))))
     = take 1023 (LogStdout_writeLog ''20200101 00:00:00'' ''[INFO]'' ''started'')"
proof -
  define t where "t = snd (run_state (LogMmap_writeLog sample_lo ''[INFO]'' (Some ''started'')) (sample_log 2048))"
  have t: "run_state (LogMmap_writeLog sample_lo ''[INFO]'' (Some ''started'')) (sample_log 2048) = ((), t)"
    unfolding t_def by (rule run_unit)
  have r: "has_room (sample_log 2048)" and e: "tb_content (lm_buffer (sample_log 2048)) = []"
    by (simp_all add: has_room_def sample_log_def tb_init_def tb_clear_def maxMessageSize_def tb_content_def mem_read_def)
  have z: "fst (lo_time sample_lo w) = ''20200101 00:00:00''" for w by (simp add: sample_lo_def)
  show ?thesis
    using logs_agree [OF sample_lo_ok sample_log_ready r t] unfolding t snd_conv e z append_Nil .
qed

end
